(* ===== verification/Go_Net.thy ===== *)
theory Go_Net
  imports VPN_Prelude
begin

text \<open>
  The part of Go's packages \<^verbatim>\<open>net\<close> and \<^verbatim>\<open>net/netip\<close> the program computes with:
  addresses and masks as byte slices, the conversion between the 4-byte and the 16-byte form of
  an IPv4 address, masks, containment, and printing and parsing of addresses and prefixes.
  These are functions of Go's standard library, modelled on what the program uses of them; no
  definition of this theory stands for code of the repository.
\<close>

unbundle bit_operations_syntax

type_synonym byte = "8 word"

text \<open>A \<^verbatim>\<open>net.IP\<close> or \<^verbatim>\<open>net.IPMask\<close>; the nil slice is the empty list.\<close>

type_synonym ip = "byte list"

record ipnet =
  net_ip :: ip
  net_mask :: ip

section \<open>Addresses\<close>

definition v4_in_v6_prefix :: ip where
  "v4_in_v6_prefix = [0, 0, 0, 0, 0, 0, 0, 0, 0, 0, 0xff, 0xff]"

text \<open>\<^verbatim>\<open>net.IPv4\<close> builds the 16-byte form.\<close>

definition ipv4 :: "byte \<Rightarrow> byte \<Rightarrow> byte \<Rightarrow> byte \<Rightarrow> ip" where
  "ipv4 a b c d = v4_in_v6_prefix @ [a, b, c, d]"

text \<open>\<^verbatim>\<open>IP.To4\<close> and \<^verbatim>\<open>IP.To16\<close>; \<^term>\<open>None\<close> is the nil result.\<close>

definition to4 :: "ip \<Rightarrow> ip option" where
  "to4 a = (if length a = 4 then Some a
            else if length a = 16 \<and> take 12 a = v4_in_v6_prefix then Some (drop 12 a)
            else None)"

definition to16 :: "ip \<Rightarrow> ip option" where
  "to16 a = (if length a = 4 then Some (v4_in_v6_prefix @ a)
             else if length a = 16 then Some a else None)"

text \<open>\<^verbatim>\<open>IP.Equal\<close>: an IPv4 address and its 16-byte form are equal.\<close>

definition ip_equal :: "ip \<Rightarrow> ip \<Rightarrow> bool" where
  "ip_equal a b =
     (if length a = length b then a = b
      else if length a = 4 \<and> length b = 16 then take 12 b = v4_in_v6_prefix \<and> a = drop 12 b
      else if length a = 16 \<and> length b = 4 then take 12 a = v4_in_v6_prefix \<and> drop 12 a = b
      else False)"

lemma to4_length: "to4 a = Some b \<Longrightarrow> length b = 4"
  by (auto simp: to4_def split: if_splits)

lemma to4_4 [simp]: "length a = 4 \<Longrightarrow> to4 a = Some a"
  by (simp add: to4_def)

lemma to4_ipv4 [simp]: "to4 (ipv4 a b c d) = Some [a, b, c, d]"
  by (simp add: to4_def ipv4_def v4_in_v6_prefix_def)

lemma list4_cases: "length xs = 4 \<Longrightarrow> \<exists>a b c d. xs = [a, b, c, d]"
  by (auto simp: numeral_eq_Suc length_Suc_conv)

section \<open>Masks\<close>

text \<open>\<^verbatim>\<open>net.CIDRMask\<close>: nil for a length other than 32 or 128 bits or a prefix out of range.\<close>

fun mask_bytes :: "nat \<Rightarrow> nat \<Rightarrow> ip" where
  "mask_bytes 0 n = []"
| "mask_bytes (Suc l) n =
     (if 8 \<le> n then 0xff # mask_bytes l (n - 8)
      else NOT (drop_bit n 0xff) # mask_bytes l 0)"

definition cidr_mask :: "int \<Rightarrow> int \<Rightarrow> ip" where
  "cidr_mask ones bits =
     (if bits \<noteq> 32 \<and> bits \<noteq> 128 then []
      else if ones < 0 \<or> bits < ones then []
      else mask_bytes (nat (bits div 8)) (nat ones))"

text \<open>
  \<^verbatim>\<open>IPMask.Size\<close>: the number of leading ones and the number of bits, \<open>(0, 0)\<close> for a mask
  that is not ones followed by zeros.
\<close>

definition leading_ones8 :: "byte \<Rightarrow> nat" where
  "leading_ones8 v =
     (if v AND 0x80 = 0 then 0 else if v AND 0x40 = 0 then 1 else if v AND 0x20 = 0 then 2
      else if v AND 0x10 = 0 then 3 else if v AND 0x08 = 0 then 4 else if v AND 0x04 = 0 then 5
      else if v AND 0x02 = 0 then 6 else if v AND 0x01 = 0 then 7 else 8)"

fun simple_mask_length :: "ip \<Rightarrow> int" where
  "simple_mask_length [] = 0"
| "simple_mask_length (v # vs) =
     (if v = 0xff then (let n = simple_mask_length vs in if n = -1 then -1 else 8 + n)
      else if push_bit (leading_ones8 v) v \<noteq> 0 then -1
      else if \<exists>w \<in> set vs. w \<noteq> 0 then -1
      else int (leading_ones8 v))"

definition mask_size :: "ip \<Rightarrow> int \<times> int" where
  "mask_size m = (let n = simple_mask_length m
                  in if n = -1 then (0, 0) else (n, 8 * int (length m)))"

text \<open>\<^verbatim>\<open>IP.Mask\<close>; the nil result is the empty list.\<close>

definition ip_mask :: "ip \<Rightarrow> ip \<Rightarrow> ip" where
  "ip_mask a m =
     (let m' = (if length m = 16 \<and> length a = 4 \<and> take 12 m = replicate 12 0xff
                then drop 12 m else m);
          a' = (if length m' = 4 \<and> length a = 16 \<and> take 12 a = v4_in_v6_prefix
                then drop 12 a else a)
      in if length a' \<noteq> length m' then [] else map2 (AND) a' m')"

text \<open>\<^verbatim>\<open>IPNet.Contains\<close> with its helper \<^verbatim>\<open>networkNumberAndMask\<close>.\<close>

definition network_number_and_mask :: "ipnet \<Rightarrow> ip \<times> ip" where
  "network_number_and_mask n =
     (let a = (case to4 (net_ip n) of Some x \<Rightarrow> x | None \<Rightarrow> net_ip n); m = net_mask n
      in if length a \<noteq> 4 \<and> length a \<noteq> 16 then ([], [])
         else if length m = 4 then (if length a = 4 then (a, m) else ([], []))
         else if length m = 16 then (if length a = 4 then (a, drop 12 m) else (a, m))
         else ([], []))"

definition net_contains :: "ipnet \<Rightarrow> ip \<Rightarrow> bool" where
  "net_contains n a =
     (let (nn, m) = network_number_and_mask n;
          x = (case to4 a of Some y \<Rightarrow> y | None \<Rightarrow> a)
      in length x = length nn \<and> map2 (AND) nn m = map2 (AND) x m)"

section \<open>Printing\<close>

definition byte_string :: "byte \<Rightarrow> string" where
  "byte_string b = dec_string (unat b)"

definition ip4_string :: "ip \<Rightarrow> string" where
  "ip4_string a = join_with ''.'' (map byte_string a)"

text \<open>Hexadecimal without leading zeros, for one group of an IPv6 address.\<close>

fun hex_string :: "nat \<Rightarrow> string" where
  "hex_string n = (if n < 16 then [digit_char n]
                   else hex_string (n div 16) @ [digit_char (n mod 16)])"

declare hex_string.simps [simp del]

fun ip6_groups :: "ip \<Rightarrow> nat list" where
  "ip6_groups (a # b # r) = (256 * unat a + unat b) # ip6_groups r"
| "ip6_groups _ = []"

text \<open>
  The longest run of at least two zero groups, the first of them when there are several, is
  printed as \<^verbatim>\<open>::\<close>.  \<open>zero_run gs\<close> is the length of the run at the head; \<open>best_run\<close>
  scans from index \<open>i\<close> as \<^verbatim>\<open>netip\<close> does, with the best run so far as a pair of its
  start and its length.
\<close>

definition zero_run :: "nat list \<Rightarrow> nat" where
  "zero_run gs = length (takeWhile (\<lambda>g. g = 0) gs)"

fun best_run :: "nat \<Rightarrow> nat \<times> nat \<Rightarrow> nat list \<Rightarrow> nat \<times> nat" where
  "best_run i (s, l) [] = (s, l)"
| "best_run i (s, l) (g # gs) =
     (let k = zero_run (g # gs)
      in best_run (Suc i) (if 2 \<le> k \<and> l < k then (i, k) else (s, l)) gs)"

definition ip6_string :: "ip \<Rightarrow> string" where
  "ip6_string a =
     (let gs = ip6_groups a; (s, l) = best_run 0 (0, 0) gs
      in if l = 0 then join_with '':'' (map hex_string gs)
         else join_with '':'' (map hex_string (take s gs)) @ ''::'' @
              join_with '':'' (map hex_string (drop (s + l) gs)))"

definition hex2 :: "byte \<Rightarrow> string" where
  "hex2 b = [digit_char (unat b div 16), digit_char (unat b mod 16)]"

definition ip_string :: "ip \<Rightarrow> string" where
  "ip_string a =
     (if a = [] then ''<nil>''
      else if length a \<noteq> 4 \<and> length a \<noteq> 16 then ''?'' @ concat (map hex2 a)
      else (case to4 a of Some p \<Rightarrow> ip4_string p | None \<Rightarrow> ip6_string a))"

definition mask_string :: "ip \<Rightarrow> string" where
  "mask_string m = (if m = [] then ''<nil>'' else concat (map hex2 m))"

text \<open>\<^verbatim>\<open>IPNet.String\<close>, for a mask that is a prefix and for one that is not.\<close>

definition ipnet_string :: "ipnet \<Rightarrow> string" where
  "ipnet_string n =
     (let (nn, m) = network_number_and_mask n
      in if nn = [] \<or> m = [] then ''<nil>''
         else if simple_mask_length m = -1 then ip_string nn @ ''/'' @ mask_string m
         else ip_string nn @ ''/'' @ int_string (simple_mask_length m))"

section \<open>Parsing\<close>

text \<open>One field of a dotted IPv4 address: decimal, at most 255, without leading zeros.\<close>

definition parse_octet :: "string \<Rightarrow> byte option" where
  "parse_octet s =
     (if s \<noteq> [] \<and> list_all is_digit s \<and> (hd s = CHR ''0'' \<longrightarrow> length s = 1) \<and> dec_value s \<le> 255
      then Some (of_nat (dec_value s)) else None)"

definition parse_ip4 :: "string \<Rightarrow> ip option" where
  "parse_ip4 s = (case map parse_octet (split_on CHR ''.'' s) of
       [Some a, Some b, Some c, Some d] \<Rightarrow> Some [a, b, c, d]
     | _ \<Rightarrow> None)"

definition hex_val :: "char \<Rightarrow> nat option" where
  "hex_val c =
     (if CHR ''0'' \<le> c \<and> c \<le> CHR ''9'' then Some (of_char c - 48)
      else if CHR ''a'' \<le> c \<and> c \<le> CHR ''f'' then Some (of_char c - 87)
      else if CHR ''A'' \<le> c \<and> c \<le> CHR ''F'' then Some (of_char c - 55)
      else None)"

fun hex_digits :: "nat \<Rightarrow> string \<Rightarrow> nat option" where
  "hex_digits n [] = Some n"
| "hex_digits n (c # cs) =
     (case hex_val c of None \<Rightarrow> None | Some v \<Rightarrow> hex_digits (16 * n + v) cs)"

text \<open>A field of an IPv6 address: one to four hexadecimal digits.\<close>

definition parse_group :: "string \<Rightarrow> ip option" where
  "parse_group s =
     (if s = [] \<or> 4 < length s then None
      else map_option (\<lambda>n. [of_nat (n div 256), of_nat (n mod 256)]) (hex_digits 0 s))"

text \<open>
  The colon-separated fields on one side of \<^verbatim>\<open>::\<close>.  The last field of the address may be a
  dotted IPv4 address (\<open>v4\<close> says that the fields parsed are the last ones).
\<close>

fun parse_groups :: "bool \<Rightarrow> string list \<Rightarrow> ip option" where
  "parse_groups v4 [] = Some []"
| "parse_groups v4 (f # fs) =
     (if v4 \<and> fs = [] \<and> CHR ''.'' \<in> set f then parse_ip4 f
      else (case parse_group f of None \<Rightarrow> None
            | Some b \<Rightarrow> map_option (\<lambda>r. b @ r) (parse_groups v4 fs)))"

text \<open>The text before and after the first \<^verbatim>\<open>::\<close>.\<close>

fun split_ellipsis :: "string \<Rightarrow> (string \<times> string) option" where
  "split_ellipsis (x # y # r) =
     (if x = CHR '':'' \<and> y = CHR '':'' then Some ([], r)
      else map_option (\<lambda>(a, b). (x # a, b)) (split_ellipsis (y # r)))"
| "split_ellipsis _ = None"

definition side_fields :: "string \<Rightarrow> string list" where
  "side_fields s = (if s = [] then [] else split_on CHR '':'' s)"

definition parse_ip6 :: "string \<Rightarrow> ip option" where
  "parse_ip6 s =
     (case split_ellipsis s of
        None \<Rightarrow> (case parse_groups True (split_on CHR '':'' s) of
                   None \<Rightarrow> None
                 | Some b \<Rightarrow> if length b = 16 then Some b else None)
      | Some (l, r) \<Rightarrow>
          (case (parse_groups False (side_fields l), parse_groups True (side_fields r)) of
             (Some a, Some b) \<Rightarrow>
               if length a + length b \<le> 14
               then Some (a @ replicate (16 - length a - length b) 0 @ b) else None
           | _ \<Rightarrow> None))"

text \<open>
  \<^verbatim>\<open>netip.ParseAddr\<close> restricted to addresses without a zone: the first of \<^verbatim>\<open>.\<close>, \<^verbatim>\<open>:\<close>
  and \<^verbatim>\<open>%\<close> in the text chooses the parser; \<^verbatim>\<open>net.ParseIP\<close> and \<^verbatim>\<open>net.ParseCIDR\<close> refuse an
  address with a zone.  An IPv4 address is 4 bytes long here.
\<close>

definition parse_addr :: "string \<Rightarrow> ip option" where
  "parse_addr s =
     (case dropWhile (\<lambda>c. c \<noteq> CHR ''.'' \<and> c \<noteq> CHR '':'' \<and> c \<noteq> CHR ''%'') s of
        c # _ \<Rightarrow> if c = CHR ''.'' then parse_ip4 s
                 else if c = CHR '':'' \<and> CHR ''%'' \<notin> set s then parse_ip6 s else None
      | [] \<Rightarrow> None)"

text \<open>\<^verbatim>\<open>net.ParseIP\<close>: always the 16-byte form.\<close>

definition parse_ip :: "string \<Rightarrow> ip option" where
  "parse_ip s = Option.bind (parse_addr s) to16"

definition parse_dec :: "string \<Rightarrow> nat option" where
  "parse_dec s = (if s \<noteq> [] \<and> list_all is_digit s then Some (dec_value s) else None)"

text \<open>\<^verbatim>\<open>net.ParseCIDR\<close>: the address and the network it lies in.\<close>

definition parse_cidr :: "string \<Rightarrow> (ip \<times> ipnet) option" where
  "parse_cidr s =
     (let addr = takeWhile (\<lambda>c. c \<noteq> CHR ''/'') s;
          rest = dropWhile (\<lambda>c. c \<noteq> CHR ''/'') s
      in case rest of [] \<Rightarrow> None
         | _ # m \<Rightarrow>
           (case (parse_addr addr, parse_dec m) of
              (Some a, Some n) \<Rightarrow>
                if n \<le> 8 * length a
                then (let mk = cidr_mask (int n) (8 * int (length a)); a16 = the (to16 a)
                      in Some (a16, \<lparr>net_ip = ip_mask a16 mk, net_mask = mk\<rparr>))
                else None
            | _ \<Rightarrow> None))"

end
