(* ===== verification/Go_Net_Facts.thy ===== *)
theory Go_Net_Facts
  imports Go_Net
begin

text \<open>
  What the components use of the address arithmetic: a prefix mask has the size it was made
  with, a 4-byte mask is the 32-bit number with its leading ones set, printing and parsing of
  addresses and prefixes are inverse.  The bundle \<open>net_eval\<close> evaluates closed terms.
\<close>

named_theorems net_eval \<open>evaluation of addresses, masks and prefixes on closed terms\<close>

section \<open>Evaluation\<close>

lemma mask_bytes_4 [net_eval]:
  "mask_bytes 4 n = mask_bytes (Suc (Suc (Suc (Suc 0)))) n"
  by (simp add: numeral_eq_Suc)

lemma mask_bytes_16 [net_eval]:
  "mask_bytes 16 n = mask_bytes (Suc (Suc (Suc (Suc (Suc (Suc (Suc (Suc (Suc (Suc (Suc (Suc
     (Suc (Suc (Suc (Suc 0)))))))))))))))) n"
  by (simp add: numeral_eq_Suc)

lemma byte_wrap [net_eval]: "(- 256 :: byte) = 0"
  by simp

lemma replicate_12 [net_eval]: "replicate 12 x = [x, x, x, x, x, x, x, x, x, x, x, x]"
  by (simp add: numeral_eq_Suc)

lemma dec_string_less [net_eval]: "n < 10 \<Longrightarrow> dec_string n = [digit_char n]"
  by (subst dec_string.simps) simp

lemma dec_string_ge [net_eval]:
  "10 \<le> n \<Longrightarrow> dec_string n = dec_string (n div 10) @ [digit_char (n mod 10)]"
  by (subst dec_string.simps) simp

lemma hex_string_less [net_eval]: "n < 16 \<Longrightarrow> hex_string n = [digit_char n]"
  by (subst hex_string.simps) simp

lemma hex_string_ge [net_eval]:
  "16 \<le> n \<Longrightarrow> hex_string n = hex_string (n div 16) @ [digit_char (n mod 16)]"
  by (subst hex_string.simps) simp

lemmas [net_eval] =
  parse_cidr_def parse_addr_def parse_ip_def parse_ip4_def parse_ip6_def parse_octet_def
  parse_dec_def parse_group_def side_fields_def hex_val_def is_digit_def less_eq_char_def
  dec_value_def digit_val_def digit_char_def to4_def to16_def v4_in_v6_prefix_def ipv4_def
  cidr_mask_def mask_size_def leading_ones8_def ip_mask_def network_number_and_mask_def
  net_contains_def ip_string_def ip4_string_def ip6_string_def byte_string_def hex2_def
  zero_run_def mask_string_def ipnet_string_def int_string_def ip_equal_def Let_def

section \<open>Masks\<close>

lemma less_8_cases:
  "(n::nat) < 8 \<Longrightarrow> n = 0 \<or> n = 1 \<or> n = 2 \<or> n = 3 \<or> n = 4 \<or> n = 5 \<or> n = 6 \<or> n = 7"
  by auto

lemma edge_byte:
  assumes "n < 8"
  shows "NOT (drop_bit n 0xff) \<noteq> (0xff :: 8 word)"
    and "leading_ones8 (NOT (drop_bit n 0xff)) = n"
    and "push_bit n (NOT (drop_bit n 0xff)) = (0 :: 8 word)"
  using less_8_cases [OF assms] by (elim disjE; simp add: leading_ones8_def)+

lemma mask_bytes_length [simp]: "length (mask_bytes l n) = l"
  by (induction l n rule: mask_bytes.induct) auto

lemma mask_bytes_0: "mask_bytes l 0 = replicate l 0"
  by (induction l) auto

lemma simple_mask_length_mask_bytes:
  "n \<le> 8 * l \<Longrightarrow> simple_mask_length (mask_bytes l n) = int n"
proof (induction l n rule: mask_bytes.induct)
  case (2 l n)
  show ?case
  proof (cases "8 \<le> n")
    case True
    with 2 show ?thesis by (simp add: Let_def)
  next
    case False
    then have "n < 8" by simp
    with False show ?thesis by (simp add: mask_bytes_0 edge_byte)
  qed
qed simp

lemma cidr_mask_length:
  "bits = 32 \<or> bits = 128 \<Longrightarrow> 0 \<le> n \<Longrightarrow> n \<le> bits \<Longrightarrow> length (cidr_mask n bits) = nat (bits div 8)"
  by (auto simp: cidr_mask_def)

lemma mask_size_cidr_mask:
  "bits = 32 \<or> bits = 128 \<Longrightarrow> 0 \<le> n \<Longrightarrow> n \<le> bits \<Longrightarrow> mask_size (cidr_mask n bits) = (n, bits)"
  by (auto simp: cidr_mask_def mask_size_def simple_mask_length_mask_bytes Let_def)

lemma simple_mask_length_bounds:
  "- 1 \<le> simple_mask_length m \<and> simple_mask_length m \<le> 8 * int (length m)"
proof (induction m)
  case (Cons v m)
  have "leading_ones8 v \<le> 8" by (simp add: leading_ones8_def)
  with Cons show ?case by (auto simp: Let_def)
qed simp

lemma mask_size_bounds: "mask_size m = (n, bits) \<Longrightarrow> 0 \<le> n \<and> n \<le> bits"
  using simple_mask_length_bounds [of m] by (auto simp: mask_size_def Let_def split: if_splits)

section \<open>Four bytes as a 32-bit number\<close>

definition be32 :: "ip \<Rightarrow> 32 word" where
  "be32 a = push_bit 24 (ucast (a ! 0)) OR push_bit 16 (ucast (a ! 1)) OR
            push_bit 8 (ucast (a ! 2)) OR ucast (a ! 3)"

definition be32_bytes :: "32 word \<Rightarrow> ip" where
  "be32_bytes w = [ucast (drop_bit 24 w), ucast (drop_bit 16 w), ucast (drop_bit 8 w), ucast w]"

lemma bit_be32:
  "n < 32 \<Longrightarrow> bit (be32 [a, b, c, d]) n =
     (if n < 8 then bit d n else if n < 16 then bit c (n - 8)
      else if n < 24 then bit b (n - 16) else bit a (n - 24))"
  by (auto simp: be32_def bit_simps dest: bit_imp_le_length)

lemma be32_bytes_length [simp]: "length (be32_bytes w) = 4"
  by (simp add: be32_bytes_def)

lemma be32_bytes_inverse [simp]: "be32 (be32_bytes w) = w"
  by (rule bit_word_eqI) (auto simp: be32_bytes_def bit_be32 bit_simps)

lemma bytes_be32_inverse: "be32_bytes (be32 [a, b, c, d]) = [a, b, c, d]"
  unfolding be32_bytes_def
  by (auto intro!: bit_word_eqI simp: bit_simps bit_be32 unsigned_ucast_eq)

lemma be32_inject:
  assumes "length a = 4" and "length b = 4"
  shows "be32 a = be32 b \<longleftrightarrow> a = b"
proof -
  obtain a0 a1 a2 a3 b0 b1 b2 b3 where "a = [a0, a1, a2, a3]" "b = [b0, b1, b2, b3]"
    using assms by (metis list4_cases)
  then show ?thesis by (metis bytes_be32_inverse)
qed

lemma be32_map2_and:
  assumes "length a = 4" and "length b = 4"
  shows "be32 (map2 (AND) a b) = be32 a AND be32 b"
proof -
  obtain a0 a1 a2 a3 b0 b1 b2 b3 where "a = [a0, a1, a2, a3]" "b = [b0, b1, b2, b3]"
    using assms by (metis list4_cases)
  then show ?thesis
    by (auto intro!: bit_word_eqI simp: bit_be32 bit_simps)
qed

lemma be32_cidr_mask:
  assumes "n \<le> 32"
  shows "be32 (cidr_mask (int n) 32) = NOT (mask (32 - n))"
proof -
  have "n < 33" using assms by simp
  then have "n \<in> {0, 1, 2, 3, 4, 5, 6, 7, 8, 9, 10, 11, 12, 13, 14, 15, 16, 17, 18, 19, 20, 21,
      22, 23, 24, 25, 26, 27, 28, 29, 30, 31, 32}"
    by (simp add: numeral_eq_Suc less_Suc_eq)
  then show ?thesis
    by (elim insertE emptyE) (simp_all add: net_eval be32_def mask_eq_exp_minus_1)
qed

lemma mask_bytes_and:
  "p \<le> q \<Longrightarrow> map2 (AND) (mask_bytes l q) (mask_bytes l p) = mask_bytes l p"
proof (induction l arbitrary: p q)
  case (Suc l)
  have ff: "(0xff :: 8 word) = mask 8" by (simp add: mask_eq_exp_minus_1)
  have byte: "NOT (drop_bit q 0xff) AND NOT (drop_bit p 0xff) = (NOT (drop_bit p 0xff) :: 8 word)"
    if "p \<le> q" for p q :: nat
    using that unfolding ff by (auto intro!: bit_word_eqI simp: bit_simps)
  have all: "0xff AND x = x" "x AND 0xff = x" for x :: byte
    unfolding ff by (auto intro!: bit_word_eqI simp: bit_simps)
  have "mask_bytes l 0 = map2 (AND) (mask_bytes l k) (mask_bytes l 0)" for k
    using Suc.IH [of 0 k] by simp
  with Suc byte show ?case
    by (cases "8 \<le> p"; cases "8 \<le> q") (auto simp: all not_le)
qed simp

lemma map2_and_length: "length (map2 (AND) a b) = min (length a) (length b)"
  by simp

lemma map2_and_assoc:
  fixes a b c :: ip
  shows "map2 (AND) (map2 (AND) a b) c = map2 (AND) a (map2 (AND) b c)"
proof (induction a arbitrary: b c)
  case (Cons x a)
  then show ?case by (cases b; cases c) (auto simp: ac_simps)
qed simp

lemma map2_and_idem:
  fixes a m :: ip
  shows "map2 (AND) (map2 (AND) a m) m = map2 (AND) a m"
proof (induction a arbitrary: m)
  case (Cons x a)
  then show ?case by (cases m) (auto simp: ac_simps)
qed simp

section \<open>Printing and parsing IPv4\<close>

lemma set_join_with: "set (join_with sep xs) \<subseteq> set sep \<union> (\<Union>x \<in> set xs. set x)"
  by (induction sep xs rule: join_with.induct) auto

lemma byte_string_chars: "\<not> is_digit c \<Longrightarrow> c \<notin> set (byte_string b)"
  by (simp add: byte_string_def dec_string_not_digit)

lemma special_not_digit [simp]:
  "\<not> is_digit CHR ''.''" "\<not> is_digit CHR '':''" "\<not> is_digit CHR ''%''" "\<not> is_digit CHR ''/''"
  by (simp_all add: is_digit_def less_eq_char_def)

lemma dec_string_head_zero:
  "hd (dec_string n) = CHR ''0'' \<Longrightarrow> length (dec_string n) = 1"
  by (simp add: dec_string_leading_zero)

lemma parse_octet_byte_string [simp]: "parse_octet (byte_string b) = Some b"
proof -
  have "unat b \<le> 255"
    using unsigned_less [of b, where ?'a = nat] by simp
  then show ?thesis
    using dec_string_digits [of "unat b"] dec_string_head_zero [of "unat b"]
    by (simp add: parse_octet_def byte_string_def)
qed

lemma parse_ip4_string: "length a = 4 \<Longrightarrow> parse_ip4 (ip4_string a) = Some a"
proof -
  assume "length a = 4"
  then obtain w x y z where a: "a = [w, x, y, z]" using list4_cases by blast
  have "split_on CHR ''.'' (ip4_string a) = map byte_string a"
    unfolding ip4_string_def
    by (rule split_on_join) (auto simp: a byte_string_chars)
  then show ?thesis by (simp add: parse_ip4_def a)
qed

lemma ip4_string_chars: "c \<in> set (ip4_string a) \<Longrightarrow> is_digit c \<or> c = CHR ''.''"
  using set_join_with [of "''.''" "map byte_string a"] byte_string_chars
  by (fastforce simp: ip4_string_def)

lemma parse_addr_ip4_string: "length a = 4 \<Longrightarrow> parse_addr (ip4_string a) = Some a"
proof -
  assume len: "length a = 4"
  then obtain w x y z where a: "a = [w, x, y, z]" using list4_cases by blast
  let ?P = "\<lambda>c. c \<noteq> CHR ''.'' \<and> c \<noteq> CHR '':'' \<and> c \<noteq> CHR ''%''"
  obtain t where t: "ip4_string a = byte_string w @ CHR ''.'' # t"
    by (simp add: ip4_string_def a)
  have "dropWhile ?P (byte_string w @ CHR ''.'' # t) = CHR ''.'' # t"
    by (subst dropWhile_append2) (auto simp: byte_string_chars)
  then show ?thesis
    using parse_ip4_string [OF len] by (simp add: parse_addr_def t)
qed

lemma to16_4 [simp]: "length a = 4 \<Longrightarrow> to16 a = Some (v4_in_v6_prefix @ a)"
  by (simp add: to16_def)

lemma v4_prefix_length [simp]: "length v4_in_v6_prefix = 12"
  by (simp add: v4_in_v6_prefix_def)

lemma ip_mask_v4:
  "length a = 4 \<Longrightarrow> length m = 4 \<Longrightarrow> ip_mask (v4_in_v6_prefix @ a) m = map2 (AND) a m"
  by (simp add: ip_mask_def Let_def)

lemma ip_mask_4: "length a = 4 \<Longrightarrow> length m = 4 \<Longrightarrow> ip_mask a m = map2 (AND) a m"
  by (simp add: ip_mask_def Let_def)

lemma parse_cidr_string:
  assumes len: "length a = 4" and n: "n \<le> 32"
  shows "parse_cidr (ip4_string a @ CHR ''/'' # dec_string n) =
     Some (v4_in_v6_prefix @ a,
           \<lparr>net_ip = map2 (AND) a (cidr_mask (int n) 32), net_mask = cidr_mask (int n) 32\<rparr>)"
proof -
  have slash: "\<forall>c \<in> set (ip4_string a). c \<noteq> CHR ''/''"
    by (auto dest: ip4_string_chars)
  have mlen: "length (cidr_mask (int n) 32) = 4"
    using n by (simp add: cidr_mask_length)
  have "takeWhile (\<lambda>c. c \<noteq> CHR ''/'') (ip4_string a @ CHR ''/'' # dec_string n) = ip4_string a"
    and "dropWhile (\<lambda>c. c \<noteq> CHR ''/'') (ip4_string a @ CHR ''/'' # dec_string n)
         = CHR ''/'' # dec_string n"
    using slash by (simp_all add: takeWhile_append2 dropWhile_append2)
  then show ?thesis
    using len n mlen dec_string_digits [of n]
    by (simp add: parse_cidr_def parse_addr_ip4_string parse_dec_def Let_def ip_mask_v4)
qed

section \<open>Aligned 32-bit blocks\<close>

text \<open>
  A network with a 4-byte address \<open>b\<close> and a prefix of length \<open>q\<close>, given by the number its
  address stands for.
\<close>

definition block :: "nat \<Rightarrow> nat \<Rightarrow> ipnet" where
  "block b q = \<lparr>net_ip = be32_bytes (of_nat b), net_mask = cidr_mask (int q) 32\<rparr>"

definition block_size :: "nat \<Rightarrow> nat" where
  "block_size q = 2 ^ (32 - q)"

lemma block_size_pos [simp]: "0 < block_size q"
  by (simp add: block_size_def)

lemma block_size_split: "p \<le> q \<Longrightarrow> q \<le> 32 \<Longrightarrow> block_size p = 2 ^ (q - p) * block_size q"
  by (simp add: block_size_def flip: power_add)

lemma aligned_and_mask:
  fixes b :: nat
  assumes "block_size q dvd b" and "q \<le> 32"
  shows "(of_nat b :: 32 word) AND NOT (mask (32 - q)) = of_nat b"
proof -
  obtain k where b: "b = 2 ^ (32 - q) * k"
    using assms(1) by (auto simp: block_size_def)
  have "(of_nat b :: 32 word) = push_bit (32 - q) (of_nat k)"
    by (simp add: b push_bit_eq_mult)
  then show ?thesis
    by (auto intro!: bit_word_eqI simp: bit_simps)
qed

lemma block_masked:
  assumes "block_size q dvd b" and "q \<le> 32"
  shows "map2 (AND) (be32_bytes (of_nat b)) (cidr_mask (int q) 32) = be32_bytes (of_nat b)"
proof -
  have len: "length (cidr_mask (int q) 32) = 4"
    using assms by (simp add: cidr_mask_length)
  have "be32 (map2 (AND) (be32_bytes (of_nat b)) (cidr_mask (int q) 32)) = of_nat b"
    using assms len by (simp add: be32_map2_and be32_cidr_mask aligned_and_mask)
  then show ?thesis
    using len by (subst be32_inject [symmetric]) simp_all
qed

section \<open>Hexadecimal digits\<close>

lemma hex2_length [simp]: "length (hex2 b) = 2"
  by (simp add: hex2_def)

lemma digit_char_inj:
  assumes "m < 16" and "n < 16"
  shows "digit_char m = digit_char n \<longleftrightarrow> m = n"
proof -
  have "distinct ''0123456789abcdef''" by simp
  with assms show ?thesis
    unfolding digit_char_def by (subst nth_eq_iff_index_eq) simp_all
qed

lemma byte_div_mod: "(a :: byte) = b \<longleftrightarrow> unat a div 16 = unat b div 16 \<and> unat a mod 16 = unat b mod 16"
  by (metis div_mult_mod_eq word_unat_eq_iff)

lemma hex2_inj: "hex2 a = hex2 b \<longleftrightarrow> a = b"
proof -
  have "unat x < 2 ^ LENGTH(8)" for x :: byte by (rule unsigned_less)
  then have "unat a div 16 < 16" "unat b div 16 < 16"
    by (simp_all add: less_mult_imp_div_less)
  then show ?thesis
    unfolding hex2_def byte_div_mod [of a b] by (simp add: digit_char_inj)
qed

end
