(* ===== verification/Net_Types.thy ===== *)
theory Net_Types
  imports Go_Net_Facts
begin

text \<open>
  \<^verbatim>\<open>pkg/network/types.go\<close>: the type \<^verbatim>\<open>CIDR\<close>, a named copy of \<^verbatim>\<open>net.IPNet\<close>, its methods,
  and the functions on lists of networks.  A method \<^verbatim>\<open>M\<close> of \<^verbatim>\<open>CIDR\<close> is \<open>CIDR_M\<close>.
\<close>

section \<open>Errors\<close>

text \<open>
  The errors of package \<^verbatim>\<open>network\<close>, one constructor per \<^verbatim>\<open>fmt.Errorf\<close> with the values it
  prints; a wrapped error is an argument.  \<open>Panic\<close> is a run-time panic of Go.
\<close>

datatype net_error =
    ParseCIDRError string
  | FailedToParseIP string
  | FailedToParseSubnet string
  | FailedToMapIP ip ipnet
  | InvalidNewPrefixLength int ipnet
  | OnlyIPv4Supported
  | OnlyIPv4SubnetMapping
  | OnlyIPv4Source string
  | ParseDestinationCIDR net_error
  | ParseSourceSubnet string net_error
  | SplitDestinationSubnet net_error
  | NotEnoughSpace string "string list"
  | MapSubnet string net_error
  | MapCIDRs net_error
  | ParseSourceCIDR string net_error
  | MapShootNetworks string net_error
  | Panic

text \<open>
  The errors of the other packages: \<open>Errorf\<close> with the format and the values printed,
  \<open>Wrapf\<close> for an error that wraps another one, \<open>NetError\<close> for one of package
  \<^verbatim>\<open>network\<close>, \<open>Foreign\<close> for an error of code outside the repository.
\<close>

datatype go_error =
    Errorf string "string list"
  | Wrapf string "string list" go_error
  | NetError net_error
  | Foreign string

definition net_result :: "net_error + 'a \<Rightarrow> go_error + 'a" where
  "net_result r = (case r of Inl e \<Rightarrow> Inl (NetError e) | Inr x \<Rightarrow> Inr x)"

lemma net_result_simps [simp]: "net_result (Inr x) = Inr x" "net_result (Inl e) = Inl (NetError e)"
  by (simp_all add: net_result_def)

section \<open>The type and its methods\<close>

type_synonym CIDR = ipnet

definition IPv4Family :: string where "IPv4Family = ''IPv4''"
definition IPv6Family :: string where "IPv6Family = ''IPv6''"

definition CIDR_Equal :: "CIDR \<Rightarrow> CIDR \<Rightarrow> bool" where
  "CIDR_Equal c other \<longleftrightarrow>
     ip_equal (net_ip c) (net_ip other) \<and> mask_string (net_mask c) = mask_string (net_mask other)"

text \<open>The receiver is returned, updated or not.\<close>

definition CIDR_UnmarshalText :: "CIDR \<Rightarrow> string \<Rightarrow> net_error + CIDR" where
  "CIDR_UnmarshalText c txt =
     (if txt = '''' then Inr c
      else case parse_cidr txt of None \<Rightarrow> Inl (ParseCIDRError txt) | Some (_, n) \<Rightarrow> Inr n)"

definition CIDR_String :: "CIDR \<Rightarrow> string" where
  "CIDR_String c =
     (if length (net_ip c) = 0 then ''''
      else (let (ones, _) = mask_size (net_mask c)
            in ip_string (net_ip c) @ ''/'' @ int_string ones))"

definition CIDR_ToIPNet :: "CIDR \<Rightarrow> ipnet" where
  "CIDR_ToIPNet c = c"

definition CIDR_IsIPv4 :: "CIDR \<Rightarrow> bool" where
  "CIDR_IsIPv4 c \<longleftrightarrow> to4 (net_ip c) \<noteq> None"

definition CIDR_CountHosts :: "CIDR \<Rightarrow> int" where
  "CIDR_CountHosts c =
     (let (ones, bits) = mask_size (net_mask c)
      in if ones < 0 \<or> bits \<le> 0 \<or> ones > bits then 0
         else (let hostBits = bits - ones; total = 2 ^ nat hostBits
               in if bits = 32 \<and> ones \<le> 30 then (if 2 \<le> total then total - 2 else 0)
                  else total))"

section \<open>Functions on networks\<close>

definition ParseIPNet :: "string \<Rightarrow> net_error + CIDR" where
  "ParseIPNet cidr =
     (case parse_cidr cidr of None \<Rightarrow> Inl (ParseCIDRError cidr) | Some (_, prefix) \<Rightarrow> Inr prefix)"

text \<open>The zero value \<^verbatim>\<open>CIDR{}\<close> that \<^verbatim>\<open>ParseIPNet\<close> returns beside an error.\<close>

definition zero_CIDR :: CIDR where
  "zero_CIDR = \<lparr>net_ip = [], net_mask = []\<rparr>"

definition ParseIPNetIgnoreError :: "string \<Rightarrow> CIDR" where
  "ParseIPNetIgnoreError cidr = (case ParseIPNet cidr of Inl _ \<Rightarrow> zero_CIDR | Inr c \<Rightarrow> c)"

fun GetByIPFamily :: "CIDR list \<Rightarrow> string \<Rightarrow> CIDR list" where
  "GetByIPFamily [] fam = []"
| "GetByIPFamily (nw # cidrs) fam =
     (if fam = IPv4Family then
        (if to4 (net_ip nw) \<noteq> None then nw # GetByIPFamily cidrs fam else GetByIPFamily cidrs fam)
      else if fam = IPv6Family then
        (if to4 (net_ip nw) = None then nw # GetByIPFamily cidrs fam else GetByIPFamily cidrs fam)
      else GetByIPFamily cidrs fam)"

definition Overlap :: "CIDR \<Rightarrow> CIDR \<Rightarrow> bool" where
  "Overlap a b \<longleftrightarrow>
     net_contains (CIDR_ToIPNet a) (net_ip b) \<or> net_contains (CIDR_ToIPNet b) (net_ip a)"

fun OverLapAny :: "CIDR \<Rightarrow> CIDR list \<Rightarrow> bool" where
  "OverLapAny nw [] = False"
| "OverLapAny nw (otherNw # otherNws) = (Overlap nw otherNw \<or> OverLapAny nw otherNws)"

section \<open>Facts\<close>

lemma CIDR_IsIPv4_iff: "CIDR_IsIPv4 c \<longleftrightarrow> (\<exists>a. to4 (net_ip c) = Some a)"
  by (auto simp: CIDR_IsIPv4_def)

lemma IPv4_not_IPv6 [simp]: "IPv4Family \<noteq> IPv6Family"
  by (simp add: IPv4Family_def IPv6Family_def)

lemma GetByIPFamily_4: "GetByIPFamily cidrs IPv4Family = filter CIDR_IsIPv4 cidrs"
  by (induction cidrs IPv4Family rule: GetByIPFamily.induct)
    (auto simp: CIDR_IsIPv4_def)

lemma GetByIPFamily_6: "GetByIPFamily cidrs IPv6Family = filter (\<lambda>c. \<not> CIDR_IsIPv4 c) cidrs"
  by (induction cidrs IPv6Family rule: GetByIPFamily.induct)
    (auto simp: CIDR_IsIPv4_def IPv4_not_IPv6 [symmetric] simp del: IPv4_not_IPv6)

lemma OverLapAny_iff: "OverLapAny nw ns \<longleftrightarrow> (\<exists>n \<in> set ns. Overlap nw n)"
  by (induction nw ns rule: OverLapAny.induct) auto

lemma Overlap_sym: "Overlap a b = Overlap b a"
  by (auto simp: Overlap_def)

text \<open>
  A network with a well-formed mask: what \<^const>\<open>network_number_and_mask\<close> reads off it is a
  non-empty address and a prefix mask of the same length.  Everything \<^const>\<open>parse_cidr\<close>
  returns is one.
\<close>

definition prefix_net :: "ipnet \<Rightarrow> bool" where
  "prefix_net n \<longleftrightarrow>
     (\<exists>a p. network_number_and_mask n = (a, mask_bytes (length a) p) \<and> a \<noteq> [])"

text \<open>The address as \<^const>\<open>net_contains\<close> compares it.\<close>

definition norm_ip :: "ip \<Rightarrow> ip" where
  "norm_ip a = (case to4 a of Some b \<Rightarrow> b | None \<Rightarrow> a)"

lemma net_contains_eq:
  assumes "network_number_and_mask n = (a, m)"
  shows "net_contains n x \<longleftrightarrow>
     length (norm_ip x) = length a \<and> map2 (AND) a m = map2 (AND) (norm_ip x) m"
  using assms by (simp add: net_contains_def norm_ip_def Let_def)

lemma network_number_ip:
  "network_number_and_mask n = (a, m) \<Longrightarrow> a \<noteq> [] \<Longrightarrow> a = norm_ip (net_ip n)"
  by (auto simp: network_number_and_mask_def norm_ip_def Let_def split: if_splits option.splits)

lemma mask_bytes_drop:
  "k \<le> l \<Longrightarrow> drop k (mask_bytes l n) = mask_bytes (l - k) (n - 8 * k)"
proof (induction l n arbitrary: k rule: mask_bytes.induct)
  case (2 l n)
  then show ?case
    by (cases k) (auto simp: mask_bytes_0 algebra_simps)
qed simp

lemma norm_ip_length: "length x = 16 \<Longrightarrow> length (norm_ip x) = 4 \<or> norm_ip x = x"
  by (auto simp: norm_ip_def dest: to4_length split: option.splits)

lemma prefix_netI:
  assumes "length (net_ip n) = l" and "l = 4 \<or> l = 16" and "net_mask n = mask_bytes l p"
  shows "prefix_net n"
proof -
  consider (v4) "l = 4" | (mapped) a where "l = 16" "to4 (net_ip n) = Some a"
    | (v6) "l = 16" "to4 (net_ip n) = None"
    using assms(2) by (cases "to4 (net_ip n)") auto
  then show ?thesis
  proof cases
    case v4
    with assms show ?thesis
      by (auto simp: prefix_net_def network_number_and_mask_def Let_def)
  next
    case mapped
    then have "length a = 4" by (simp add: to4_length)
    with mapped assms have "network_number_and_mask n = (a, mask_bytes 4 (p - 96))"
      by (simp add: network_number_and_mask_def Let_def mask_bytes_drop)
    with \<open>length a = 4\<close> show ?thesis
      by (auto simp: prefix_net_def)
  next
    case v6
    with assms show ?thesis
      by (auto simp: prefix_net_def network_number_and_mask_def Let_def)
  qed
qed

lemma ip_mask_same: "length a = length m \<Longrightarrow> length m = 16 \<Longrightarrow> ip_mask a m = map2 (AND) a m"
  by (simp add: ip_mask_def Let_def)

lemma parse_octets_ip4: "parse_ip4 s = Some a \<Longrightarrow> length a = 4"
  by (auto simp: parse_ip4_def split: list.splits option.splits)

lemma parse_ip6_length: "parse_ip6 s = Some a \<Longrightarrow> length a = 16"
  by (auto simp: parse_ip6_def split: option.splits if_splits prod.splits)

lemma parse_addr_length: "parse_addr s = Some a \<Longrightarrow> length a = 4 \<or> length a = 16"
  by (auto simp: parse_addr_def parse_octets_ip4 parse_ip6_length split: list.splits if_splits)

text \<open>The shape of every network that parsing returns.\<close>

lemma parse_cidr_shape:
  assumes "parse_cidr s = Some (x, n)"
  obtains a p where "length a = 4 \<or> length a = 16" and "p \<le> 8 * length a"
    and "net_ip n = map2 (AND) a (mask_bytes (length a) p)"
    and "net_mask n = mask_bytes (length a) p"
proof -
  from assms obtain a p where a: "length a = 4 \<or> length a = 16" and p: "p \<le> 8 * length a"
    and n: "n = \<lparr>net_ip = ip_mask (the (to16 a)) (cidr_mask (int p) (8 * int (length a))),
                 net_mask = cidr_mask (int p) (8 * int (length a))\<rparr>"
    by (auto simp: parse_cidr_def Let_def dest: parse_addr_length
        split: list.splits option.splits if_splits)
  have m: "cidr_mask (int p) (8 * int (length a)) = mask_bytes (length a) p"
    using a p by (auto simp: cidr_mask_def)
  have "ip_mask (the (to16 a)) (mask_bytes (length a) p) = map2 (AND) a (mask_bytes (length a) p)"
    using a by (auto simp: ip_mask_v4 ip_mask_same to16_def)
  with a p n m show thesis by (intro that [of a p]) simp_all
qed

lemma parse_cidr_prefix_net: "parse_cidr s = Some (x, n) \<Longrightarrow> prefix_net n"
  by (erule parse_cidr_shape) (rule prefix_netI [of n], auto)

lemma ParseIPNet_prefix_net: "ParseIPNet s = Inr c \<Longrightarrow> prefix_net c"
  by (auto simp: ParseIPNet_def parse_cidr_prefix_net split: option.splits)

text \<open>Of two prefixes that share an address, the longer one's network address lies in the other.\<close>

lemma shared_address_nested:
  assumes a: "network_number_and_mask n = (a, mask_bytes l p)" "length a = l" "a \<noteq> []"
    and b: "network_number_and_mask k = (b, mask_bytes l q)" "length b = l" "b \<noteq> []"
    and x: "net_contains n x" "net_contains k x" and pq: "p \<le> q"
  shows "net_contains n (net_ip k)"
proof -
  let ?mp = "mask_bytes l p" and ?mq = "mask_bytes l q"
  have eqs: "map2 (AND) a ?mp = map2 (AND) (norm_ip x) ?mp"
    "map2 (AND) b ?mq = map2 (AND) (norm_ip x) ?mq"
    using x by (simp_all add: net_contains_eq [OF a(1)] net_contains_eq [OF b(1)])
  have "map2 (AND) b ?mp = map2 (AND) (map2 (AND) b ?mq) ?mp"
    by (simp add: map2_and_assoc mask_bytes_and [OF pq])
  also have "\<dots> = map2 (AND) (norm_ip x) ?mp"
    by (simp add: eqs map2_and_assoc mask_bytes_and [OF pq])
  finally have "map2 (AND) a ?mp = map2 (AND) b ?mp" by (simp add: eqs)
  moreover have "b = norm_ip (net_ip k)"
    using b by (simp add: network_number_ip)
  ultimately show ?thesis
    using a b by (simp add: net_contains_eq [OF a(1)])
qed

lemma net_contains_own:
  "network_number_and_mask n = (a, m) \<Longrightarrow> a \<noteq> [] \<Longrightarrow> net_contains n (net_ip n)"
  using network_number_ip [of n a m] by (simp add: net_contains_eq)

lemma Overlap_shared:
  assumes "prefix_net a" and "prefix_net b"
  shows "Overlap a b \<longleftrightarrow> (\<exists>x. net_contains a x \<and> net_contains b x)"
proof
  obtain na p nb q where a: "network_number_and_mask a = (na, mask_bytes (length na) p)" "na \<noteq> []"
    and b: "network_number_and_mask b = (nb, mask_bytes (length nb) q)" "nb \<noteq> []"
    using assms by (auto simp: prefix_net_def)
  show "\<exists>x. net_contains a x \<and> net_contains b x" if "Overlap a b"
    using that net_contains_own [OF a] net_contains_own [OF b]
    by (auto simp: Overlap_def CIDR_ToIPNet_def)
  show "Overlap a b" if ex: "\<exists>x. net_contains a x \<and> net_contains b x"
  proof -
    obtain x where x: "net_contains a x" "net_contains b x" using ex by blast
    then have len: "length nb = length na"
      by (simp add: net_contains_eq [OF a(1)] net_contains_eq [OF b(1)])
    then show ?thesis
      using a b x shared_address_nested [of a na "length na" p b nb q x]
        shared_address_nested [of b nb "length na" q a na p x]
      by (cases "p \<le> q") (auto simp: Overlap_def CIDR_ToIPNet_def)
  qed
qed

text \<open>Printing and parsing a network given by an aligned number.\<close>

lemma CIDR_String_block:
  assumes "q \<le> 32"
  shows "CIDR_String (block b q) = ip4_string (be32_bytes (of_nat b)) @ CHR ''/'' # dec_string q"
  using assms
  by (simp add: CIDR_String_def block_def mask_size_cidr_mask ip_string_def int_string_def
      flip: length_0_conv)

lemma ipnet_string_block:
  assumes "q \<le> 32"
  shows "ipnet_string (block b q) = ip4_string (be32_bytes (of_nat b)) @ CHR ''/'' # dec_string q"
proof -
  have m: "cidr_mask (int q) 32 = mask_bytes 4 q"
    using assms by (simp add: cidr_mask_def)
  then have "mask_bytes 4 q \<noteq> []" by (simp flip: length_0_conv)
  with m assms show ?thesis
    by (simp add: ipnet_string_def network_number_and_mask_def block_def Let_def
        simple_mask_length_mask_bytes ip_string_def int_string_def flip: length_0_conv)
qed

lemma ParseIPNet_block:
  assumes "block_size q dvd b" and "q \<le> 32"
  shows "ParseIPNet (ip4_string (be32_bytes (of_nat b)) @ CHR ''/'' # dec_string q) = Inr (block b q)"
  using assms by (simp add: ParseIPNet_def parse_cidr_string block_masked block_def)

lemma parse_cidr_string_block:
  assumes "block_size q dvd b" and "q \<le> 32"
  shows "ParseIPNet (CIDR_String (block b q)) = Inr (block b q)"
  using assms by (simp add: CIDR_String_block ParseIPNet_block)

end
