(* ===== verification/Netmap.thy ===== *)
theory Netmap
  imports Net_Types "HOL-Library.AList"
begin

text \<open>
  \<^verbatim>\<open>pkg/network/netmap.go\<close>: the mapping of addresses and of lists of IPv4 networks into a
  reserved range, with which the double NAT of the VPN avoids overlapping networks.

  The Go maps that are filled here are association lists (\<open>AList.update\<close>); the order in which
  \<^verbatim>\<open>range\<close> visits a map is unspecified in Go, so it is a parameter \<open>visit\<close> of the definitions
  that range over one, with the contract \<open>go_range\<close>.  The sorting function is a parameter too,
  with the contract \<^const>\<open>go_sort\<close>.
\<close>

section \<open>Ranging over a map\<close>

locale go_range =
  fixes visit :: "('k \<times> 'v) list \<Rightarrow> ('k \<times> 'v) list"
  assumes visit_perm: "mset (visit m) = mset m"
begin

lemma visit_set: "set (visit m) = set m"
  using visit_perm by (metis set_mset_mset)

lemma visit_length: "length (visit m) = length m"
  using visit_perm by (metis size_mset)

end

interpretation insertion_order: go_range "\<lambda>m. m"
  by unfold_locales simp

interpretation reverse_order: go_range rev
  by unfold_locales simp

section \<open>Definitions\<close>

text \<open>
  \<^verbatim>\<open>netmapIP\<close>: the host bits of \<open>a\<close> below the network bits of \<open>subnet\<close>.  The loop indexes the
  mask with the positions of a 4-byte address, a shorter mask panics.
\<close>

definition netmapIP :: "ip \<Rightarrow> ipnet \<Rightarrow> net_error + ip" where
  "netmapIP a subnet =
     (case (to4 a, to4 (net_ip subnet)) of
        (Some v4, Some subnetBase) \<Rightarrow>
          if length (net_mask subnet) < length v4 then Inl Panic
          else Inr (map (\<lambda>i. (v4 ! i AND NOT (net_mask subnet ! i)) OR subnetBase ! i)
                     [0 ..< length v4])
      | _ \<Rightarrow> Inl (FailedToMapIP a subnet))"

definition NetmapIP :: "string \<Rightarrow> string \<Rightarrow> net_error + string" where
  "NetmapIP a subnet =
     (case parse_ip a of
        None \<Rightarrow> Inl (FailedToParseIP a)
      | Some srcIp \<Rightarrow>
          (case parse_cidr subnet of
             None \<Rightarrow> Inl (FailedToParseSubnet subnet)
           | Some (_, subnetMask) \<Rightarrow>
               bind_r (netmapIP srcIp subnetMask) (\<lambda>mappedIP. Inr (ip_string mappedIP))))"

text \<open>
  The subnet number \<open>i\<close> of the loop in \<^verbatim>\<open>subnetSplit\<close>; all arithmetic is on \<^verbatim>\<open>uint32\<close>.
\<close>

definition subnet_at :: "32 word \<Rightarrow> 32 word \<Rightarrow> int \<Rightarrow> int \<Rightarrow> 32 word \<Rightarrow> ipnet" where
  "subnet_at baseInt incr newPrefixLen bits countSubnets =
     (let ipInt = baseInt + countSubnets * incr;
          a = ipv4 (ucast (drop_bit 24 ipInt AND 0xff)) (ucast (drop_bit 16 ipInt AND 0xff))
                (ucast (drop_bit 8 ipInt AND 0xff)) (ucast (ipInt AND 0xff));
          m = cidr_mask newPrefixLen bits
      in \<lparr>net_ip = ip_mask a m, net_mask = m\<rparr>)"

text \<open>
  A shift by a negative count panics in Go; \<open>1 << n\<close> is 0 in a \<^verbatim>\<open>uint32\<close> for \<open>n\<close> at least 32.
\<close>

definition subnetSplit :: "ipnet \<Rightarrow> int \<Rightarrow> net_error + ipnet list" where
  "subnetSplit parent newPrefixLen =
     (let (parentPrefixLen, bits) = mask_size (net_mask parent)
      in if newPrefixLen < parentPrefixLen \<or> newPrefixLen > bits
         then Inl (InvalidNewPrefixLength newPrefixLen parent)
         else (let numSubnets = push_bit (nat (newPrefixLen - parentPrefixLen)) (1 :: 32 word)
               in case to4 (ip_mask (net_ip parent) (net_mask parent)) of
                    None \<Rightarrow> Inl OnlyIPv4Supported
                  | Some base \<Rightarrow>
                      if 32 - newPrefixLen < 0 then Inl Panic
                      else (let baseInt = be32 base;
                                incr = push_bit (nat (32 - newPrefixLen)) 1
                            in Inr (map (\<lambda>i. subnet_at baseInt incr newPrefixLen bits (of_nat i))
                                      [0 ..< unat numSubnets]))))"

definition netmapSubnet :: "ipnet \<Rightarrow> ipnet \<Rightarrow> net_error + ipnet" where
  "netmapSubnet srcNet dstNet =
     (if to4 (net_ip srcNet) = None \<or> to4 (net_ip dstNet) = None then Inl OnlyIPv4SubnetMapping
      else bind_r (netmapIP (net_ip srcNet) dstNet)
             (\<lambda>mappedIP. Inr \<lparr>net_ip = mappedIP, net_mask = net_mask dstNet\<rparr>))"

record srcInfo =
  raw :: string
  src_ipnet :: ipnet
  prefix :: int

definition parse_src :: "string \<Rightarrow> net_error + srcInfo" where
  "parse_src src =
     (case ParseIPNet src of
        Inl e \<Rightarrow> Inl (ParseSourceSubnet src e)
      | Inr n \<Rightarrow>
          (let (ones, bits) = mask_size (net_mask n)
           in if bits \<noteq> 32 then Inl (OnlyIPv4Source src)
              else Inr \<lparr>raw = src, src_ipnet = CIDR_ToIPNet n, prefix = ones\<rparr>))"

text \<open>
  The recursive closure \<^verbatim>\<open>mapSubnetsRec\<close>; \<open>dstCIDR\<close> and \<open>srcCIDRs\<close> are the variables it
  captures for its error message.
\<close>

definition split_dsts :: "ipnet list \<Rightarrow> int \<Rightarrow> net_error + ipnet list" where
  "split_dsts dstSubnets p =
     (case map_r (\<lambda>dst. subnetSplit dst p) dstSubnets of
        Inl e \<Rightarrow> Inl (SplitDestinationSubnet e)
      | Inr subnets \<Rightarrow> Inr (concat subnets))"

fun mapSubnetsRec ::
  "string \<Rightarrow> string list \<Rightarrow> srcInfo list \<Rightarrow> ipnet list \<Rightarrow> (string \<times> string) list
   \<Rightarrow> net_error + (string \<times> string) list"
where
  "mapSubnetsRec dstCIDR srcCIDRs [] dstSubnets result = Inr result"
| "mapSubnetsRec dstCIDR srcCIDRs (src # srcs) dstSubnets result =
     bind_r (split_dsts dstSubnets (prefix src))
       (\<lambda>candidateSubnets.
          case candidateSubnets of
            [] \<Rightarrow> Inl (NotEnoughSpace dstCIDR srcCIDRs)
          | c # cs \<Rightarrow>
              (case netmapSubnet (src_ipnet src) c of
                 Inl e \<Rightarrow> Inl (MapSubnet (raw src) e)
               | Inr mapped \<Rightarrow>
                   mapSubnetsRec dstCIDR srcCIDRs srcs cs
                     (AList.update (raw src) (ipnet_string mapped) result)))"

definition NetmapSubnets ::
  "((srcInfo \<Rightarrow> int) \<Rightarrow> srcInfo list \<Rightarrow> srcInfo list) \<Rightarrow> string list \<Rightarrow> string
   \<Rightarrow> net_error + (string \<times> string) list"
where
  "NetmapSubnets sorter srcCIDRs dstCIDR =
     (case ParseIPNet dstCIDR of
        Inl e \<Rightarrow> Inl (ParseDestinationCIDR e)
      | Inr dstIPNet \<Rightarrow>
          bind_r (map_r parse_src srcCIDRs)
            (\<lambda>srcInfos. mapSubnetsRec dstCIDR srcCIDRs (sorter prefix srcInfos)
                          [CIDR_ToIPNet dstIPNet] []))"

definition parse_mapping :: "string \<times> string \<Rightarrow> net_error + CIDR \<times> CIDR" where
  "parse_mapping e =
     (case ParseIPNet (fst e) of
        Inl x \<Rightarrow> Inl (ParseSourceCIDR (fst e) x)
      | Inr srcCIDR \<Rightarrow>
          (case ParseIPNet (snd e) of
             Inl x \<Rightarrow> Inl (ParseDestinationCIDR x)
           | Inr dstCIDR \<Rightarrow> Inr (srcCIDR, dstCIDR)))"

text \<open>
  The keys of the map \<^verbatim>\<open>NetmapCIDRs\<close> returns are pointers to fresh variables, so no two of its
  entries share a key: it is the list of its entries in the order of the loop.
\<close>

definition NetmapCIDRs ::
  "((srcInfo \<Rightarrow> int) \<Rightarrow> srcInfo list \<Rightarrow> srcInfo list)
   \<Rightarrow> ((string \<times> string) list \<Rightarrow> (string \<times> string) list)
   \<Rightarrow> CIDR list \<Rightarrow> CIDR \<Rightarrow> net_error + (CIDR \<times> CIDR) list"
where
  "NetmapCIDRs sorter visit srcCIDRs dstCIDR =
     (let srcCIDRsStr = map CIDR_String srcCIDRs; dstCIDRStr = CIDR_String dstCIDR
      in case NetmapSubnets sorter srcCIDRsStr dstCIDRStr of
           Inl e \<Rightarrow> Inl (MapCIDRs e)
         | Inr mappedStr \<Rightarrow> map_r parse_mapping (visit mappedStr))"

text \<open>
  The reserved ranges of package \<^verbatim>\<open>constants\<close>, whose values another repository defines.
\<close>

record mapped_ranges =
  ShootPodNetworkMapped :: string
  ShootServiceNetworkMapped :: string
  ShootNodeNetworkMapped :: string
  SeedPodNetworkMapped :: string

type_synonym netmappings = "(CIDR \<times> CIDR) list \<times> (CIDR \<times> CIDR) list \<times> (CIDR \<times> CIDR) list"

definition ShootNetworksForNetmap ::
  "mapped_ranges \<Rightarrow> ((srcInfo \<Rightarrow> int) \<Rightarrow> srcInfo list \<Rightarrow> srcInfo list)
   \<Rightarrow> ((string \<times> string) list \<Rightarrow> (string \<times> string) list)
   \<Rightarrow> CIDR list \<Rightarrow> CIDR list \<Rightarrow> CIDR list \<Rightarrow> net_error + netmappings"
where
  "ShootNetworksForNetmap rng sorter visit pods services nodes =
     (let ipv4Pods = GetByIPFamily pods IPv4Family;
          ipv4Services = GetByIPFamily services IPv4Family;
          ipv4Nodes = GetByIPFamily nodes IPv4Family
      in case NetmapCIDRs sorter visit ipv4Pods (ParseIPNetIgnoreError (ShootPodNetworkMapped rng)) of
           Inl e \<Rightarrow> Inl (MapShootNetworks ''pod'' e)
         | Inr podMappings \<Rightarrow>
        (case NetmapCIDRs sorter visit ipv4Services
                (ParseIPNetIgnoreError (ShootServiceNetworkMapped rng)) of
           Inl e \<Rightarrow> Inl (MapShootNetworks ''service'' e)
         | Inr serviceMappings \<Rightarrow>
        (case NetmapCIDRs sorter visit ipv4Nodes
                (ParseIPNetIgnoreError (ShootNodeNetworkMapped rng)) of
           Inl e \<Rightarrow> Inl (MapShootNetworks ''node'' e)
         | Inr nodeMappings \<Rightarrow> Inr (podMappings, serviceMappings, nodeMappings))))"

end
