(* ===== verification/Netmap_Proofs.thy ===== *)
theory Netmap_Proofs
  imports Netmap
begin

text \<open>
  The recursive assignment of \<^verbatim>\<open>NetmapSubnets\<close> is sequential packing: the sources, sorted by
  increasing prefix length, get consecutive blocks of their sizes from the start of the
  destination.  From this follow its capacity, the disjointness of the mapped networks and
  that they lie in the destination.
\<close>

section \<open>Blocks as intervals\<close>

lemma and_not_mask_eq_iff:
  fixes x y :: "'a::len word"
  shows "x AND NOT (mask n) = y AND NOT (mask n) \<longleftrightarrow> drop_bit n x = drop_bit n y"
proof
  assume eq: "x AND NOT (mask n) = y AND NOT (mask n)"
  have "bit x (n + k) = bit y (n + k)" for k
    using arg_cong [OF eq, of "\<lambda>w. bit w (n + k)"]
    by (cases "n + k < LENGTH('a)") (auto simp: bit_simps dest: bit_imp_le_length)
  then show "drop_bit n x = drop_bit n y"
    by (auto intro!: bit_word_eqI simp: bit_simps)
next
  assume eq: "drop_bit n x = drop_bit n y"
  have "bit x k = bit y k" if "n \<le> k" for k
    using arg_cong [OF eq, of "\<lambda>w. bit w (k - n)"] that by (auto simp: bit_simps)
  then show "x AND NOT (mask n) = y AND NOT (mask n)"
    by (auto intro!: bit_word_eqI simp: bit_simps)
qed

definition host_number :: "ip \<Rightarrow> nat" where
  "host_number x = unat (be32 (norm_ip x))"

lemma block_network_number:
  "q \<le> 32 \<Longrightarrow> network_number_and_mask (block b q) = (be32_bytes (of_nat b), cidr_mask (int q) 32)"
  by (auto simp: network_number_and_mask_def block_def cidr_mask_length Let_def)

lemma div_interval:
  fixes x a k :: nat
  assumes dvd: "k dvd a" and pos: "0 < k"
  shows "x div k = a div k \<longleftrightarrow> a \<le> x \<and> x < a + k"
proof -
  obtain c where a: "a = k * c" using dvd by blast
  have "k * c \<le> x \<and> x < k * c + k" if "x div k = c"
  proof -
    have "x = k * c + x mod k" using mult_div_mod_eq [of k x] by (simp only: that)
    with mod_less_divisor [OF pos, of x] show ?thesis by linarith
  qed
  moreover have "x div k = c" if "k * c \<le> x" "x < k * c + k"
    using that by (intro div_nat_eqI) (simp_all add: algebra_simps)
  ultimately show ?thesis using pos unfolding a by auto
qed

lemma net_contains_block:
  assumes q: "q \<le> 32" and a: "block_size q dvd b" "b < 2 ^ 32"
  shows "net_contains (block b q) x \<longleftrightarrow>
     length (norm_ip x) = 4 \<and> b \<le> host_number x \<and> host_number x < b + block_size q"
proof -
  let ?m = "cidr_mask (int q) 32" and ?bb = "be32_bytes (of_nat b)"
  have m: "length ?m = 4" using q by (simp add: cidr_mask_length)
  have ub: "unat (of_nat b :: 32 word) = b"
    using a(2) by (simp add: unat_of_nat)
  have "map2 (AND) ?bb ?m = map2 (AND) (norm_ip x) ?m \<longleftrightarrow>
        b \<le> host_number x \<and> host_number x < b + block_size q"
    if len: "length (norm_ip x) = 4"
  proof -
    have "map2 (AND) ?bb ?m = map2 (AND) (norm_ip x) ?m \<longleftrightarrow>
          be32 (map2 (AND) ?bb ?m) = be32 (map2 (AND) (norm_ip x) ?m)"
      using m len by (simp add: be32_inject)
    also have "\<dots> \<longleftrightarrow> drop_bit (32 - q) (of_nat b) = drop_bit (32 - q) (be32 (norm_ip x))"
      using m len q by (simp add: be32_map2_and be32_cidr_mask and_not_mask_eq_iff)
    also have "\<dots> \<longleftrightarrow> unat (drop_bit (32 - q) (of_nat b :: 32 word)) =
                    unat (drop_bit (32 - q) (be32 (norm_ip x)))"
      by (simp only: word_unat_eq_iff)
    also have "\<dots> \<longleftrightarrow> host_number x div block_size q = b div block_size q"
      unfolding unat_drop_bit_eq ub host_number_def [symmetric]
      by (simp add: drop_bit_eq_div block_size_def eq_commute)
    also have "\<dots> \<longleftrightarrow> b \<le> host_number x \<and> host_number x < b + block_size q"
      using a(1) by (rule div_interval) simp
    finally show ?thesis .
  qed
  then show ?thesis
    by (auto simp: net_contains_eq [OF block_network_number [OF q]])
qed

text \<open>Every IPv4 network that parsing returns is an aligned block.\<close>

lemma unat_aligned:
  fixes w :: "32 word"
  assumes "w AND NOT (mask n) = w"
  shows "2 ^ n dvd unat w"
proof -
  have "take_bit n w = w AND mask n" by (rule take_bit_eq_mask)
  also have "\<dots> = 0"
    by (subst assms [symmetric]) (simp add: ac_simps)
  finally have "take_bit n (unat w) = 0"
    by (metis unsigned_0 unsigned_take_bit_eq)
  then show ?thesis by (simp add: take_bit_eq_mod dvd_eq_mod_eq_0)
qed

lemma ParseIPNet_v4_block:
  assumes "ParseIPNet s = Inr n" and "mask_size (net_mask n) = (d, 32)"
  obtains b q where "n = block b q" and "d = int q" and "q \<le> 32"
    and "block_size q dvd b" and "b + block_size q \<le> 2 ^ 32"
proof -
  from assms(1) obtain x where "parse_cidr s = Some (x, n)"
    by (auto simp: ParseIPNet_def split: option.splits)
  then obtain a q where a: "length a = 4 \<or> length a = 16" and p: "q \<le> 8 * length a"
    and nip: "net_ip n = map2 (AND) a (mask_bytes (length a) q)"
    and nm: "net_mask n = mask_bytes (length a) q"
    by (rule parse_cidr_shape)
  have len: "length a = 4"
    using assms(2) a p by (auto simp: nm mask_size_def simple_mask_length_mask_bytes Let_def)
  then have mb: "mask_bytes 4 q = cidr_mask (int q) 32"
    using p by (simp add: cidr_mask_def)
  have q: "q \<le> 32" and m: "net_mask n = cidr_mask (int q) 32"
    using p len by (simp_all add: nm cidr_mask_def)
  have d: "d = int q" using assms(2) q by (simp add: m mask_size_cidr_mask)
  let ?w = "be32 (net_ip n)"
  have mlen: "length (cidr_mask (int q) 32) = 4" using q by (simp add: cidr_mask_length)
  have ip: "length (net_ip n) = 4" "map2 (AND) (net_ip n) (cidr_mask (int q) 32) = net_ip n"
    using len mlen mb by (simp_all add: nip map2_and_idem)
  have masked: "?w AND NOT (mask (32 - q)) = ?w"
    using ip mlen be32_map2_and [of "net_ip n" "cidr_mask (int q) 32"] q
    by (simp add: be32_cidr_mask)
  have dvd: "block_size q dvd unat ?w"
    using unat_aligned [OF masked] by (simp add: block_size_def)
  have "n = block (unat ?w) q"
    using ip(1) m by (cases n) (simp add: block_def flip: be32_inject)
  moreover have "unat ?w + block_size q \<le> 2 ^ 32"
  proof -
    obtain c where c: "unat ?w = block_size q * c" using dvd by blast
    have e: "(2::nat) ^ 32 = block_size q * 2 ^ q"
      using q by (simp add: block_size_def flip: power_add)
    have "block_size q * c < block_size q * 2 ^ q"
      using unsigned_less [of ?w, where ?'a = nat] by (simp add: c [symmetric] e [symmetric])
    then have "Suc c \<le> 2 ^ q" by simp
    then have "block_size q * Suc c \<le> block_size q * 2 ^ q" by (rule mult_le_mono2)
    then show ?thesis unfolding c e by (simp add: add.commute)
  qed
  ultimately show thesis using that d q dvd by blast
qed

section \<open>Arithmetic progressions of block starts\<close>

definition ap :: "nat \<Rightarrow> nat \<Rightarrow> nat \<Rightarrow> nat list" where
  "ap s k n = map (\<lambda>i. s + i * k) [0 ..< n]"

lemma ap_0 [simp]: "ap s k 0 = []"
  by (simp add: ap_def)

lemma ap_append: "ap s k (m + n) = ap s k m @ ap (s + m * k) k n"
  by (induction n) (simp_all add: ap_def algebra_simps)

lemma ap_Suc: "ap s k (Suc n) = s # ap (s + k) k n"
  using ap_append [of s k 1 n] by (simp add: ap_def)

lemma ap_refine: "concat (map (\<lambda>s. ap s k m) (ap s (m * k) n)) = ap s k (n * m)"
proof (induction n arbitrary: s)
  case (Suc n)
  then show ?case by (simp add: ap_Suc ap_append)
qed simp

lemma set_ap: "x \<in> set (ap s k n) \<Longrightarrow> s \<le> x"
  by (auto simp: ap_def)

section \<open>Splitting a block\<close>

lemma ucast_byte: "(ucast (w AND 0xff) :: 8 word) = ucast (w :: 32 word)"
proof -
  have ff: "(0xff :: 32 word) = mask 8" by (simp add: mask_eq_exp_minus_1)
  show ?thesis unfolding ff by (auto intro!: bit_word_eqI simp: bit_simps)
qed

lemma subnet_at_block:
  assumes q: "q \<le> 32" and dvd: "block_size q dvd b"
  shows "subnet_at (of_nat b) (of_nat (block_size q)) (int q) 32 (of_nat i)
       = block (b + i * block_size q) q"
proof -
  let ?w = "of_nat (b + i * block_size q) :: 32 word"
  have w: "of_nat b + of_nat i * of_nat (block_size q) = ?w" by simp
  have mlen: "length (cidr_mask (int q) 32) = 4" using q by (simp add: cidr_mask_length)
  have "ipv4 (ucast (drop_bit 24 ?w AND 0xff)) (ucast (drop_bit 16 ?w AND 0xff))
      (ucast (drop_bit 8 ?w AND 0xff)) (ucast (?w AND 0xff)) = v4_in_v6_prefix @ be32_bytes ?w"
    unfolding ipv4_def be32_bytes_def by (simp only: ucast_byte)
  moreover have "map2 (AND) (be32_bytes ?w) (cidr_mask (int q) 32) = be32_bytes ?w"
    using dvd q by (intro block_masked) simp_all
  ultimately show ?thesis
    unfolding subnet_at_def w Let_def
    using mlen by (simp only: ip_mask_v4 be32_bytes_length block_def)
qed

lemma subnetSplit_block:
  assumes q: "p \<le> q" "q \<le> 32" "q - p < 32" and dvd: "block_size p dvd b"
  shows "subnetSplit (block b p) (int q)
       = Inr (map (\<lambda>s. block s q) (ap b (block_size q) (2 ^ (q - p))))"
proof -
  have size: "mask_size (net_mask (block b p)) = (int p, 32)"
    using q by (simp add: block_def mask_size_cidr_mask)
  have mlen: "length (cidr_mask (int p) 32) = 4" using q by (simp add: cidr_mask_length)
  have base: "to4 (ip_mask (net_ip (block b p)) (net_mask (block b p))) = Some (be32_bytes (of_nat b))"
    using q dvd mlen by (simp add: block_def ip_mask_4 block_masked)
  have num: "unat ((2 :: 32 word) ^ nat (int q - int p)) = 2 ^ (q - p)"
  proof -
    have "(2::nat) ^ (q - p) < 2 ^ 32" using q by (intro power_strict_increasing) simp_all
    then have "unat (of_nat (2 ^ (q - p)) :: 32 word) = 2 ^ (q - p)"
      by (simp only: unat_of_nat) simp
    then show ?thesis using q by (simp add: nat_diff_distrib)
  qed
  have incr: "(2 :: 32 word) ^ nat (32 - int q) = of_nat (block_size q)"
    using q by (simp add: block_size_def nat_diff_distrib)
  have dvd': "block_size q dvd b"
    using dvd block_size_split [OF q(1,2)] by (metis dvd_mult_right)
  show ?thesis
    using q by (simp add: subnetSplit_def size base num incr subnet_at_block [OF q(2) dvd'] ap_def
        Let_def comp_def)
qed

lemma split_dsts_blocks:
  assumes q: "p \<le> q" "q \<le> 32" "q - p < 32" and dvd: "block_size p dvd s"
  shows "split_dsts (map (\<lambda>s. block s p) (ap s (block_size p) n)) (int q)
       = Inr (map (\<lambda>s. block s q) (ap s (block_size q) (n * 2 ^ (q - p))))"
proof -
  let ?f = "\<lambda>s. map (\<lambda>s. block s q) (ap s (block_size q) (2 ^ (q - p)))"
  have "map_r (\<lambda>dst. subnetSplit dst (int q)) (map (\<lambda>s. block s p) (ap s (block_size p) n))
      = Inr (map ?f (ap s (block_size p) n))"
  proof -
    have "map_r (\<lambda>x. subnetSplit (block x p) (int q)) (ap s (block_size p) n)
        = Inr (map ?f (ap s (block_size p) n))"
      using dvd by (intro map_r_pure subnetSplit_block [OF q]) (auto simp: ap_def)
    then show ?thesis by (simp add: map_r_map)
  qed
  moreover have "concat (map ?f (ap s (block_size p) n))
      = map (\<lambda>s. block s q) (ap s (block_size q) (n * 2 ^ (q - p)))"
    unfolding block_size_split [OF q(1,2)] ap_refine [symmetric] map_concat
    by (simp add: comp_def)
  ultimately show ?thesis by (simp add: split_dsts_def)
qed

section \<open>Mapping one source\<close>

definition src_block :: "srcInfo \<Rightarrow> bool" where
  "src_block s \<longleftrightarrow>
     (\<exists>b q. src_ipnet s = block b q \<and> prefix s = int q \<and> q \<le> 32 \<and> block_size q dvd b)"

definition src_size :: "srcInfo \<Rightarrow> nat" where
  "src_size s = block_size (nat (prefix s))"

lemma parse_src_block:
  assumes "parse_src t = Inr s"
  shows "raw s = t \<and> src_block s \<and> ParseIPNet t = Inr (src_ipnet s)"
proof -
  obtain n where n: "ParseIPNet t = Inr n" and size: "snd (mask_size (net_mask n)) = 32"
    and s: "s = \<lparr>raw = t, src_ipnet = n, prefix = fst (mask_size (net_mask n))\<rparr>"
    using assms
    by (auto simp: parse_src_def CIDR_ToIPNet_def Let_def split: sum.splits prod.splits if_splits)
  have "mask_size (net_mask n) = (fst (mask_size (net_mask n)), 32)"
    using size by (metis prod.collapse)
  then obtain b q where "n = block b q" "fst (mask_size (net_mask n)) = int q" "q \<le> 32"
      "block_size q dvd b"
    by (rule ParseIPNet_v4_block [OF n])
  with n s show ?thesis by (auto simp: src_block_def)
qed

lemma netmapIP_aligned:
  assumes "length a = 4" and "length m = 4" and "length b = 4" and "map2 (AND) a m = a"
  shows "netmapIP a \<lparr>net_ip = b, net_mask = m\<rparr> = Inr b"
proof -
  have "a ! i AND NOT (m ! i) OR b ! i = b ! i" if "i < 4" for i
  proof -
    have "a ! i = a ! i AND m ! i"
      using arg_cong [OF assms(4), of "\<lambda>l. l ! i"] assms(1,2) that by simp
    then have "a ! i AND NOT (m ! i) = 0"
      by (rule ssubst) (rule bit_word_eqI, auto simp: bit_simps)
    then show ?thesis by simp
  qed
  then have "map (\<lambda>i. a ! i AND NOT (m ! i) OR b ! i) [0..<4] = b"
    using assms(3) by (intro nth_equalityI) simp_all
  then show ?thesis using assms by (simp add: netmapIP_def)
qed

lemma netmapSubnet_block:
  assumes "q \<le> 32" and "block_size q dvd b"
  shows "netmapSubnet (block b q) (block c q) = Inr (block c q)"
proof -
  have "netmapIP (be32_bytes (of_nat b)) (block c q) = Inr (be32_bytes (of_nat c))"
    unfolding block_def using assms
    by (intro netmapIP_aligned) (simp_all add: cidr_mask_length block_masked)
  then show ?thesis by (simp add: netmapSubnet_def block_def)
qed

section \<open>Sequential packing\<close>

fun place :: "nat \<Rightarrow> srcInfo list \<Rightarrow> (srcInfo \<times> nat) list" where
  "place at [] = []"
| "place at (s # ss) = (s, at) # place (at + src_size s) ss"

definition total_size :: "srcInfo list \<Rightarrow> nat" where
  "total_size ss = sum_list (map src_size ss)"

definition entry :: "srcInfo \<times> nat \<Rightarrow> string \<times> string" where
  "entry p = (raw (fst p), ipnet_string (block (snd p) (nat (prefix (fst p)))))"

definition record_entries :: "(string \<times> string) list \<Rightarrow> (string \<times> string) list
    \<Rightarrow> (string \<times> string) list" where
  "record_entries es m = fold (\<lambda>(k, v). AList.update k v) es m"

lemma record_entries_simps [simp]:
  "record_entries [] m = m"
  "record_entries ((k, v) # es) m = record_entries es (AList.update k v m)"
  by (simp_all add: record_entries_def)

lemma total_simps [simp]: "total_size [] = 0" "total_size (s # ss) = src_size s + total_size ss"
  by (simp_all add: total_size_def)

lemma src_size_pos [simp]: "0 < src_size s"
  by (simp add: src_size_def)

lemma mapSubnetsRec_packs:
  assumes "\<forall>s \<in> set srcs. src_block s \<and> int q \<le> prefix s" and "sorted (map prefix srcs)"
    and "block_size q dvd at" and "0 < q"
  shows "mapSubnetsRec d l srcs (map (\<lambda>s. block s q) (ap at (block_size q) n)) m =
     (if total_size srcs \<le> n * block_size q
      then Inr (record_entries (map entry (place at srcs)) m)
      else Inl (NotEnoughSpace d l))"
  using assms
proof (induction srcs arbitrary: q at n m)
  case Nil
  then show ?case by simp
next
  case (Cons s srcs)
  obtain b p where s: "src_ipnet s = block b p" "prefix s = int p" "p \<le> 32" "block_size p dvd b"
    using Cons.prems(1) by (auto simp: src_block_def)
  have qp: "q \<le> p" "p - q < 32" using Cons.prems s by auto
  have size: "src_size s = block_size p" by (simp add: src_size_def s)
  have dvd: "block_size p dvd at"
    using Cons.prems(3) block_size_split [OF qp(1) s(3)] by (metis dvd_mult_right)
  have split: "split_dsts (map (\<lambda>s. block s q) (ap at (block_size q) n)) (int p)
      = Inr (map (\<lambda>s. block s p) (ap at (block_size p) (n * 2 ^ (p - q))))"
    by (rule split_dsts_blocks [OF qp(1) s(3) qp(2) Cons.prems(3)])
  have cap: "n * block_size q = n * 2 ^ (p - q) * block_size p"
    by (simp add: block_size_split [OF qp(1) s(3)])
  show ?case
  proof (cases n)
    case 0
    then show ?thesis using split size s(2) by simp
  next
    case (Suc n')
    then obtain k where k: "n * 2 ^ (p - q) = Suc k"
      by (metis gr0_implies_Suc mult_pos_pos zero_less_Suc zero_less_numeral zero_less_power)
    have "mapSubnetsRec d l srcs (map (\<lambda>s. block s p) (ap (at + block_size p) (block_size p) k))
        (AList.update (raw s) (ipnet_string (block at p)) m) =
      (if total_size srcs \<le> k * block_size p
       then Inr (record_entries (map entry (place (at + block_size p) srcs))
              (AList.update (raw s) (ipnet_string (block at p)) m))
       else Inl (NotEnoughSpace d l))"
      using Cons.prems dvd s(2) by (intro Cons.IH) auto
    moreover have "total_size srcs \<le> k * block_size p \<longleftrightarrow> total_size (s # srcs) \<le> n * block_size q"
      unfolding cap k by (simp add: size)
    moreover have "entry (s, at) = (raw s, ipnet_string (block at p))"
      by (simp add: entry_def s)
    ultimately show ?thesis
      using s size by (simp add: split k ap_Suc netmapSubnet_block)
  qed
qed

section \<open>Facts about the packing\<close>

lemma place_range:
  "(s, a) \<in> set (place at ss) \<Longrightarrow> at \<le> a \<and> a + src_size s \<le> at + total_size ss"
  by (induction at ss rule: place.induct) fastforce+

lemma place_fst [simp]: "map fst (place at ss) = ss"
  by (induction at ss rule: place.induct) auto

lemma place_spaced:
  "sorted_wrt (\<lambda>x y. snd x + src_size (fst x) \<le> snd y) (place at ss)"
  by (induction at ss rule: place.induct) (auto dest: place_range)

lemma place_aligned:
  assumes "\<forall>s \<in> set ss. src_block s" and "sorted (map prefix ss)"
    and "\<forall>s \<in> set ss. src_size s dvd at" and "(s, a) \<in> set (place at ss)"
  shows "src_size s dvd a"
  using assms
proof (induction at ss rule: place.induct)
  case (2 at t ss)
  have "src_size u dvd src_size t" if "u \<in> set ss" for u
  proof -
    obtain p q where "prefix t = int p" "prefix u = int q" "q \<le> 32"
      using 2(2) \<open>u \<in> set ss\<close> by (auto simp: src_block_def)
    moreover from this have "p \<le> q" using 2(3) \<open>u \<in> set ss\<close> by auto
    ultimately show ?thesis by (simp add: src_size_def block_size_split [of p q])
  qed
  with 2 show ?case by (auto intro: dvd_add)
qed simp

lemma place_disjoint:
  assumes "x \<in> set (place at ss)" and "y \<in> set (place at ss)" and "x \<noteq> y"
  shows "snd x + src_size (fst x) \<le> snd y \<or> snd y + src_size (fst y) \<le> snd x"
proof -
  obtain i j where "i < length (place at ss)" "j < length (place at ss)"
    "x = place at ss ! i" "y = place at ss ! j"
    using assms by (metis in_set_conv_nth)
  moreover from this have "i < j \<or> j < i" using assms(3) by (metis linorder_neqE_nat)
  ultimately show ?thesis
    using sorted_wrt_nth_less [OF place_spaced, of i j at ss]
      sorted_wrt_nth_less [OF place_spaced, of j i at ss] by fastforce
qed

lemma record_entries_set: "e \<in> set (record_entries es m) \<Longrightarrow> e \<in> set es \<or> e \<in> set m"
proof (induction es arbitrary: m)
  case (Cons x es)
  obtain k v where x: "x = (k, v)" by (cases x)
  have "set (AList.update k v m) \<subseteq> insert (k, v) (set m)"
    by (induction m) auto
  then show ?case using Cons.IH [of "AList.update k v m"] Cons.prems x by auto
qed simp

lemma record_entries_keys: "set (map fst (record_entries es m)) = set (map fst es) \<union> set (map fst m)"
proof (induction es arbitrary: m)
  case (Cons x es)
  then show ?case
    by (cases x) (simp add: dom_update)
qed simp

lemma record_entries_distinct:
  "distinct (map fst m) \<Longrightarrow> distinct (map fst (record_entries es m))"
  by (induction es arbitrary: m) (auto simp: distinct_update)

lemma ParseIPNet_ipnet_string:
  "q \<le> 32 \<Longrightarrow> block_size q dvd b \<Longrightarrow> ParseIPNet (ipnet_string (block b q)) = Inr (block b q)"
  by (simp add: ipnet_string_block ParseIPNet_block)

section \<open>The mapping of a list of networks\<close>

lemma total_size_perm: "mset ss = mset ts \<Longrightarrow> total_size ss = total_size ts"
  unfolding total_size_def by (metis mset_map sum_mset_sum_list)

lemma map_r_parse_src:
  assumes "map_r parse_src srcs = Inr infos"
  shows "map raw infos = srcs" and "\<forall>s \<in> set infos. src_block s \<and> ParseIPNet (raw s) = Inr (src_ipnet s)"
proof -
  have "list_all2 (\<lambda>t s. parse_src t = Inr s) srcs infos"
    using assms by (simp add: map_r_Inr)
  then have "map raw infos = srcs \<and>
      (\<forall>s \<in> set infos. src_block s \<and> ParseIPNet (raw s) = Inr (src_ipnet s))"
    by (induction rule: list_all2_induct) (auto dest: parse_src_block)
  then show "map raw infos = srcs"
    and "\<forall>s \<in> set infos. src_block s \<and> ParseIPNet (raw s) = Inr (src_ipnet s)" by auto
qed

lemma src_size_le_total: "s \<in> set ss \<Longrightarrow> src_size s \<le> total_size ss"
  by (induction ss) auto

lemma src_block_prefix:
  assumes "src_block s" and "src_size s \<le> block_size q" and "q \<le> 32"
  shows "int q \<le> prefix s"
proof -
  obtain p where p: "prefix s = int p" "p \<le> 32" using assms(1) by (auto simp: src_block_def)
  with assms(2) have "(2::nat) ^ (32 - p) \<le> 2 ^ (32 - q)"
    by (simp add: src_size_def block_size_def)
  then have "32 - p \<le> 32 - q" by (rule power_le_imp_le_exp [rotated]) simp
  then show ?thesis using p assms(3) by simp
qed

text \<open>
  A source larger than the destination fails at the first split; a smaller one than all of
  them is packed.
\<close>

lemma mapSubnetsRec_too_large:
  assumes "prefix s < int q" and "q \<le> 32"
  shows "mapSubnetsRec d l (s # srcs) [block b q] m =
     Inl (SplitDestinationSubnet (InvalidNewPrefixLength (prefix s) (block b q)))"
  using assms
  by (simp add: split_dsts_def subnetSplit_def block_def mask_size_cidr_mask)

lemma NetmapSubnets_packs:
  assumes sorter: "go_sort sorter" and dst: "ParseIPNet dst = Inr D"
    and size: "mask_size (net_mask D) = (d, 32)" "0 < d"
    and infos: "map_r parse_src srcs = Inr infos"
  obtains b q where "D = block b q" and "d = int q" and "q \<le> 32" and "block_size q dvd b"
    and "b + block_size q \<le> 2 ^ 32"
    and "total_size infos \<le> block_size q \<longrightarrow> NetmapSubnets sorter srcs dst =
           Inr (record_entries (map entry (place b (sorter prefix infos))) [])"
    and "\<not> total_size infos \<le> block_size q \<longrightarrow> \<not> is_ok (NetmapSubnets sorter srcs dst)"
proof -
  obtain b q where D: "D = block b q" "d = int q" "q \<le> 32" "block_size q dvd b"
    "b + block_size q \<le> 2 ^ 32"
    by (rule ParseIPNet_v4_block [OF dst size(1)])
  let ?T = "sorter prefix infos"
  have perm: "mset ?T = mset infos" and sorted: "sorted (map prefix ?T)"
    using sorter by (simp_all add: go_sort.sorter_perm go_sort.sorter_sorted)
  have T: "\<forall>s \<in> set ?T. src_block s" "total_size ?T = total_size infos"
    using map_r_parse_src(2) [OF infos] perm total_size_perm [OF perm]
    by (auto dest: mset_eq_setD)
  have run: "NetmapSubnets sorter srcs dst = mapSubnetsRec dst srcs ?T [block b q] []"
    using dst infos D(1) by (simp add: NetmapSubnets_def CIDR_ToIPNet_def)
  have packs: "mapSubnetsRec dst srcs ?T [block b q] [] =
      (if total_size infos \<le> block_size q then Inr (record_entries (map entry (place b ?T)) [])
       else Inl (NotEnoughSpace dst srcs))"
    if "\<forall>s \<in> set ?T. int q \<le> prefix s"
    using mapSubnetsRec_packs [of ?T q b dst srcs 1 "[]"] that T D size(2) sorted
    by (simp add: ap_Suc)
  have fit: "\<forall>s \<in> set ?T. int q \<le> prefix s" if "total_size infos \<le> block_size q"
    using that T D(3) src_size_le_total by (metis le_trans src_block_prefix)
  have ok: "mapSubnetsRec dst srcs ?T [block b q] [] =
      Inr (record_entries (map entry (place b ?T)) [])" if fits: "total_size infos \<le> block_size q"
    using packs [OF fit [OF fits]] fits by simp
  have err: "\<not> is_ok (mapSubnetsRec dst srcs ?T [block b q] [])"
    if "\<not> total_size infos \<le> block_size q"
  proof (cases "\<forall>s \<in> set ?T. int q \<le> prefix s")
    case True
    with packs that show ?thesis by simp
  next
    case False
    then obtain s ss where "?T = s # ss" "prefix s < int q"
      using sorted by (cases ?T) fastforce+
    then show ?thesis by (simp add: mapSubnetsRec_too_large D(3) del: mapSubnetsRec.simps)
  qed
  show thesis
    by (rule that [OF D]) (simp_all add: run ok err)
qed

lemma NetmapSubnets_InrE:
  assumes "go_sort sorter" and "ParseIPNet dst = Inr D"
    and "mask_size (net_mask D) = (d, 32)" and "0 < d"
    and "NetmapSubnets sorter srcs dst = Inr m"
  obtains b q infos where "D = block b q" and "q \<le> 32" and "block_size q dvd b"
    and "b + block_size q \<le> 2 ^ 32"
    and "map_r parse_src srcs = Inr infos" and "total_size infos \<le> block_size q"
    and "m = record_entries (map entry (place b (sorter prefix infos))) []"
proof -
  obtain infos where infos: "map_r parse_src srcs = Inr infos"
    using assms(2,5) by (auto simp: NetmapSubnets_def result_simps)
  show thesis
    by (rule NetmapSubnets_packs [OF assms(1-4) infos])
      (use assms(5) infos that in \<open>fastforce simp: is_ok_def\<close>)
qed


text \<open>An entry of the result is the block that one of the sources was given.\<close>

definition given :: "nat \<Rightarrow> srcInfo \<times> nat \<Rightarrow> bool" where
  "given p x \<longleftrightarrow> p \<le> 32 \<and> prefix (fst x) = int p \<and> src_size (fst x) = block_size p \<and>
     block_size p dvd snd x \<and> snd x + block_size p \<le> 2 ^ 32"

lemma given_parse: "given p x \<Longrightarrow> ParseIPNet (snd (entry x)) = Inr (block (snd x) p)"
  by (simp add: given_def entry_def ParseIPNet_ipnet_string)

lemma given_contains:
  "given p x \<Longrightarrow> net_contains (block (snd x) p) y \<longleftrightarrow>
     length (norm_ip y) = 4 \<and> snd x \<le> host_number y \<and> host_number y < snd x + block_size p"
  by (rule net_contains_block) (auto simp: given_def intro: less_le_trans [rotated])

lemma place_given:
  assumes "\<forall>s \<in> set ss. src_block s" and "sorted (map prefix ss)" and "total_size ss \<le> block_size q"
    and "q \<le> 32" and "block_size q dvd b" and "b + block_size q \<le> 2 ^ 32" and "x \<in> set (place b ss)"
  shows "\<exists>p. given p x \<and> b \<le> snd x \<and> snd x + block_size p \<le> b + block_size q"
proof -
  obtain s a where x: "x = (s, a)" by (cases x)
  have s: "s \<in> set ss" using assms(7) x place_fst by (metis fst_conv image_eqI set_map)
  obtain p where p: "prefix s = int p" "p \<le> 32" using assms(1) s by (auto simp: src_block_def)
  have dvd: "src_size t dvd b" if t: "t \<in> set ss" for t
  proof -
    have "int q \<le> prefix t"
      using assms(1,3,4) t src_size_le_total [OF t] by (auto intro: src_block_prefix)
    moreover obtain r where "prefix t = int r" "r \<le> 32"
      using assms(1) t by (auto simp: src_block_def)
    ultimately have "block_size q = 2 ^ (r - q) * src_size t"
      by (simp add: src_size_def block_size_split)
    then show ?thesis using assms(5) by (metis dvd_mult_right)
  qed
  have "src_size s dvd a"
    using place_aligned [OF assms(1,2), of b s a] dvd assms(7) x by auto
  moreover have "b \<le> a" "a + src_size s \<le> b + total_size ss"
    using place_range [of s a b ss] assms(7) x by auto
  moreover have "src_size s = block_size p" by (simp add: src_size_def p)
  ultimately show ?thesis using p assms(3,6) x by (auto simp: given_def intro!: exI [of _ p])
qed

text \<open>The common part of the two safety properties: what an entry of the mapping is.\<close>

lemma NetmapSubnets_given:
  assumes "go_sort sorter" and "ParseIPNet dst = Inr D"
    and "mask_size (net_mask D) = (d, 32)" and "0 < d"
    and "NetmapSubnets sorter srcs dst = Inr m"
  obtains b q infos where "D = block b q" and "q \<le> 32" and "block_size q dvd b"
    and "b + block_size q \<le> 2 ^ 32" and "map_r parse_src srcs = Inr infos"
    and "\<forall>e \<in> set m. \<exists>x \<in> set (place b (sorter prefix infos)). e = entry x \<and>
           src_block (fst x) \<and> ParseIPNet (fst e) = Inr (src_ipnet (fst x)) \<and>
           (\<exists>p. given p x \<and> b \<le> snd x \<and> snd x + block_size p \<le> b + block_size q)"
proof -
  obtain b q infos where D: "D = block b q" "q \<le> 32" "block_size q dvd b"
    "b + block_size q \<le> 2 ^ 32" and infos: "map_r parse_src srcs = Inr infos"
    and tot: "total_size infos \<le> block_size q"
    and m: "m = record_entries (map entry (place b (sorter prefix infos))) []"
    by (rule NetmapSubnets_InrE [OF assms])
  let ?T = "sorter prefix infos"
  have T: "set ?T = set infos" "sorted (map prefix ?T)" "total_size ?T = total_size infos"
    using total_size_perm [OF go_sort.sorter_perm [OF assms(1)]]
    by (simp_all add: go_sort.sorter_set [OF assms(1)] go_sort.sorter_sorted [OF assms(1)])
  have srcs: "\<forall>s \<in> set ?T. src_block s \<and> ParseIPNet (raw s) = Inr (src_ipnet s)"
    using map_r_parse_src(2) [OF infos] T(1) by simp
  have "\<exists>x \<in> set (place b ?T). e = entry x \<and> src_block (fst x) \<and>
         ParseIPNet (fst e) = Inr (src_ipnet (fst x)) \<and>
         (\<exists>p. given p x \<and> b \<le> snd x \<and> snd x + block_size p \<le> b + block_size q)"
    if e: "e \<in> set m" for e
  proof -
    obtain x where x: "x \<in> set (place b ?T)" "e = entry x"
      using record_entries_set e m by fastforce
    then have "fst x \<in> set ?T" by (metis image_eqI place_fst set_map)
    moreover have "\<exists>p. given p x \<and> b \<le> snd x \<and> snd x + block_size p \<le> b + block_size q"
      using place_given [of ?T q b x] x srcs T tot D by simp
    ultimately show ?thesis
      using x srcs by (intro bexI [of _ x]) (simp_all add: entry_def)
  qed
  then show thesis using that D infos by blast
qed

lemma given_src:
  assumes "given p x" and "src_block (fst x)"
  shows "net_mask (src_ipnet (fst x)) = cidr_mask (int p) 32"
  using assms by (auto simp: given_def src_block_def block_def)

lemma place_keys:
  "map (\<lambda>x. fst (entry x)) (place b ss) = map raw ss"
  unfolding entry_def fst_conv
  by (metis (no_types, lifting) comp_apply map_map map_eq_conv place_fst)

lemma NetmapSubnets_capacity_keys:
  assumes "go_sort sorter" and "ParseIPNet dst = Inr D"
    and "mask_size (net_mask D) = (d, 32)" and "0 < d"
    and "map_r parse_src srcs = Inr infos" and "NetmapSubnets sorter srcs dst = Inr m"
  shows "set (map fst m) = set srcs"
proof -
  obtain b q infos' where "map_r parse_src srcs = Inr infos'"
    and m: "m = record_entries (map entry (place b (sorter prefix infos'))) []"
    by (rule NetmapSubnets_InrE [OF assms(1-4,6)])
  then have infos: "infos' = infos" using assms(5) by simp
  have "set (map fst m) = set (map raw (sorter prefix infos))"
    unfolding m infos record_entries_keys place_keys [of b, symmetric] by (simp add: comp_def)
  also have "\<dots> = set (map raw infos)"
    by (simp add: go_sort.sorter_set [OF assms(1)])
  finally show ?thesis using map_r_parse_src(1) [OF assms(5)] by simp
qed

lemma NetmapSubnets_entry_within:
  assumes "go_sort sorter" and "ParseIPNet dst = Inr D"
    and "mask_size (net_mask D) = (d, 32)" and "0 < d"
    and "NetmapSubnets sorter srcs dst = Inr m" and "(src, mapped) \<in> set m"
  shows "\<exists>s t. ParseIPNet src = Inr s \<and> ParseIPNet mapped = Inr t \<and> net_mask t = net_mask s \<and>
           (\<forall>x. net_contains t x \<longrightarrow> net_contains D x)"
proof -
  obtain b q infos where D: "D = block b q" "q \<le> 32" "block_size q dvd b" "b + block_size q \<le> 2 ^ 32"
    and "map_r parse_src srcs = Inr infos"
    and g: "\<forall>e \<in> set m. \<exists>x \<in> set (place b (sorter prefix infos)). e = entry x \<and>
           src_block (fst x) \<and> ParseIPNet (fst e) = Inr (src_ipnet (fst x)) \<and>
           (\<exists>p. given p x \<and> b \<le> snd x \<and> snd x + block_size p \<le> b + block_size q)"
    by (rule NetmapSubnets_given [OF assms(1-5)])
  obtain x p where x: "(src, mapped) = entry x" "src_block (fst x)"
    "ParseIPNet src = Inr (src_ipnet (fst x))" "given p x" "b \<le> snd x"
    "snd x + block_size p \<le> b + block_size q"
    using bspec [OF g assms(6)] by auto
  have "b < 2 ^ 32" using D(4) by (auto intro: less_le_trans [rotated])
  moreover have "ParseIPNet mapped = Inr (block (snd x) p)"
    using given_parse [OF x(4)] x(1) by (metis snd_conv)
  moreover have "net_mask (block (snd x) p) = net_mask (src_ipnet (fst x))"
    using given_src [OF x(4,2)] by (simp add: block_def)
  moreover have "net_contains (block (snd x) p) y \<longrightarrow> net_contains D y" for y
    unfolding given_contains [OF x(4)] D(1) net_contains_block [OF D(2,3) \<open>b < 2 ^ 32\<close>]
    using x(5,6) by auto
  ultimately show ?thesis using x(3) by blast
qed

lemma NetmapSubnets_entry_disjoint:
  assumes "go_sort sorter" and "ParseIPNet dst = Inr D"
    and "mask_size (net_mask D) = (d, 32)" and "0 < d"
    and "NetmapSubnets sorter srcs dst = Inr m"
    and "(src, mapped) \<in> set m" and "(src', mapped') \<in> set m" and "src \<noteq> src'"
  shows "\<exists>t t'. ParseIPNet mapped = Inr t \<and> ParseIPNet mapped' = Inr t' \<and>
           (\<forall>x. \<not> (net_contains t x \<and> net_contains t' x)) \<and> \<not> Overlap t t'"
proof -
  obtain b q infos where "D = block b q" "map_r parse_src srcs = Inr infos"
    and g: "\<forall>e \<in> set m. \<exists>x \<in> set (place b (sorter prefix infos)). e = entry x \<and>
           src_block (fst x) \<and> ParseIPNet (fst e) = Inr (src_ipnet (fst x)) \<and>
           (\<exists>p. given p x \<and> b \<le> snd x \<and> snd x + block_size p \<le> b + block_size q)"
    by (rule NetmapSubnets_given [OF assms(1-5)])
  obtain x p where x: "x \<in> set (place b (sorter prefix infos))" "(src, mapped) = entry x" "given p x"
    using bspec [OF g assms(6)] by auto
  obtain y r where y: "y \<in> set (place b (sorter prefix infos))" "(src', mapped') = entry y" "given r y"
    using bspec [OF g assms(7)] by auto
  have "x \<noteq> y" using x(2) y(2) assms(8) by (metis fst_conv)
  then have "snd x + block_size p \<le> snd y \<or> snd y + block_size r \<le> snd x"
    using place_disjoint [OF x(1) y(1)] x(3) y(3) by (simp add: given_def)
  then have no: "\<forall>z. \<not> (net_contains (block (snd x) p) z \<and> net_contains (block (snd y) r) z)"
    using x(3) y(3) by (auto simp: given_contains)
  have pm: "ParseIPNet mapped = Inr (block (snd x) p)" "ParseIPNet mapped' = Inr (block (snd y) r)"
    using given_parse [OF x(3)] given_parse [OF y(3)] x(2) y(2) by (metis snd_conv)+
  then have "\<not> Overlap (block (snd x) p) (block (snd y) r)"
    using no by (simp add: Overlap_shared ParseIPNet_prefix_net)
  with no pm show ?thesis by blast
qed


section \<open>Properties\<close>

text \<open>
  C1: \<^verbatim>\<open>NetmapSubnets\<close> succeeds exactly when the source networks fit: for an IPv4
  destination with a prefix of length \<open>d > 0\<close> and sources that parse, it returns a mapping if the
  sizes of the sources add up to at most the size of the destination, and an error otherwise.
  When it succeeds every source has an entry, and only sources have one.
\<close>

theorem NetmapSubnets_capacity:
  assumes "go_sort sorter" and "ParseIPNet dst = Inr D"
    and "mask_size (net_mask D) = (d, 32)" and "0 < d"
    and "map_r parse_src srcs = Inr infos"
  shows "if (\<Sum>s\<leftarrow>infos. 2 ^ (32 - nat (prefix s))) \<le> (2::nat) ^ (32 - nat d)
         then \<exists>m. NetmapSubnets sorter srcs dst = Inr m \<and> set (map fst m) = set srcs
                \<and> distinct (map fst m)
         else \<exists>e. NetmapSubnets sorter srcs dst = Inl e"
proof -
  have sum: "(\<Sum>s\<leftarrow>infos. 2 ^ (32 - nat (prefix s))) = total_size infos"
  proof -
    have "src_size = (\<lambda>s. 2 ^ (32 - nat (prefix s)))"
      by (simp add: fun_eq_iff src_size_def block_size_def)
    then show ?thesis by (simp add: total_size_def)
  qed
  obtain b q where "D = block b q" and q: "d = int q" and "q \<le> 32" and "block_size q dvd b"
    and "b + block_size q \<le> 2 ^ 32"
    and ok: "total_size infos \<le> block_size q \<longrightarrow> NetmapSubnets sorter srcs dst =
           Inr (record_entries (map entry (place b (sorter prefix infos))) [])"
    and err: "\<not> total_size infos \<le> block_size q \<longrightarrow> \<not> is_ok (NetmapSubnets sorter srcs dst)"
    by (rule NetmapSubnets_packs [OF assms])
  have keys: "set (map fst m) = set srcs" if "NetmapSubnets sorter srcs dst = Inr m" for m
    using that by (rule NetmapSubnets_capacity_keys [OF assms])
  show ?thesis
    using ok err keys record_entries_distinct [of "[]"]
    unfolding sum q by (cases "NetmapSubnets sorter srcs dst") (auto simp: block_size_def is_ok_def)
qed


text \<open>
  Every network that \<^verbatim>\<open>NetmapSubnets\<close> returns keeps the prefix length of its source and
  lies in the destination.
\<close>

theorem NetmapSubnets_within:
  assumes "go_sort sorter" and "ParseIPNet dst = Inr D"
    and "mask_size (net_mask D) = (d, 32)" and "0 < d"
    and "NetmapSubnets sorter srcs dst = Inr m" and "(src, mapped) \<in> set m"
  shows "\<exists>s t. ParseIPNet src = Inr s \<and> ParseIPNet mapped = Inr t \<and> net_mask t = net_mask s \<and>
           (\<forall>x. net_contains t x \<longrightarrow> net_contains D x)"
  using assms by (rule NetmapSubnets_entry_within)

text \<open>C2: no two networks that \<^verbatim>\<open>NetmapSubnets\<close> returns for different sources share an address.\<close>

theorem NetmapSubnets_disjoint:
  assumes "go_sort sorter" and "ParseIPNet dst = Inr D"
    and "mask_size (net_mask D) = (d, 32)" and "0 < d"
    and "NetmapSubnets sorter srcs dst = Inr m"
    and "(src, mapped) \<in> set m" and "(src', mapped') \<in> set m" and "src \<noteq> src'"
  shows "\<exists>t t'. ParseIPNet mapped = Inr t \<and> ParseIPNet mapped' = Inr t' \<and>
           (\<forall>x. \<not> (net_contains t x \<and> net_contains t' x)) \<and> \<not> Overlap t t'"
  using assms by (rule NetmapSubnets_entry_disjoint)

section \<open>Witnesses\<close>

lemmas netmap_defs = NetmapSubnets_def parse_src_def ParseIPNet_def CIDR_ToIPNet_def
  split_dsts_def subnetSplit_def subnet_at_def be32_def upt_rec netmapSubnet_def netmapIP_def

lemma example_dst:
  "ParseIPNet ''242.0.0.0/30'' = Inr \<lparr>net_ip = [242, 0, 0, 0], net_mask = [255, 255, 255, 252]\<rparr>"
  by (simp add: ParseIPNet_def net_eval)

lemma example_dst_size: "mask_size [255, 255, 255, 252] = (30, 32)"
  by (simp add: net_eval)

lemma example_infos:
  "map_r parse_src [''10.99.14.1/32'', ''10.100.80.0/31''] =
     Inr [\<lparr>raw = ''10.99.14.1/32'',
            src_ipnet = \<lparr>net_ip = [10, 99, 14, 1], net_mask = [255, 255, 255, 255]\<rparr>,
            prefix = 32\<rparr>,
          \<lparr>raw = ''10.100.80.0/31'',
            src_ipnet = \<lparr>net_ip = [10, 100, 80, 0], net_mask = [255, 255, 255, 254]\<rparr>,
            prefix = 31\<rparr>]"
  by (simp add: parse_src_def ParseIPNet_def CIDR_ToIPNet_def net_eval)

lemma example_mapping:
  "NetmapSubnets sort_key [''10.99.14.1/32'', ''10.100.80.0/31''] ''242.0.0.0/30'' =
     Inr [(''10.100.80.0/31'', ''242.0.0.0/31''), (''10.99.14.1/32'', ''242.0.0.2/32'')]"
  unfolding NetmapSubnets_def example_dst example_infos
  by (simp add: netmap_defs net_eval)

theorem NetmapSubnets_capacity_witness:
  "\<exists>m. NetmapSubnets sort_key [''10.99.14.1/32'', ''10.100.80.0/31''] ''242.0.0.0/30'' = Inr m \<and>
     set (map fst m) = {''10.99.14.1/32'', ''10.100.80.0/31''}"
  using NetmapSubnets_capacity [OF insertion_sort.go_sort_axioms example_dst _ _ example_infos,
      where d = 30]
  by (simp add: example_dst_size) blast

theorem NetmapSubnets_within_witness:
  "\<exists>s t. ParseIPNet ''10.99.14.1/32'' = Inr s \<and> ParseIPNet ''242.0.0.2/32'' = Inr t \<and>
     net_mask t = net_mask s \<and> (\<forall>x. net_contains t x \<longrightarrow>
       net_contains \<lparr>net_ip = [242, 0, 0, 0], net_mask = [255, 255, 255, 252]\<rparr> x)"
  by (rule NetmapSubnets_within [OF insertion_sort.go_sort_axioms example_dst _ _ example_mapping,
        where d = 30])
    (simp_all add: example_dst_size)

theorem NetmapSubnets_disjoint_witness:
  "\<exists>t t'. ParseIPNet ''242.0.0.0/31'' = Inr t \<and> ParseIPNet ''242.0.0.2/32'' = Inr t' \<and>
     (\<forall>x. \<not> (net_contains t x \<and> net_contains t' x)) \<and> \<not> Overlap t t'"
  by (rule NetmapSubnets_disjoint [OF insertion_sort.go_sort_axioms example_dst _ _ example_mapping,
        where d = 30 and src = "''10.100.80.0/31''" and src' = "''10.99.14.1/32''"])
    (simp_all add: example_dst_size)

end
