(* ===== verification/Netmap_NAT.thy ===== *)
theory Netmap_NAT
  imports Netmap_Proofs
begin

text \<open>
  The mapping of addresses and of lists of \<^verbatim>\<open>CIDR\<close>s, and the reserved ranges together: what
  the NETMAP rules of the VPN client and server rely on.
\<close>

section \<open>IPv4 networks\<close>

definition v4net :: "CIDR \<Rightarrow> bool" where
  "v4net c \<longleftrightarrow> (\<exists>b q. c = block b q \<and> q \<le> 32 \<and> block_size q dvd b \<and> b + block_size q \<le> 2 ^ 32)"

lemma v4netI: "ParseIPNet s = Inr c \<Longrightarrow> mask_size (net_mask c) = (d, 32) \<Longrightarrow> v4net c"
  by (erule ParseIPNet_v4_block) (auto simp: v4net_def)

lemma v4net_parse: "v4net c \<Longrightarrow> ParseIPNet (CIDR_String c) = Inr c"
  by (auto simp: v4net_def parse_cidr_string_block)

lemma v4net_mask_size: "v4net c \<Longrightarrow> snd (mask_size (net_mask c)) = 32"
  by (auto simp: v4net_def block_def mask_size_cidr_mask)

lemma v4net_string_inj: "v4net c \<Longrightarrow> v4net d \<Longrightarrow> CIDR_String c = CIDR_String d \<Longrightarrow> c = d"
  using v4net_parse by (metis sum.inject(2))

section \<open>Addresses\<close>

text \<open>What \<^const>\<open>netmapIP\<close> computes for a 4-byte address and network, byte by byte.\<close>

lemma netmapIP_4:
  assumes "to4 a = Some v" and "to4 (net_ip n) = Some b" and "length (net_mask n) = 4"
  shows "netmapIP a n = Inr (map (\<lambda>i. v ! i AND NOT (net_mask n ! i) OR b ! i) [0..<4])"
  using assms to4_length [OF assms(1)] by (simp add: netmapIP_def)

lemma v4net_bytes:
  assumes "v4net n"
  shows "length (net_ip n) = 4" and "length (net_mask n) = 4"
    and "network_number_and_mask n = (net_ip n, net_mask n)"
    and "i < 4 \<Longrightarrow> net_ip n ! i AND net_mask n ! i = net_ip n ! i"
proof -
  obtain b q where n: "n = block b q" "q \<le> 32" "block_size q dvd b"
    using assms by (auto simp: v4net_def)
  show len: "length (net_ip n) = 4" "length (net_mask n) = 4"
    using n by (simp_all add: block_def cidr_mask_length)
  show "network_number_and_mask n = (net_ip n, net_mask n)"
    using n by (simp add: block_network_number) (simp add: block_def)
  have "map2 (AND) (net_ip n) (net_mask n) = net_ip n"
    using n by (simp add: block_def block_masked)
  from arg_cong [OF this, of "\<lambda>l. l ! i"]
  show "i < 4 \<Longrightarrow> net_ip n ! i AND net_mask n ! i = net_ip n ! i"
    using len by simp
qed

lemma v4net_contains:
  assumes "v4net n" and "to4 a = Some v"
  shows "net_contains n a \<longleftrightarrow> (\<forall>i < 4. v ! i AND net_mask n ! i = net_ip n ! i)"
proof -
  note b = v4net_bytes [OF assms(1)]
  have v: "norm_ip a = v" "length v = 4"
    using assms(2) by (simp_all add: norm_ip_def to4_length)
  have "net_contains n a \<longleftrightarrow> map2 (AND) (net_ip n) (net_mask n) = map2 (AND) v (net_mask n)"
    using v b(1) by (simp add: net_contains_eq [OF b(3)])
  also have "\<dots> \<longleftrightarrow> (\<forall>i < 4. net_ip n ! i AND net_mask n ! i = v ! i AND net_mask n ! i)"
    using v b(1,2) by (auto simp: list_eq_iff_nth_eq)
  also have "\<dots> \<longleftrightarrow> (\<forall>i < 4. v ! i AND net_mask n ! i = net_ip n ! i)"
    by (metis b(4))
  finally show ?thesis .
qed

lemma to4_4_map [simp]: "to4 (map f [0..<4]) = Some (map f [0..<4])"
  by simp

text \<open>A shorter mask is part of a longer one.\<close>

lemma bit_ff: "bit (0xff :: byte) k \<longleftrightarrow> k < 8"
proof -
  have ff: "(0xff :: byte) = mask 8" by (simp add: mask_eq_exp_minus_1)
  show ?thesis unfolding ff bit_mask_iff by simp
qed

lemma byte_and_ff: "(w :: byte) AND 0xff = w"
  by (rule bit_word_eqI) (simp only: bit_and_iff bit_ff, simp)

lemma mask_byte_mono: "p \<le> q \<Longrightarrow> NOT (drop_bit p 0xff) AND NOT (drop_bit q 0xff) = (NOT (drop_bit p 0xff) :: byte)"
  by (rule bit_word_eqI) (auto simp only: bit_and_iff bit_not_iff bit_drop_bit_eq comp_apply bit_ff, linarith?)

lemma mask_bytes_mono: "p \<le> q \<Longrightarrow> i < l \<Longrightarrow> mask_bytes l p ! i AND mask_bytes l q ! i = mask_bytes l p ! i"
proof (induction l arbitrary: p q i)
  case (Suc l)
  show ?case
  proof (cases i)
    case 0
    then show ?thesis using Suc.prems mask_byte_mono by (auto simp: byte_and_ff)
  next
    case (Suc j)
    then show ?thesis using Suc.prems Suc.IH by simp
  qed
qed simp

definition submask :: "ip \<Rightarrow> ip \<Rightarrow> bool" where
  "submask k l \<longleftrightarrow> (\<forall>i < 4. k ! i AND l ! i = k ! i)"

lemma submask_refl: "submask k k"
  by (simp add: submask_def)

lemma v4net_submask:
  assumes "v4net n" and "v4net m" and "fst (mask_size (net_mask m)) \<le> fst (mask_size (net_mask n))"
  shows "submask (net_mask m) (net_mask n)"
proof -
  obtain b q b' q' where "n = block b q" "q \<le> 32" "m = block b' q'" "q' \<le> 32"
    using assms(1,2) by (auto simp: v4net_def)
  then have "net_mask n = mask_bytes 4 q" "net_mask m = mask_bytes 4 q'" "q' \<le> q"
    using assms(3) by (simp_all add: block_def mask_size_cidr_mask) (simp_all add: cidr_mask_def)
  then show ?thesis by (simp add: submask_def mask_bytes_mono)
qed

text \<open>Joining host and network bits of a byte.\<close>

lemma byte_join:
  fixes w k c l :: byte
  shows "w AND NOT k OR w AND k = w" and "c AND k = c \<Longrightarrow> (w AND NOT k OR c) AND k = c"
    and "c AND k = c \<Longrightarrow> k AND l = k \<Longrightarrow> (w AND NOT k OR c) AND NOT l = w AND NOT l"
proof -
  show "w AND NOT k OR w AND k = w" by (rule bit_word_eqI) (auto simp: bit_simps)
  show "(w AND NOT k OR c) AND k = c" if "c AND k = c"
    by (subst that [symmetric], rule bit_word_eqI, auto simp: bit_simps)+
  assume "c AND k = c" "k AND l = k"
  then have "bit c i \<Longrightarrow> bit k i" "bit k i \<Longrightarrow> bit l i" for i
    by (metis bit_and_iff)+
  then show "(w AND NOT k OR c) AND NOT l = w AND NOT l"
    by (intro bit_word_eqI) (auto simp: bit_simps)
qed

lemma netmapIP_roundtrip_bytes:
  assumes "v4net n" and "v4net m" and "submask (net_mask m) (net_mask n)"
    and "to4 a = Some v" and "net_contains n a"
  shows "\<exists>y. netmapIP a m = Inr y \<and> length y = 4 \<and> net_contains m y \<and>
           (\<forall>i < 4. y ! i AND NOT (net_mask n ! i) = v ! i AND NOT (net_mask n ! i)) \<and>
           netmapIP y n = Inr v"
proof -
  note n = assms(1) and m = assms(2)
  note bn = v4net_bytes [OF n] and bm = v4net_bytes [OF m]
  let ?y = "map (\<lambda>i. v ! i AND NOT (net_mask m ! i) OR net_ip m ! i) [0..<4]"
  have y: "netmapIP a m = Inr ?y"
    using assms(4) bm by (intro netmapIP_4) simp_all
  moreover have "net_contains m ?y"
    using bm(4) byte_join(2) by (simp add: v4net_contains [OF m])
  moreover have host: "?y ! i AND NOT (net_mask n ! i) = v ! i AND NOT (net_mask n ! i)" if "i < 4" for i
    using that bm(4) assms(3) by (simp add: submask_def byte_join(3))
  moreover have "netmapIP ?y n = Inr v"
  proof -
    have "netmapIP ?y n = Inr (map (\<lambda>i. ?y ! i AND NOT (net_mask n ! i) OR net_ip n ! i) [0..<4])"
      using bn by (intro netmapIP_4) simp_all
    moreover have "?y ! i AND NOT (net_mask n ! i) OR net_ip n ! i = v ! i" if i: "i < 4" for i
    proof -
      have ni: "net_ip n ! i = v ! i AND net_mask n ! i"
        using assms(5) i by (simp add: v4net_contains [OF n assms(4)])
      show ?thesis by (simp only: host [OF i] ni byte_join(1))
    qed
    then have "map (\<lambda>i. ?y ! i AND NOT (net_mask n ! i) OR net_ip n ! i) [0..<4] = map ((!) v) [0..<length v]"
      using to4_length [OF assms(4)] by (intro map_cong) simp_all
    ultimately show ?thesis by (simp only: map_nth)
  qed
  ultimately show ?thesis by fastforce
qed

text \<open>
  C4: NETMAP from an IPv4 network \<open>n\<close> into one whose prefix is not longer is invertible: an address
  of \<open>n\<close> is mapped to an address of \<open>m\<close>, with the host bits kept, and mapping that address
  back into \<open>n\<close> gives the original one.
\<close>

theorem netmapIP_roundtrip:
  assumes "ParseIPNet s = Inr n" and "ParseIPNet t = Inr m"
    and "mask_size (net_mask n) = (d, 32)" and "mask_size (net_mask m) = (e, 32)" and "e \<le> d"
    and "to4 a = Some v" and "net_contains n a"
  shows "\<exists>y. netmapIP a m = Inr y \<and> net_contains m y \<and>
           (\<forall>i < 4. y ! i AND NOT (net_mask n ! i) = v ! i AND NOT (net_mask n ! i)) \<and>
           netmapIP y n = Inr v"
proof -
  have n: "v4net n" and m: "v4net m" using assms(1-4) v4netI by blast+
  then have "submask (net_mask m) (net_mask n)" using assms(3-5) by (intro v4net_submask) simp_all
  from netmapIP_roundtrip_bytes [OF n m this assms(6,7)] show ?thesis by blast
qed

section \<open>Lists of networks\<close>

lemma list_all2_in_set: "list_all2 P xs ys \<Longrightarrow> y \<in> set ys \<Longrightarrow> \<exists>x \<in> set xs. P x y"
  by (induction rule: list_all2_induct) auto

lemma map_r_mapping_entry:
  assumes "map_r parse_mapping es = Inr ms" and "(s, t) \<in> set ms"
  obtains e where "e \<in> set es" and "ParseIPNet (fst e) = Inr s" and "ParseIPNet (snd e) = Inr t"
proof -
  have "list_all2 (\<lambda>e x. parse_mapping e = Inr x) es ms"
    using assms(1) by (simp add: map_r_Inr)
  then obtain e where "e \<in> set es" "parse_mapping e = Inr (s, t)"
    using list_all2_in_set [OF _ assms(2)] by blast
  then show thesis
    using that by (auto simp: parse_mapping_def split: sum.splits)
qed

lemma map_r_mapping_sources:
  assumes "map_r parse_mapping es = Inr ms"
  shows "map (\<lambda>e. ParseIPNet (fst e)) es = map (\<lambda>x. Inr (fst x)) ms"
proof -
  have "list_all2 (\<lambda>e x. parse_mapping e = Inr x) es ms"
    using assms by (simp add: map_r_Inr)
  then show ?thesis
    by (induction rule: list_all2_induct) (auto simp: parse_mapping_def split: sum.splits)
qed

text \<open>What a mapping of a list of \<^verbatim>\<open>CIDR\<close>s into a destination must be.\<close>

definition good_mapping :: "CIDR list \<Rightarrow> CIDR \<Rightarrow> (CIDR \<times> CIDR) list \<Rightarrow> bool" where
  "good_mapping srcs D ms \<longleftrightarrow>
     set (map fst ms) = set srcs \<and>
     (\<forall>(s, t) \<in> set ms. net_mask t = net_mask s \<and> prefix_net t \<and>
        (\<forall>x. net_contains t x \<longrightarrow> net_contains D x)) \<and>
     (\<forall>(s, t) \<in> set ms. \<forall>(s', t') \<in> set ms. s \<noteq> s' \<longrightarrow> \<not> Overlap t t')"

lemma NetmapCIDRs_good:
  assumes sorter: "go_sort sorter" and visit: "go_range visit"
    and srcs: "\<forall>c \<in> set srcs. v4net c" and D: "v4net D" "mask_size (net_mask D) = (d, 32)" "0 < d"
    and run: "NetmapCIDRs sorter visit srcs D = Inr ms"
  shows "good_mapping srcs D ms"
proof -
  let ?strs = "map CIDR_String srcs"
  obtain m where m: "NetmapSubnets sorter ?strs (CIDR_String D) = Inr m"
    and ms: "map_r parse_mapping (visit m) = Inr ms"
    using run by (auto simp: NetmapCIDRs_def Let_def split: sum.splits)
  note dst = v4net_parse [OF D(1)]
  obtain infos where infos: "map_r parse_src ?strs = Inr infos"
    using m dst by (auto simp: NetmapSubnets_def result_simps)
  have keys: "set (map fst m) = set ?strs"
    using NetmapSubnets_capacity_keys [OF sorter dst D(2,3) infos m] .
  note vset = go_range.visit_set [OF visit, of m]
  have entry: "\<exists>k v. (k, v) \<in> set m \<and> ParseIPNet k = Inr s \<and> ParseIPNet v = Inr t" if "(s, t) \<in> set ms" for s t
    using map_r_mapping_entry [OF ms that] vset by (metis prod.collapse)
  have "set (map (\<lambda>x. Inr (fst x) :: net_error + CIDR) ms) = ParseIPNet ` set (map fst (visit m))"
    unfolding map_r_mapping_sources [OF ms, symmetric] by (simp add: image_image)
  also have "\<dots> = ParseIPNet ` set ?strs"
    using keys vset by simp
  also have "\<dots> = Inr ` set srcs"
    using srcs by (force simp: v4net_parse image_image)
  finally have "(Inr :: _ \<Rightarrow> net_error + CIDR) ` set (map fst ms) = Inr ` set srcs"
    by (simp add: image_image)
  then have fsts: "set (map fst ms) = set srcs"
    by (rule inj_image_eq_iff [THEN iffD1, rotated]) simp
  have within: "net_mask t = net_mask s \<and> prefix_net t \<and> (\<forall>x. net_contains t x \<longrightarrow> net_contains D x)"
    if st: "(s, t) \<in> set ms" for s t
  proof -
    obtain k v where "(k, v) \<in> set m" "ParseIPNet k = Inr s" "ParseIPNet v = Inr t"
      using entry [OF st] by blast
    then show ?thesis
      using NetmapSubnets_entry_within [OF sorter dst D(2,3) m] by (fastforce intro: ParseIPNet_prefix_net)
  qed
  have "\<not> Overlap t t'" if st: "(s, t) \<in> set ms" "(s', t') \<in> set ms" "s \<noteq> s'" for s t s' t'
  proof -
    obtain k v k' v' where kv: "(k, v) \<in> set m" "ParseIPNet k = Inr s" "ParseIPNet v = Inr t"
      "(k', v') \<in> set m" "ParseIPNet k' = Inr s'" "ParseIPNet v' = Inr t'"
      using entry [of s t] entry [of s' t'] st by blast
    then have "k \<noteq> k'" using st(3) by auto
    then show ?thesis
      using NetmapSubnets_entry_disjoint [OF sorter dst D(2,3) m kv(1,4)] kv by fastforce
  qed
  with fsts within show ?thesis unfolding good_mapping_def by blast
qed

section \<open>The reserved ranges\<close>

text \<open>
  The contract of the reserved ranges: each is an IPv4 network with a prefix of positive
  length, and no two of them overlap.
\<close>

definition range_ok :: "string \<Rightarrow> bool" where
  "range_ok s \<longleftrightarrow> (\<exists>D d. ParseIPNet s = Inr D \<and> mask_size (net_mask D) = (d, 32) \<and> 0 < d)"

definition ranges_ok :: "mapped_ranges \<Rightarrow> bool" where
  "ranges_ok r \<longleftrightarrow>
     range_ok (ShootPodNetworkMapped r) \<and> range_ok (ShootServiceNetworkMapped r) \<and>
     range_ok (ShootNodeNetworkMapped r) \<and>
     \<not> Overlap (ParseIPNetIgnoreError (ShootPodNetworkMapped r))
               (ParseIPNetIgnoreError (ShootServiceNetworkMapped r)) \<and>
     \<not> Overlap (ParseIPNetIgnoreError (ShootPodNetworkMapped r))
               (ParseIPNetIgnoreError (ShootNodeNetworkMapped r)) \<and>
     \<not> Overlap (ParseIPNetIgnoreError (ShootServiceNetworkMapped r))
               (ParseIPNetIgnoreError (ShootNodeNetworkMapped r))"

text \<open>A network read from the configuration: IPv4 ones have a 32-bit mask.\<close>

definition config_net :: "CIDR \<Rightarrow> bool" where
  "config_net c \<longleftrightarrow> (\<exists>s. ParseIPNet s = Inr c) \<and>
     (CIDR_IsIPv4 c \<longrightarrow> snd (mask_size (net_mask c)) = 32)"

lemma config_net_v4: "config_net c \<Longrightarrow> CIDR_IsIPv4 c \<Longrightarrow> v4net c"
  unfolding config_net_def by (metis prod.collapse v4netI)

lemma range_okE:
  assumes "range_ok s"
  obtains d where "v4net (ParseIPNetIgnoreError s)"
    and "mask_size (net_mask (ParseIPNetIgnoreError s)) = (d, 32)" and "0 < d"
proof -
  obtain D d where D: "ParseIPNet s = Inr D" "mask_size (net_mask D) = (d, 32)" "0 < d"
    using assms by (auto simp: range_ok_def)
  then have "ParseIPNetIgnoreError s = D" by (simp add: ParseIPNetIgnoreError_def)
  with D show thesis using that v4netI by blast
qed

lemma NetmapCIDRs_range:
  assumes "go_sort sorter" and "go_range visit" and "\<forall>c \<in> set nws. config_net c" and "range_ok s"
    and "NetmapCIDRs sorter visit (GetByIPFamily nws IPv4Family) (ParseIPNetIgnoreError s) = Inr ms"
  shows "good_mapping (filter CIDR_IsIPv4 nws) (ParseIPNetIgnoreError s) ms"
proof -
  obtain d where "v4net (ParseIPNetIgnoreError s)"
    "mask_size (net_mask (ParseIPNetIgnoreError s)) = (d, 32)" "0 < d"
    using assms(4) by (rule range_okE)
  then show ?thesis
    using assms(3,5) NetmapCIDRs_good [OF assms(1,2)] config_net_v4
    by (simp add: GetByIPFamily_4)
qed

lemma good_mapping_apart:
  assumes "good_mapping srcs D ms" and "good_mapping srcs' D' ms'" and "prefix_net D" and "prefix_net D'"
    and "\<not> Overlap D D'" and "(s, t) \<in> set ms" and "(s', t') \<in> set ms'"
  shows "\<not> Overlap t t'"
proof -
  have t: "prefix_net t" "\<forall>x. net_contains t x \<longrightarrow> net_contains D x"
    using assms(1,6) by (auto simp: good_mapping_def)
  have t': "prefix_net t'" "\<forall>x. net_contains t' x \<longrightarrow> net_contains D' x"
    using assms(2,7) by (auto simp: good_mapping_def)
  show ?thesis
    using assms(5) t t' by (simp add: Overlap_shared assms(3,4)) blast
qed

lemma range_ok_prefix_net: "range_ok s \<Longrightarrow> prefix_net (ParseIPNetIgnoreError s)"
  by (auto simp: range_ok_def ParseIPNetIgnoreError_def ParseIPNet_prefix_net)

lemma ShootNetworksForNetmap_parts:
  assumes "ShootNetworksForNetmap rng sorter visit pods services nodes = Inr (mp, ms, mn)"
  shows "NetmapCIDRs sorter visit (GetByIPFamily pods IPv4Family)
           (ParseIPNetIgnoreError (ShootPodNetworkMapped rng)) = Inr mp"
    and "NetmapCIDRs sorter visit (GetByIPFamily services IPv4Family)
           (ParseIPNetIgnoreError (ShootServiceNetworkMapped rng)) = Inr ms"
    and "NetmapCIDRs sorter visit (GetByIPFamily nodes IPv4Family)
           (ParseIPNetIgnoreError (ShootNodeNetworkMapped rng)) = Inr mn"
  using assms by (auto simp: ShootNetworksForNetmap_def Let_def split: sum.splits)

text \<open>
  C3: when \<^verbatim>\<open>ShootNetworksForNetmap\<close> succeeds, each of its three results maps exactly the IPv4
  networks of its list, keeps the masks and stays within its reserved range, and no two of all the
  mapped networks, whichever the lists of their sources, overlap.
\<close>

theorem ShootNetworksForNetmap_separates:
  assumes "go_sort sorter" and "go_range visit" and "ranges_ok rng"
    and "\<forall>c \<in> set pods \<union> set services \<union> set nodes. config_net c"
    and "ShootNetworksForNetmap rng sorter visit pods services nodes = Inr (mp, ms, mn)"
  shows "good_mapping (filter CIDR_IsIPv4 pods) (ParseIPNetIgnoreError (ShootPodNetworkMapped rng)) mp \<and>
         good_mapping (filter CIDR_IsIPv4 services)
           (ParseIPNetIgnoreError (ShootServiceNetworkMapped rng)) ms \<and>
         good_mapping (filter CIDR_IsIPv4 nodes)
           (ParseIPNetIgnoreError (ShootNodeNetworkMapped rng)) mn \<and>
         (\<forall>(s, t) \<in> set mp. \<forall>(s', t') \<in> set ms \<union> set mn. \<not> Overlap t t') \<and>
         (\<forall>(s, t) \<in> set ms. \<forall>(s', t') \<in> set mn. \<not> Overlap t t')"
proof -
  note parts = ShootNetworksForNetmap_parts [OF assms(5)]
  have ok: "range_ok (ShootPodNetworkMapped rng)" "range_ok (ShootServiceNetworkMapped rng)"
    "range_ok (ShootNodeNetworkMapped rng)"
    using assms(3) by (simp_all add: ranges_ok_def)
  note range = NetmapCIDRs_range [OF assms(1,2)]
  have p: "good_mapping (filter CIDR_IsIPv4 pods) (ParseIPNetIgnoreError (ShootPodNetworkMapped rng)) mp"
    using range [OF _ ok(1) parts(1)] assms(4) by blast
  have s: "good_mapping (filter CIDR_IsIPv4 services)
             (ParseIPNetIgnoreError (ShootServiceNetworkMapped rng)) ms"
    using range [OF _ ok(2) parts(2)] assms(4) by blast
  have n: "good_mapping (filter CIDR_IsIPv4 nodes)
             (ParseIPNetIgnoreError (ShootNodeNetworkMapped rng)) mn"
    using range [OF _ ok(3) parts(3)] assms(4) by blast
  note apart = good_mapping_apart [OF _ _ range_ok_prefix_net range_ok_prefix_net]
  have no: "\<not> Overlap (ParseIPNetIgnoreError (ShootPodNetworkMapped rng))
                     (ParseIPNetIgnoreError (ShootServiceNetworkMapped rng))"
    "\<not> Overlap (ParseIPNetIgnoreError (ShootPodNetworkMapped rng))
              (ParseIPNetIgnoreError (ShootNodeNetworkMapped rng))"
    "\<not> Overlap (ParseIPNetIgnoreError (ShootServiceNetworkMapped rng))
              (ParseIPNetIgnoreError (ShootNodeNetworkMapped rng))"
    using assms(3) by (simp_all add: ranges_ok_def)
  show ?thesis
    using p s n apart [OF p s ok(1,2) no(1)] apart [OF p n ok(1,3) no(2)] apart [OF s n ok(2,3) no(3)]
    by blast
qed

section \<open>Witnesses\<close>

lemma example_net:
  "ParseIPNet ''10.1.2.0/24'' = Inr \<lparr>net_ip = [10, 1, 2, 0], net_mask = [255, 255, 255, 0]\<rparr>"
  "ParseIPNet ''244.7.0.0/24'' = Inr \<lparr>net_ip = [244, 7, 0, 0], net_mask = [255, 255, 255, 0]\<rparr>"
  by (simp_all add: ParseIPNet_def net_eval)

theorem netmapIP_roundtrip_witness:
  "\<exists>y. netmapIP [10, 1, 2, 77] \<lparr>net_ip = [244, 7, 0, 0], net_mask = [255, 255, 255, 0]\<rparr> = Inr y \<and>
     netmapIP y \<lparr>net_ip = [10, 1, 2, 0], net_mask = [255, 255, 255, 0]\<rparr> = Inr [10, 1, 2, 77]"
  using netmapIP_roundtrip [OF example_net, of 24 24 "[10, 1, 2, 77]" "[10, 1, 2, 77]"]
  by (simp add: net_eval net_contains_def network_number_and_mask_def) blast

text \<open>Small ranges, so that the subnets can be enumerated.\<close>

definition example_ranges :: mapped_ranges where
  "example_ranges = \<lparr>ShootPodNetworkMapped = ''244.0.0.0/30'', ShootServiceNetworkMapped = ''243.0.0.0/30'',
     ShootNodeNetworkMapped = ''242.0.0.0/30'', SeedPodNetworkMapped = ''241.0.0.0/30''\<rparr>"

lemma example_ranges_parse:
  "ParseIPNet ''244.0.0.0/30'' = Inr \<lparr>net_ip = [244, 0, 0, 0], net_mask = [255, 255, 255, 252]\<rparr>"
  "ParseIPNet ''243.0.0.0/30'' = Inr \<lparr>net_ip = [243, 0, 0, 0], net_mask = [255, 255, 255, 252]\<rparr>"
  "ParseIPNet ''242.0.0.0/30'' = Inr \<lparr>net_ip = [242, 0, 0, 0], net_mask = [255, 255, 255, 252]\<rparr>"
  by (simp_all add: ParseIPNet_def net_eval)

lemma example_ranges_ok: "ranges_ok example_ranges"
  by (simp add: ranges_ok_def range_ok_def example_ranges_def ParseIPNetIgnoreError_def
      example_ranges_parse example_dst_size)
    (simp add: Overlap_def CIDR_ToIPNet_def net_contains_def network_number_and_mask_def net_eval)

definition example_cidr :: "byte \<Rightarrow> CIDR" where
  "example_cidr b = \<lparr>net_ip = [10, b, 0, 0], net_mask = [255, 255, 255, 254]\<rparr>"

lemma example_cidr_config: "config_net (example_cidr 1)" "config_net (example_cidr 2)"
proof -
  have p: "ParseIPNet ''10.1.0.0/31'' = Inr (example_cidr 1)" "ParseIPNet ''10.2.0.0/31'' = Inr (example_cidr 2)"
    by (simp_all add: ParseIPNet_def example_cidr_def net_eval)
  show "config_net (example_cidr 1)" "config_net (example_cidr 2)"
    using p by (auto simp: config_net_def example_cidr_def net_eval)
qed

lemma example_NetmapCIDRs:
  "NetmapCIDRs sort_key (\<lambda>m. m) [example_cidr 1] \<lparr>net_ip = [244, 0, 0, 0], net_mask = [255, 255, 255, 252]\<rparr> =
     Inr [(example_cidr 1, \<lparr>net_ip = [244, 0, 0, 0], net_mask = [255, 255, 255, 254]\<rparr>)]"
  "NetmapCIDRs sort_key (\<lambda>m. m) [example_cidr 2] \<lparr>net_ip = [243, 0, 0, 0], net_mask = [255, 255, 255, 252]\<rparr> =
     Inr [(example_cidr 2, \<lparr>net_ip = [243, 0, 0, 0], net_mask = [255, 255, 255, 254]\<rparr>)]"
  "NetmapCIDRs sort_key (\<lambda>m. m) [] \<lparr>net_ip = [242, 0, 0, 0], net_mask = [255, 255, 255, 252]\<rparr> = Inr []"
  by (simp_all add: NetmapCIDRs_def example_cidr_def CIDR_String_def parse_mapping_def netmap_defs net_eval)

lemma example_cidr_v4: "CIDR_IsIPv4 (example_cidr b)"
  by (simp add: example_cidr_def CIDR_IsIPv4_def)

lemma example_ShootNetworks:
  "ShootNetworksForNetmap example_ranges sort_key (\<lambda>m. m) [example_cidr 1] [example_cidr 2] [] =
     Inr ([(example_cidr 1, \<lparr>net_ip = [244, 0, 0, 0], net_mask = [255, 255, 255, 254]\<rparr>)],
          [(example_cidr 2, \<lparr>net_ip = [243, 0, 0, 0], net_mask = [255, 255, 255, 254]\<rparr>)], [])"
  by (simp add: ShootNetworksForNetmap_def example_ranges_def ParseIPNetIgnoreError_def
      example_ranges_parse example_NetmapCIDRs GetByIPFamily_4 example_cidr_v4)

theorem ShootNetworksForNetmap_separates_witness:
  "\<not> Overlap \<lparr>net_ip = [244, 0, 0, 0], net_mask = [255, 255, 255, 254]\<rparr>
            \<lparr>net_ip = [243, 0, 0, 0], net_mask = [255, 255, 255, 254]\<rparr>"
  using ShootNetworksForNetmap_separates
    [OF insertion_sort.go_sort_axioms insertion_order.go_range_axioms example_ranges_ok _ example_ShootNetworks]
    example_cidr_config
  by auto

end
