(* ===== verification/Net_Addr.thy ===== *)
theory Net_Addr
  imports Net_Types
begin

text \<open>
  \<^verbatim>\<open>pkg/network/ip.go\<close>: how the VPN network, an IPv6 network of prefix length 96, is divided
  between the tunnels of the VPN servers, the bonding addresses of the shoot clients and the pool
  of the seed clients; and \<^verbatim>\<open>pkg/constants\<close>, as far as it is used for that.
\<close>

section \<open>Definitions\<close>

definition BondDevice :: string where "BondDevice = ''bond0''"
definition TapDevice :: string where "TapDevice = ''tap0''"

definition addrLen :: int where "addrLen = 128"
definition bondPrefixSize :: int where "bondPrefixSize = 104"
definition vpnTunnelPrefixSize :: int where "vpnTunnelPrefixSize = 112"
definition bondStartSeed :: byte where "bondStartSeed = 0xa"
definition bondStartShoot :: byte where "bondStartShoot = 0xb"
definition startIndexSeed :: int where "startIndexSeed = 1"
definition endIndexSeed :: int where "endIndexSeed = 0xffff"

text \<open>
  Writing an element of the slice that \<^verbatim>\<open>To16\<close> returned panics when that is nil.  The
  conversion of an \<^verbatim>\<open>int\<close> to a \<^verbatim>\<open>byte\<close> keeps its lowest 8 bits.
\<close>

definition BondingShootClientIP :: "ipnet \<Rightarrow> int \<Rightarrow> net_error + ip" where
  "BondingShootClientIP vpnNetwork index =
     (case to16 (net_ip vpnNetwork) of
        None \<Rightarrow> Inl Panic
      | Some a \<Rightarrow> Inr (a[15 := word_of_int (index AND 0xFF), 14 := 0, 13 := bondStartShoot]))"

definition BondingAddressForClient :: "ip \<Rightarrow> ipnet" where
  "BondingAddressForClient a = \<lparr>net_ip = a, net_mask = cidr_mask bondPrefixSize addrLen\<rparr>"

definition BondingShootClientAddress :: "ipnet \<Rightarrow> int \<Rightarrow> net_error + ipnet" where
  "BondingShootClientAddress vpnNetwork vpnClientIndex =
     bind_r (BondingShootClientIP vpnNetwork vpnClientIndex) (\<lambda>a. Inr (BondingAddressForClient a))"

text \<open>\<^verbatim>\<open>make\<close> panics on a negative length.\<close>

definition AllBondingShootClientIPs :: "ipnet \<Rightarrow> int \<Rightarrow> net_error + ip list" where
  "AllBondingShootClientIPs vpnNetwork haVPNClients =
     (if haVPNClients < 0 then Inl Panic
      else map_r (\<lambda>i. BondingShootClientIP vpnNetwork (int i)) [0..<nat haVPNClients])"

definition BondingSeedClientRange :: "ip \<Rightarrow> net_error + ip \<times> int \<times> int" where
  "BondingSeedClientRange vpnNetworkIP =
     (case to16 vpnNetworkIP of
        None \<Rightarrow> Inl Panic
      | Some base \<Rightarrow>
          Inr (base[15 := 0, 14 := 0, 13 := bondStartSeed], startIndexSeed, endIndexSeed))"

definition ClientIndexFromBondingShootClientIP :: "ip \<Rightarrow> net_error + int" where
  "ClientIndexFromBondingShootClientIP clientIP =
     (if clientIP = [] then Inl Panic else Inr (uint (clientIP ! (length clientIP - 1))))"

definition BondIP6TunnelLinkName :: "int \<Rightarrow> string" where
  "BondIP6TunnelLinkName index = BondDevice @ ''-ip6tnl'' @ int_string index"

definition HAVPNTunnelNetwork :: "ip \<Rightarrow> int \<Rightarrow> net_error + CIDR" where
  "HAVPNTunnelNetwork vpnNetworkIP vpnIndex =
     (case to16 vpnNetworkIP of
        None \<Rightarrow> Inl Panic
      | Some base \<Rightarrow>
          Inr \<lparr>net_ip = base[15 := 0, 14 := 0, 13 := word_of_int (vpnIndex AND 0xFF), 12 := 1],
               net_mask = cidr_mask vpnTunnelPrefixSize addrLen\<rparr>)"

text \<open>The address with a given index in the pool of the seed clients (from \<^verbatim>\<open>broker.go\<close>).\<close>

definition pool_address :: "ip \<Rightarrow> int \<Rightarrow> int \<Rightarrow> ip" where
  "pool_address base endIndex index =
     (let a = base[length base - 1 := word_of_int (index AND 0xFF)]
      in if endIndex > 0xff
         then a[length a - 2 := word_of_int (drop_bit 8 index AND 0xFF)] else a)"

text \<open>\<^verbatim>\<open>validateVPNNetworkCIDR\<close> of \<^verbatim>\<open>pkg/config/vpnnetwork.go\<close>; \<^term>\<open>None\<close> is the nil error.\<close>

definition VPNNetworkMask :: int where "VPNNetworkMask = 96"

definition validateVPNNetworkCIDR :: "CIDR \<Rightarrow> go_error option" where
  "validateVPNNetworkCIDR cidr =
     (let (l, _) = mask_size (net_mask cidr)
      in if l \<noteq> VPNNetworkMask
         then Some (Errorf ''vpn network needs to have /%d subnet mask, got /%d''
                      [int_string VPNNetworkMask, int_string l])
         else None)"

section \<open>VPN networks\<close>

text \<open>
  What \<^const>\<open>validateVPNNetworkCIDR\<close> accepts, the networks that embed IPv4 addresses
  (\<^verbatim>\<open>::ffff:0:0/96\<close>) left out.
\<close>

definition vpn_net :: "CIDR \<Rightarrow> bool" where
  "vpn_net n \<longleftrightarrow> length (net_ip n) = 16 \<and> net_mask n = mask_bytes 16 96 \<and>
     drop 12 (net_ip n) = replicate 4 0 \<and> take 12 (net_ip n) \<noteq> v4_in_v6_prefix"

lemma map2_mask_bytes:
  assumes "length a = l" and "k \<le> l"
  shows "map2 (AND) a (mask_bytes l (8 * k)) = take k a @ replicate (l - k) 0"
  using assms
proof (induction l "8 * k" arbitrary: a k rule: mask_bytes.induct)
  case (2 l k)
  then obtain x xs where a: "a = x # xs" "length xs = l" by (cases a) auto
  show ?case
  proof (cases k)
    case 0
    with a show ?thesis
      by (simp add: mask_bytes_0) (simp add: list_eq_iff_nth_eq)
  next
    case (Suc j)
    have "x AND 0xff = x" for x :: byte
    proof -
      have "(0xff :: byte) = - 1" by simp
      then show ?thesis by (simp only: and.right_neutral)
    qed
    with Suc a 2 show ?thesis
      by simp
  qed
qed simp

lemma mask_size_mask_bytes_16: "n \<le> 128 \<Longrightarrow> mask_size (mask_bytes 16 n) = (int n, 128)"
  using mask_size_cidr_mask [of 128 "int n"] by (simp add: cidr_mask_def)

lemma vpn_netI:
  assumes "ParseIPNet s = Inr n" and "validateVPNNetworkCIDR n = None"
    and "take 12 (net_ip n) \<noteq> v4_in_v6_prefix"
  shows "vpn_net n"
proof -
  obtain x where "parse_cidr s = Some (x, n)"
    using assms(1) by (auto simp: ParseIPNet_def split: option.splits)
  then obtain a p where a: "length a = 4 \<or> length a = 16" "p \<le> 8 * length a"
    "net_ip n = map2 (AND) a (mask_bytes (length a) p)" "net_mask n = mask_bytes (length a) p"
    by (rule parse_cidr_shape)
  have m: "mask_bytes (length a) p = cidr_mask (int p) (8 * int (length a))"
    using a(1,2) by (auto simp: cidr_mask_def)
  have "int p = 96"
    using assms(2) a(1,2) unfolding validateVPNNetworkCIDR_def a(4) m
    by (auto simp: mask_size_cidr_mask VPNNetworkMask_def split: if_splits)
  then have "p = 8 * 12" "length a = 16" using a(1,2) by auto
  with a(3,4) assms(3) show ?thesis
    by (simp add: vpn_net_def map2_mask_bytes [of a 16 12, simplified])
qed

lemma vpn_netE:
  assumes "vpn_net n"
  obtains p where "length p = 12" and "p \<noteq> v4_in_v6_prefix" and "net_ip n = p @ [0, 0, 0, 0]"
    and "net_mask n = mask_bytes 16 (8 * 12)"
proof -
  have r: "replicate 4 (0 :: byte) = [0, 0, 0, 0]" by (simp add: numeral_eq_Suc)
  have "net_ip n = take 12 (net_ip n) @ [0, 0, 0, 0]"
    using assms append_take_drop_id [of 12 "net_ip n"] by (simp only: vpn_net_def r)
  then show thesis
    using assms that [of "take 12 (net_ip n)"] by (simp add: vpn_net_def)
qed

lemma to16_16 [simp]: "length a = 16 \<Longrightarrow> to16 a = Some a"
  by (simp add: to16_def)

text \<open>Addresses whose first 12 bytes are not those of an embedded IPv4 address.\<close>

lemma to4_v6: "length p = 12 \<Longrightarrow> p \<noteq> v4_in_v6_prefix \<Longrightarrow> to4 (p @ [a, b, c, d]) = None"
  by (simp add: to4_def)

lemma net_contains_v6:
  assumes "length (net_ip n) = 16" and "to4 (net_ip n) = None"
    and "net_mask n = mask_bytes 16 (8 * k)" and "k \<le> 16"
  shows "net_contains n x \<longleftrightarrow> length (norm_ip x) = 16 \<and> take k (norm_ip x) = take k (net_ip n)"
proof -
  have "network_number_and_mask n = (net_ip n, mask_bytes 16 (8 * k))"
    using assms(1-3) by (simp add: network_number_and_mask_def)
  then show ?thesis
    using assms(1,4) by (auto simp: net_contains_eq map2_mask_bytes)
qed

section \<open>The parts of the network\<close>

lemmas vpn_parts = BondingShootClientIP_def BondingSeedClientRange_def HAVPNTunnelNetwork_def
  BondingAddressForClient_def pool_address_def Let_def list_update_append

lemma cidr_mask_16: "0 \<le> k \<Longrightarrow> k \<le> 128 \<Longrightarrow> cidr_mask k 128 = mask_bytes 16 (nat k)"
  by (simp add: cidr_mask_def)

text \<open>The addresses and networks, with the bytes that follow the 12 bytes of the prefix.\<close>

lemma part_bytes:
  assumes "length p = 12" and "net_ip n = p @ [0, 0, 0, 0]"
  shows "BondingShootClientIP n i = Inr (p @ [0, 0xb, 0, word_of_int i])"
    and "BondingSeedClientRange (net_ip n) = Inr (p @ [0, 0xa, 0, 0], 1, 0xffff)"
    and "HAVPNTunnelNetwork (net_ip n) i =
           Inr \<lparr>net_ip = p @ [1, word_of_int i, 0, 0], net_mask = mask_bytes 16 112\<rparr>"
    and "BondingAddressForClient a = \<lparr>net_ip = a, net_mask = mask_bytes 16 104\<rparr>"
    and "pool_address (p @ [0, 0xa, 0, 0]) 0xffff i =
           p @ [0, 0xa, word_of_int (i div 256), word_of_int i]"
proof -
  have byte: "(word_of_int (k AND 0xFF) :: byte) = word_of_int k" for k
  proof -
    have "(0xFF :: int) = mask LENGTH(8)" by (simp add: mask_eq_exp_minus_1)
    then show ?thesis
      by (simp only: flip: take_bit_eq_mask) (simp add: word_of_int_eq_iff)
  qed
  show "BondingShootClientIP n i = Inr (p @ [0, 0xb, 0, word_of_int i])"
    and "BondingSeedClientRange (net_ip n) = Inr (p @ [0, 0xa, 0, 0], 1, 0xffff)"
    and "HAVPNTunnelNetwork (net_ip n) i =
           Inr \<lparr>net_ip = p @ [1, word_of_int i, 0, 0], net_mask = mask_bytes 16 112\<rparr>"
    and "BondingAddressForClient a = \<lparr>net_ip = a, net_mask = mask_bytes 16 104\<rparr>"
    and "pool_address (p @ [0, 0xa, 0, 0]) 0xffff i =
           p @ [0, 0xa, word_of_int (i div 256), word_of_int i]"
    using assms
    by (simp_all add: vpn_parts byte bondStartShoot_def bondStartSeed_def startIndexSeed_def
        endIndexSeed_def vpnTunnelPrefixSize_def bondPrefixSize_def addrLen_def cidr_mask_16
        drop_bit_eq_div)
qed

lemma byte_of_int_eq: "(word_of_int i :: byte) = word_of_int j \<longleftrightarrow> i mod 256 = j mod 256"
  by (simp add: word_of_int_eq_iff take_bit_eq_mod)

section \<open>Properties\<close>

text \<open>The tunnel networks of the servers and the bonding network of one VPN network.\<close>

lemma HAVPN_apart:
  assumes "ParseIPNet s = Inr n" and "validateVPNNetworkCIDR n = None"
    and "take 12 (net_ip n) \<noteq> v4_in_v6_prefix"
    and "0 \<le> i" and "i < 256" and "0 \<le> j" and "j < 256" and "1 \<le> k" and "k \<le> 0xffff"
  shows "\<exists>ti tj c base.
     HAVPNTunnelNetwork (net_ip n) i = Inr ti \<and> HAVPNTunnelNetwork (net_ip n) j = Inr tj \<and>
     BondingShootClientAddress n m = Inr c \<and> BondingSeedClientRange (net_ip n) = Inr (base, 1, 0xffff) \<and>
     (\<forall>x. net_contains ti x \<longrightarrow> net_contains n x) \<and> (\<forall>x. net_contains c x \<longrightarrow> net_contains n x) \<and>
     net_contains c (net_ip c) \<and> net_contains c (pool_address base 0xffff k) \<and>
     (i \<noteq> j \<longrightarrow> (\<forall>x. \<not> (net_contains ti x \<and> net_contains tj x))) \<and>
     (\<forall>x. \<not> (net_contains ti x \<and> net_contains c x))"
proof -
  obtain p where p: "length p = 12" "p \<noteq> v4_in_v6_prefix" and n: "net_ip n = p @ [0, 0, 0, 0]"
    and m: "net_mask n = mask_bytes 16 (8 * 12)"
    by (rule vpn_netE [OF vpn_netI [OF assms(1-3)]])
  have within: "net_contains n x \<longleftrightarrow> length (norm_ip x) = 16 \<and> take 12 (norm_ip x) = p" for x
    using p n by (simp add: net_contains_v6 [OF _ _ m] to4_v6)
  have bond: "net_contains \<lparr>net_ip = p @ [0, 0xb, 0, b], net_mask = mask_bytes 16 104\<rparr> x \<longleftrightarrow>
      length (norm_ip x) = 16 \<and> take 13 (norm_ip x) = p @ [0]" for b x
    using p by (simp add: net_contains_v6 [where k = 13] to4_v6)
  have tunnel: "net_contains \<lparr>net_ip = p @ [1, b, 0, 0], net_mask = mask_bytes 16 112\<rparr> x \<longleftrightarrow>
      length (norm_ip x) = 16 \<and> take 14 (norm_ip x) = p @ [1, b]" for b x
    using p by (simp add: net_contains_v6 [where k = 14] to4_v6)
  have shorter: "take 12 y = p" if "take k y = p @ r" "12 \<le> k" for k y and r :: "byte list"
    using arg_cong [OF that(1), of "take 12"] that(2) p by simp
  have byte13: "take 13 y = p @ [a]" if "take 14 y = p @ [a, b]" for y and a b :: byte
    using arg_cong [OF that, of "take 13"] p by simp
  have norm: "norm_ip (p @ [a, b, c, d]) = p @ [a, b, c, d]" for a b c d
    using p by (simp add: norm_ip_def to4_v6)
  show ?thesis
    using p assms(4-7)
    by (auto simp: part_bytes [OF p(1) n] BondingShootClientAddress_def within bond tunnel norm byte_of_int_eq
        dest: shorter byte13)
qed

text \<open>
  C5: in a VPN network that passes \<^verbatim>\<open>validateVPNNetworkCIDR\<close> (and does not embed IPv4
  addresses) the tunnel networks of two different VPN servers share no address, each lies in
  the VPN network, and none of them overlaps the bonding network, which holds the addresses of the
  shoot clients and of the whole pool of the seed clients.
\<close>

theorem HAVPNTunnelNetwork_separate:
  assumes "ParseIPNet s = Inr n" and "validateVPNNetworkCIDR n = None"
    and "take 12 (net_ip n) \<noteq> v4_in_v6_prefix"
    and "0 \<le> i" and "i < 256" and "0 \<le> j" and "j < 256" and "1 \<le> k" and "k \<le> 0xffff"
  shows "\<exists>ti tj c base.
     HAVPNTunnelNetwork (net_ip n) i = Inr ti \<and> HAVPNTunnelNetwork (net_ip n) j = Inr tj \<and>
     BondingShootClientAddress n m = Inr c \<and> BondingSeedClientRange (net_ip n) = Inr (base, 1, 0xffff) \<and>
     (\<forall>x. net_contains ti x \<longrightarrow> net_contains n x) \<and> (\<forall>x. net_contains c x \<longrightarrow> net_contains n x) \<and>
     net_contains c (net_ip c) \<and> net_contains c (pool_address base 0xffff k) \<and>
     (i \<noteq> j \<longrightarrow> (\<forall>x. \<not> (net_contains ti x \<and> net_contains tj x))) \<and>
     (\<forall>x. \<not> (net_contains ti x \<and> net_contains c x))"
  by (rule HAVPN_apart [OF assms])

text \<open>
  C6: in such a network the bonding addresses of shoot clients 0 to 255 and the addresses of the
  pool with the indices 1 to 65535 are pairwise different, and the index of a shoot client can be
  read off its address.
\<close>

theorem bonding_addresses_distinct:
  assumes "ParseIPNet s = Inr n" and "validateVPNNetworkCIDR n = None"
    and "take 12 (net_ip n) \<noteq> v4_in_v6_prefix"
    and "0 \<le> i" and "i < 256" and "0 \<le> j" and "j < 256"
    and "1 \<le> k" and "k \<le> 0xffff" and "1 \<le> l" and "l \<le> 0xffff"
  shows "\<exists>a b base. BondingShootClientIP n i = Inr a \<and> BondingShootClientIP n j = Inr b \<and>
     BondingSeedClientRange (net_ip n) = Inr (base, 1, 0xffff) \<and> (a = b \<longleftrightarrow> i = j) \<and>
     (pool_address base 0xffff k = pool_address base 0xffff l \<longleftrightarrow> k = l) \<and>
     a \<noteq> pool_address base 0xffff k \<and> ClientIndexFromBondingShootClientIP a = Inr i"
proof -
  obtain p where p: "length p = 12" and n: "net_ip n = p @ [0, 0, 0, 0]"
    by (rule vpn_netE [OF vpn_netI [OF assms(1-3)]])
  have digits: "k = l \<longleftrightarrow> k div 256 mod 256 = l div 256 mod 256 \<and> k mod 256 = l mod 256"
  proof -
    have "k div 256 mod 256 = k div 256" "l div 256 mod 256 = l div 256"
      using assms(8-11) by simp_all
    then show ?thesis by (metis div_mult_mod_eq)
  qed
  show ?thesis
    using p assms(4-7) unfolding part_bytes [OF p n] digits
    by (simp add: part_bytes(5) [OF p n] byte_of_int_eq ClientIndexFromBondingShootClientIP_def nth_append
        unsigned_of_int take_bit_eq_mod)
qed

section \<open>Witnesses\<close>

lemma replicate_8: "replicate 8 x = [x, x, x, x, x, x, x, x]"
  by (simp add: numeral_eq_Suc)

lemma example_vpn_net:
  "ParseIPNet ''fd8f:6d53:b97a:1::/96'' =
     Inr \<lparr>net_ip = [0xfd, 0x8f, 0x6d, 0x53, 0xb9, 0x7a, 0, 1, 0, 0, 0, 0, 0, 0, 0, 0],
          net_mask = mask_bytes 16 96\<rparr>"
  by (simp add: ParseIPNet_def net_eval replicate_8)

lemma example_vpn_net_ok:
  "validateVPNNetworkCIDR \<lparr>net_ip = a, net_mask = mask_bytes 16 96\<rparr> = None"
  "take 12 [0xfd, 0x8f, 0x6d, 0x53, 0xb9, 0x7a, 0, 1, 0, 0, 0, 0, 0, 0, 0, 0] \<noteq> v4_in_v6_prefix"
  by (simp_all add: validateVPNNetworkCIDR_def mask_size_mask_bytes_16 VPNNetworkMask_def
      v4_in_v6_prefix_def)

theorem HAVPNTunnelNetwork_separate_witness:
  "\<exists>t0 t1. HAVPNTunnelNetwork [0xfd, 0x8f, 0x6d, 0x53, 0xb9, 0x7a, 0, 1, 0, 0, 0, 0, 0, 0, 0, 0] 0 = Inr t0 \<and>
     HAVPNTunnelNetwork [0xfd, 0x8f, 0x6d, 0x53, 0xb9, 0x7a, 0, 1, 0, 0, 0, 0, 0, 0, 0, 0] 1 = Inr t1 \<and>
     (\<forall>x. \<not> (net_contains t0 x \<and> net_contains t1 x))"
proof -
  have "(0 :: int) \<noteq> 1" "(0 :: int) \<le> 0" "(0 :: int) < 256" "(0 :: int) \<le> 1" "(1 :: int) < 256"
    "(1 :: int) \<le> 1" "(1 :: int) \<le> 0xffff" by simp_all
  then show ?thesis
    using HAVPNTunnelNetwork_separate [OF example_vpn_net example_vpn_net_ok(1), of 0 1 1 0]
      example_vpn_net_ok(2) unfolding ipnet.simps by blast
qed

theorem bonding_addresses_distinct_witness:
  "\<exists>a b. BondingShootClientIP \<lparr>net_ip = [0xfd, 0x8f, 0x6d, 0x53, 0xb9, 0x7a, 0, 1, 0, 0, 0, 0, 0, 0, 0, 0],
        net_mask = mask_bytes 16 96\<rparr> 0 = Inr a \<and>
     BondingShootClientIP \<lparr>net_ip = [0xfd, 0x8f, 0x6d, 0x53, 0xb9, 0x7a, 0, 1, 0, 0, 0, 0, 0, 0, 0, 0],
        net_mask = mask_bytes 16 96\<rparr> 1 = Inr b \<and>
     a \<noteq> b \<and> ClientIndexFromBondingShootClientIP a = Inr 0"
proof -
  have "(0 :: int) \<noteq> 1" "(0 :: int) \<le> 0" "(0 :: int) < 256" "(0 :: int) \<le> 1" "(1 :: int) < 256"
    "(1 :: int) \<le> 1" "(1 :: int) \<le> 0xffff" by simp_all
  then show ?thesis
    using bonding_addresses_distinct [OF example_vpn_net example_vpn_net_ok(1), of 0 1 1 1]
      example_vpn_net_ok(2) unfolding ipnet.simps by blast
qed

end
