(* ===== verification/Config.thy ===== *)
theory Config
  imports Net_Addr
begin

text \<open>
  \<^verbatim>\<open>pkg/config\<close>: the configurations of the programs, read from the environment and validated.
  Reading is done by the library \<^verbatim>\<open>env\<close>; its result is the argument \<open>parsed\<close>.  The default
  VPN network is a constant of another repository, the argument \<open>defaultNet\<close>.  Logging is left out.
\<close>

section \<open>Numbers in strings\<close>

text \<open>\<^verbatim>\<open>strconv.Atoi\<close>: a decimal number with an optional sign that fits in 64 bits.\<close>

definition Atoi :: "string \<Rightarrow> int option" where
  "Atoi s =
     (let (neg, digits) = (case s of
            [] \<Rightarrow> (False, [])
          | c # cs \<Rightarrow> if c = CHR ''-'' then (True, cs) else if c = CHR ''+'' then (False, cs) else (False, s))
      in case parse_dec digits of
           None \<Rightarrow> None
         | Some n \<Rightarrow> (let i = (if neg then - int n else int n)
                      in if - (2 ^ 63) \<le> i \<and> i < 2 ^ 63 then Some i else None))"

text \<open>The port of OpenVPN's management interface (\<^verbatim>\<open>pkg/constants\<close>).\<close>

definition ManagementPort :: int where "ManagementPort = 7505"

section \<open>The VPN network\<close>

definition getVPNNetworkDefault :: "CIDR \<Rightarrow> go_error + CIDR" where
  "getVPNNetworkDefault defaultNet = Inr defaultNet"

text \<open>The default network for an unset one, and the check of its mask.\<close>

definition vpn_network :: "CIDR \<Rightarrow> CIDR \<Rightarrow> go_error + CIDR" where
  "vpn_network defaultNet nw =
     bind_r (if CIDR_String nw = '''' then getVPNNetworkDefault defaultNet else Inr nw)
       (\<lambda>n. case validateVPNNetworkCIDR n of Some e \<Rightarrow> Inl e | None \<Rightarrow> Inr n)"

section \<open>VPN client\<close>

record VPNClient =
  IPFamilies :: "string list"
  Endpoint :: string
  OpenVPNPort :: nat
  VPNNetwork :: CIDR
  SeedPodNetwork :: CIDR
  ShootServiceNetworks :: "CIDR list"
  ShootPodNetworks :: "CIDR list"
  ShootNodeNetworks :: "CIDR list"
  IsShootClient :: bool
  PodName :: string
  Namespace :: string
  VPNServerIndex :: string
  VPNClientIndex :: int
  IsHA :: bool
  ReversedVPNHeader :: string
  ReversedVPNHeaderKey :: string
  HAVPNClients :: nat
  HAVPNServers :: nat
  PodLabelSelector :: string
  WaitTime :: int
  BondingModeName :: string
  AutoMTU :: bool

definition BondingModeActiveBackup :: string where "BondingModeActiveBackup = ''active-backup''"
definition BondingModeBalanceRR :: string where "BondingModeBalanceRR = ''balance-rr''"

definition BondingModes :: "string list" where
  "BondingModes = [BondingModeActiveBackup, BondingModeBalanceRR]"

definition VPNClient_PrimaryIPFamily :: "VPNClient \<Rightarrow> string" where
  "VPNClient_PrimaryIPFamily v = hd (IPFamilies v)"

text \<open>The checks of a highly available client.\<close>

definition check_ha :: "VPNClient \<Rightarrow> go_error option" where
  "check_ha cfg =
     (if \<not> IsHA cfg then None
      else if IsShootClient cfg \<and> PodName cfg = ''''
      then Some (Errorf ''IS_HA and IS_SHOOT_CLIENT are set to true but POD_NAME is not set'' [])
      else if HAVPNServers cfg > 0 \<and> HAVPNClients cfg = 0
      then Some (Errorf ''HA_VPN_SERVERS is set to %d but HA_VPN_CLIENTS is set to 0'' [dec_string (HAVPNServers cfg)])
      else if HAVPNClients cfg > 0 \<and> HAVPNServers cfg = 0
      then Some (Errorf ''HA_VPN_CLIENTS is set to %d but HA_VPN_SERVERS is set to 0'' [dec_string (HAVPNClients cfg)])
      else if BondingModeName cfg \<notin> set BondingModes
      then Some (Errorf ''BONDING_MODE must be one of %v, but is set to %q'' (BondingModes @ [BondingModeName cfg]))
      else None)"

definition check_families :: "string list \<Rightarrow> go_error option" where
  "check_families fams =
     (if length fams < 1 \<or> length fams > 2
      then Some (Errorf ''IP_FAMILIES must contain at least one but no more than 2 elements'' [])
      else (case find (\<lambda>f. f \<noteq> IPv4Family \<and> f \<noteq> IPv6Family) fams of
              Some f \<Rightarrow> Some (Errorf ''IP_FAMILIES can only contain %s or %s, found value %q'' [IPv4Family, IPv6Family, f])
            | None \<Rightarrow> None))"

text \<open>The index at the end of a pod name.\<close>

definition pod_index :: "string \<Rightarrow> int" where
  "pod_index name =
     (if name = '''' then -1
      else (let podNameSlice = split_on CHR ''-'' name
            in case Atoi (podNameSlice ! (length podNameSlice - 1)) of
                 Some i \<Rightarrow> i
               | None \<Rightarrow> -1))"

definition GetVPNClientConfig :: "CIDR \<Rightarrow> go_error + VPNClient \<Rightarrow> go_error + VPNClient" where
  "GetVPNClientConfig defaultNet parsed =
     bind_r parsed (\<lambda>cfg0.
     bind_r (vpn_network defaultNet (VPNNetwork cfg0)) (\<lambda>nw.
       (let cfg1 = cfg0\<lparr>VPNNetwork := nw, VPNClientIndex := -1\<rparr>
        in case check_ha cfg1 of
             Some e \<Rightarrow> Inl e
           | None \<Rightarrow>
               (case check_families (IPFamilies cfg1) of
                  Some e \<Rightarrow> Inl e
                | None \<Rightarrow>
                    (let cfg2 = cfg1\<lparr>IPFamilies := remdups_adj (sort (IPFamilies cfg1))\<rparr>
                     in if WaitTime cfg2 < 0 then Inl (Errorf ''WAIT_TIME must not be negative'' [])
                        else Inr (cfg2\<lparr>VPNClientIndex := pod_index (PodName cfg2)\<rparr>))))))"

section \<open>VPN server\<close>

record VPNServer =
  srv_ShootServiceNetworks :: "CIDR list"
  srv_ShootPodNetworks :: "CIDR list"
  srv_ShootNodeNetworks :: "CIDR list"
  srv_VPNNetwork :: CIDR
  srv_SeedPodNetwork :: CIDR
  srv_PodName :: string
  srv_StatusPath :: string
  srv_IsHA :: bool
  srv_HAVPNClients :: int
  srv_LocalNodeIP :: string
  srv_AutoMTU :: bool

definition GetVPNServerConfig :: "CIDR \<Rightarrow> go_error + VPNServer \<Rightarrow> go_error + VPNServer" where
  "GetVPNServerConfig defaultNet parsed =
     bind_r parsed (\<lambda>cfg0.
     bind_r (vpn_network defaultNet (srv_VPNNetwork cfg0)) (\<lambda>nw.
       (let cfg = cfg0\<lparr>srv_VPNNetwork := nw\<rparr>
        in if srv_IsHA cfg \<and> srv_PodName cfg = ''''
           then Inl (Errorf ''IS_HA is set to true but POD_NAME is not set'' [])
           else if srv_IsHA cfg \<and> srv_HAVPNClients cfg \<le> 0
           then Inl (Errorf ''IS_HA is set to true but HA_VPN_CLIENTS is not set or invalid'' [])
           else if srv_StatusPath cfg = '''' then Inl (Errorf ''OPENVPN_STATUS_PATH is not set'' [])
           else Inr cfg)))"

section \<open>Path controller and tunnel controller\<close>

record PathController =
  path_IPFamilies :: string
  path_VPNNetwork :: CIDR
  path_HAVPNClients :: int
  path_ShootServiceNetworks :: "CIDR list"
  path_ShootPodNetworks :: "CIDR list"
  path_ShootNodeNetworks :: "CIDR list"
  path_SeedPodNetwork :: CIDR

definition PathController_PrimaryIPFamily :: "PathController \<Rightarrow> string" where
  "PathController_PrimaryIPFamily v = split_on CHR '','' (path_IPFamilies v) ! 0"

definition GetPathControllerConfig :: "CIDR \<Rightarrow> go_error + PathController \<Rightarrow> go_error + PathController" where
  "GetPathControllerConfig defaultNet parsed =
     bind_r parsed (\<lambda>cfg0.
     bind_r (vpn_network defaultNet (path_VPNNetwork cfg0)) (\<lambda>nw. Inr (cfg0\<lparr>path_VPNNetwork := nw\<rparr>)))"

record TunnelControllerConfig =
  tun_HAVPNClients :: int
  WatchdogWindowSize :: int
  WatchdogThreshold :: int
  WatchdogCooldown :: int

definition DefaultTunnelControllerConfig :: TunnelControllerConfig where
  "DefaultTunnelControllerConfig =
     \<lparr>tun_HAVPNClients = 2, WatchdogWindowSize = 20, WatchdogThreshold = 10, WatchdogCooldown = 20\<rparr>"

text \<open>The library overwrites the fields of the default whose variables are set.\<close>

definition GetTunnelControllerConfig ::
  "(TunnelControllerConfig \<Rightarrow> go_error + TunnelControllerConfig) \<Rightarrow> go_error + TunnelControllerConfig"
where
  "GetTunnelControllerConfig parse = parse DefaultTunnelControllerConfig"

section \<open>Facts\<close>

lemma vpn_network_mask:
  assumes "vpn_network d nw = Inr n"
  shows "fst (mask_size (net_mask n)) = 96"
proof -
  have "validateVPNNetworkCIDR n = None"
    using assms by (auto simp: vpn_network_def result_simps split: option.splits)
  then show ?thesis
    by (auto simp: validateVPNNetworkCIDR_def VPNNetworkMask_def split: prod.splits if_splits)
qed

lemma distinct_remdups_adj_sorted:
  fixes xs :: "'a::linorder list"
  shows "sorted xs \<Longrightarrow> distinct (remdups_adj xs)"
  by (induction xs rule: remdups_adj.induct) auto

lemma remdups_adj_families:
  assumes "check_families fams = None"
  shows "distinct (remdups_adj (sort fams)) \<and> remdups_adj (sort fams) \<noteq> [] \<and>
    set (remdups_adj (sort fams)) \<subseteq> {IPv4Family, IPv6Family}"
proof -
  have "fams \<noteq> []" "set fams \<subseteq> {IPv4Family, IPv6Family}"
    using assms by (auto simp: check_families_def find_None_iff split: if_splits option.splits)
  moreover from this have "sort fams \<noteq> []" by (metis set_empty set_sort)
  ultimately show ?thesis
    using distinct_remdups_adj_sorted [OF sorted_sort, of fams] by simp
qed

text \<open>Reading the number that \<^const>\<open>dec_string\<close> prints at the end of a pod name.\<close>

lemma Atoi_dec_string: "n < 2 ^ 63 \<Longrightarrow> Atoi (dec_string n) = Some (int n)"
proof -
  assume n: "n < 2 ^ 63"
  obtain c cs where s: "dec_string n = c # cs"
    using dec_string_nonempty [of n] by (cases "dec_string n") auto
  have "is_digit c" using dec_string_digits [of n] s by simp
  then have "c \<noteq> CHR ''-''" "c \<noteq> CHR ''+''" by (auto simp: is_digit_def less_eq_char_def)
  moreover have "parse_dec (dec_string n) = Some n"
    using dec_string_digits [of n] by (simp add: parse_dec_def)
  moreover have "int n < 2 ^ 63" using n by (simp flip: of_nat_less_iff)
  ultimately show ?thesis unfolding Atoi_def s by simp
qed

lemma split_on_parts: "split_on c (s @ c # t) = split_on c s @ split_on c t"
proof (induction s)
  case (Cons x s)
  then show ?case by (cases "split_on c s") auto
qed simp

lemma split_on_last: "c \<notin> set t \<Longrightarrow> last (split_on c (s @ c # t)) = t"
  by (simp add: split_on_parts split_on_no_sep)

lemma pod_index_suffix:
  assumes "n < 2 ^ 63"
  shows "pod_index (base @ CHR ''-'' # dec_string n) = int n"
proof -
  have "CHR ''-'' \<notin> set (dec_string n)"
    by (rule dec_string_not_digit) (simp add: is_digit_def less_eq_char_def)
  then have "last (split_on CHR ''-'' (base @ CHR ''-'' # dec_string n)) = dec_string n"
    by (rule split_on_last)
  then show ?thesis
    using Atoi_dec_string [OF assms]
    by (simp add: pod_index_def Let_def last_conv_nth)
qed

section \<open>A valid VPN network\<close>

definition vpn_nw :: CIDR where
  "vpn_nw = \<lparr>net_ip = [0xfd, 0x8f, 0x6d, 0x53, 0xb9, 0x7a, 0, 1, 0, 0, 0, 0, 0, 0, 0, 0],
     net_mask = mask_bytes 16 96\<rparr>"

lemma vpn_nw_ok: "vpn_network d vpn_nw = Inr vpn_nw"
  using example_vpn_net_ok(1) [of "net_ip vpn_nw"]
  by (simp add: vpn_network_def CIDR_String_def vpn_nw_def Let_def split: prod.splits)

end
