(* ===== verification/IP_Pool.thy ===== *)
theory IP_Pool
  imports Config "HOL-Library.Signed_Division"
begin

text \<open>
  \<^verbatim>\<open>pkg/ippool\<close>: the pool of the bonding addresses of the seed clients.  Each client records the
  address it reserves, then the address it uses, in annotations of its own pod, and reads those of
  the other pods (\<^verbatim>\<open>manager.go\<close>); \<^verbatim>\<open>AcquireIP\<close> chooses an address (\<^verbatim>\<open>broker.go\<close>).

  The Kubernetes API, the random numbers and the clock are parameters: records of functions on a
  type \<open>'w\<close> of states of the world, so that whatever other processes do between two calls is
  part of the state that the next call sees.
\<close>

section \<open>Results of a lookup\<close>

record IPPoolUsageLookupResult =
  OwnName :: string
  OwnIP :: string
  OwnUsed :: bool
  ForeignUsed :: "string set"
  ForeignReserved :: "string set"

record 'w IPPoolManager =
  UsageLookup :: "string \<Rightarrow> 'w \<Rightarrow> (go_error + IPPoolUsageLookupResult) \<times> 'w"
  SetIPAddress :: "string \<Rightarrow> string \<Rightarrow> bool \<Rightarrow> 'w \<Rightarrow> (go_error + unit) \<times> 'w"

section \<open>The manager on pod annotations\<close>

text \<open>
  The annotations of a pod are a map, \<^term>\<open>None\<close> when the Go map is nil.  A strategic merge
  patch of one annotation is the pair of its key and its value.
\<close>

type_synonym annotations = "(string \<times> string) list"

record pod =
  Name :: string
  Annotations :: "annotations option"

record 'w PodInterface =
  List :: "string \<Rightarrow> 'w \<Rightarrow> (go_error + pod list) \<times> 'w"
  Get :: "string \<Rightarrow> 'w \<Rightarrow> (go_error + pod) \<times> 'w"
  Patch :: "string \<Rightarrow> string \<times> string \<Rightarrow> 'w \<Rightarrow> (go_error + pod) \<times> 'w"

definition AnnotationReservedIP :: string where
  "AnnotationReservedIP = ''ipv4.bonding.vpn.gardener.cloud/reserved''"

definition AnnotationUsedIP :: string where
  "AnnotationUsedIP = ''ipv4.bonding.vpn.gardener.cloud/used''"

text \<open>Reading a Go map gives the zero value for a key it does not have.\<close>

definition annotation :: "annotations \<Rightarrow> string \<Rightarrow> string" where
  "annotation m k = (case map_of m k of None \<Rightarrow> '''' | Some v \<Rightarrow> v)"

definition empty_lookup :: "string \<Rightarrow> IPPoolUsageLookupResult" where
  "empty_lookup podName =
     \<lparr>OwnName = podName, OwnIP = '''', OwnUsed = False, ForeignUsed = {}, ForeignReserved = {}\<rparr>"

text \<open>The body of the loop over the pods.\<close>

definition lookup_pod :: "string \<Rightarrow> pod \<Rightarrow> IPPoolUsageLookupResult \<Rightarrow> IPPoolUsageLookupResult" where
  "lookup_pod podName pod result =
     (case Annotations pod of
        None \<Rightarrow> result
      | Some m \<Rightarrow>
          (let usedIP = annotation m AnnotationUsedIP;
               used = (usedIP \<noteq> '''');
               a = (if used then usedIP else annotation m AnnotationReservedIP)
           in if a = '''' then result
              else if Name pod = podName then result\<lparr>OwnIP := a, OwnUsed := used\<rparr>
              else if used then result\<lparr>ForeignUsed := insert a (ForeignUsed result)\<rparr>
              else result\<lparr>ForeignReserved := insert a (ForeignReserved result)\<rparr>))"

definition pod_UsageLookup ::
  "'w PodInterface \<Rightarrow> string \<Rightarrow> string \<Rightarrow> 'w \<Rightarrow> (go_error + IPPoolUsageLookupResult) \<times> 'w"
where
  "pod_UsageLookup pods labelSelector podName w =
     (case List pods labelSelector w of
        (Inl e, w') \<Rightarrow> (Inl e, w')
      | (Inr podList, w') \<Rightarrow>
          (Inr (fold (lookup_pod podName) podList (empty_lookup podName)), w'))"

definition pod_SetIPAddress ::
  "'w PodInterface \<Rightarrow> string \<Rightarrow> string \<Rightarrow> bool \<Rightarrow> 'w \<Rightarrow> (go_error + unit) \<times> 'w"
where
  "pod_SetIPAddress pods podName a used w =
     (case Get pods podName w of
        (Inl e, w') \<Rightarrow> (Inl e, w')
      | (Inr _, w') \<Rightarrow>
          (let key = (if used then AnnotationUsedIP else AnnotationReservedIP)
           in case Patch pods podName (key, a) w' of
                (Inl e, w'') \<Rightarrow> (Inl e, w'')
              | (Inr _, w'') \<Rightarrow> (Inr (), w'')))"

definition podIPPoolManager :: "'w PodInterface \<Rightarrow> string \<Rightarrow> 'w IPPoolManager" where
  "podIPPoolManager pods labelSelector =
     \<lparr>UsageLookup = pod_UsageLookup pods labelSelector, SetIPAddress = pod_SetIPAddress pods\<rparr>"

text \<open>
  The client library of Kubernetes: the configuration of a client inside a cluster, which is passed
  on as it is, and the pods of a namespace for it.
\<close>

record 'w kubernetes =
  InClusterConfig :: "'w \<Rightarrow> (go_error + string) \<times> 'w"
  NewForConfig :: "string \<Rightarrow> go_error + (string \<Rightarrow> 'w PodInterface)"

definition NewPodIPPoolManager :: "'w kubernetes \<Rightarrow> string \<Rightarrow> string \<Rightarrow> 'w \<Rightarrow> (go_error + 'w IPPoolManager) \<times> 'w" where
  "NewPodIPPoolManager k namespace labelSelector w =
     (case InClusterConfig k w of
        (Inl e, w1) \<Rightarrow> (Inl (Wrapf ''error on InClusterConfig: %w'' [] e), w1)
      | (Inr config, w1) \<Rightarrow>
          (case NewForConfig k config of
             Inl e \<Rightarrow> (Inl (Wrapf ''error creating clientset: %w'' [] e), w1)
           | Inr pods \<Rightarrow> (Inr (podIPPoolManager (pods namespace) labelSelector), w1)))"

section \<open>The broker\<close>

text \<open>The random numbers (\<^verbatim>\<open>rand.N\<close>) and the clock (\<^verbatim>\<open>time.Sleep\<close>, in nanoseconds).\<close>

record 'w Runtime =
  rand_N :: "int \<Rightarrow> 'w \<Rightarrow> int \<times> 'w"
  Sleep :: "int \<Rightarrow> 'w \<Rightarrow> 'w"

record 'w ipAddressBroker =
  manager :: "'w IPPoolManager"
  base :: ip
  startIndex :: int
  endIndex :: int
  ownName :: string
  waitTime :: int
  ownIP :: string
  ownUsed :: bool

definition checkRange :: "int \<Rightarrow> int \<Rightarrow> go_error option" where
  "checkRange start_ix end_ix =
     (if start_ix < 0 \<or> end_ix \<le> start_ix \<or> end_ix > 0xffff
      then Some (Errorf ''invalid index range: start=%d, end=%d'' [int_string start_ix, int_string end_ix])
      else None)"

definition NewIPAddressBroker :: "'w IPPoolManager \<Rightarrow> VPNClient \<Rightarrow> go_error + 'w ipAddressBroker" where
  "NewIPAddressBroker m cfg =
     (case BondingSeedClientRange (net_ip (VPNNetwork cfg)) of
        Inl e \<Rightarrow> Inl (NetError e)
      | Inr (first, start_ix, end_ix) \<Rightarrow>
          (case checkRange start_ix end_ix of
             Some e \<Rightarrow> Inl e
           | None \<Rightarrow> Inr \<lparr>manager = m, base = first, startIndex = start_ix, endIndex = end_ix,
                         ownName = PodName cfg, waitTime = WaitTime cfg, ownIP = '''', ownUsed = False\<rparr>))"

definition SetStartAndEndIndex ::
  "'w ipAddressBroker \<Rightarrow> int \<Rightarrow> int \<Rightarrow> go_error option \<times> 'w ipAddressBroker"
where
  "SetStartAndEndIndex b start_ix end_ix =
     (case checkRange start_ix end_ix of
        Some e \<Rightarrow> (Some e, b)
      | None \<Rightarrow> (None, b\<lparr>startIndex := start_ix, endIndex := end_ix\<rparr>))"

definition getExistingIPAddresses ::
  "'w ipAddressBroker \<Rightarrow> 'w \<Rightarrow> (go_error + IPPoolUsageLookupResult) \<times> 'w"
where
  "getExistingIPAddresses b w = UsageLookup (manager b) (ownName b) w"

text \<open>The loop of \<^verbatim>\<open>findFreeIPAddress\<close> with the number of draws that are left.\<close>

fun find_free ::
  "'w Runtime \<Rightarrow> 'w ipAddressBroker \<Rightarrow> IPPoolUsageLookupResult \<Rightarrow> nat \<Rightarrow> 'w \<Rightarrow> string \<times> 'w"
where
  "find_free rt b l 0 w = ('''', w)"
| "find_free rt b l (Suc n) w =
     (let (r, w') = rand_N rt (endIndex b - startIndex b + 1) w;
          index = r + startIndex b;
          s = ip_string (pool_address (base b) (endIndex b) index)
      in if s \<in> ForeignUsed l then find_free rt b l n w'
         else if s \<in> ForeignReserved l then find_free rt b l n w'
         else (s, w'))"

definition findFreeIPAddress ::
  "'w Runtime \<Rightarrow> 'w ipAddressBroker \<Rightarrow> IPPoolUsageLookupResult \<Rightarrow> 'w \<Rightarrow> string \<times> 'w"
where
  "findFreeIPAddress rt b l w = find_free rt b l 1000 w"

definition hasConflict :: "'w ipAddressBroker \<Rightarrow> IPPoolUsageLookupResult \<Rightarrow> bool" where
  "hasConflict b l \<longleftrightarrow> ownIP b \<in> ForeignUsed l \<or> ownIP b \<in> ForeignReserved l"

definition announceIPAddress ::
  "'w Runtime \<Rightarrow> bool \<Rightarrow> IPPoolUsageLookupResult \<Rightarrow> 'w ipAddressBroker \<Rightarrow> 'w
   \<Rightarrow> go_error option \<times> 'w ipAddressBroker \<times> 'w"
where
  "announceIPAddress rt used l b w =
     (if OwnUsed l then (None, b, w)
      else (let (a, w1) = (if used then (OwnIP l, w) else findFreeIPAddress rt b l w)
            in if a = ''''
               then (Some (Errorf (if used then ''internal error: own ip undefined''
                                   else ''no free IP address found'') []), b, w1)
               else (case SetIPAddress (manager b) (ownName b) a used w1 of
                       (Inl e, w2) \<Rightarrow> (Some e, b, w2)
                     | (Inr _, w2) \<Rightarrow> (None, b\<lparr>ownIP := a, ownUsed := used\<rparr>, w2))))"

text \<open>
  One iteration of the loop of \<^verbatim>\<open>AcquireIP\<close>: it returns from the function, leaves the loop with
  the result of the second lookup, or goes on to the next iteration.
\<close>

datatype iteration =
    Return "go_error + string"
  | Break IPPoolUsageLookupResult
  | Next IPPoolUsageLookupResult

definition acquire_iteration ::
  "'w Runtime \<Rightarrow> 'w ipAddressBroker \<Rightarrow> 'w \<Rightarrow> iteration \<times> 'w ipAddressBroker \<times> 'w"
where
  "acquire_iteration rt b w =
     (case getExistingIPAddresses b w of
        (Inl e, w1) \<Rightarrow> (Return (Inl (Wrapf ''existing IP address lookup failed: %w'' [] e)), b, w1)
      | (Inr r1, w1) \<Rightarrow>
          if OwnUsed r1 then (Return (Inr (OwnIP r1)), b, w1)
          else (case announceIPAddress rt False r1 b w1 of
                  (Some e, b2, w2) \<Rightarrow>
                    (Return (Inl (Wrapf ''reserving IP address failed: %w'' [] e)), b2, w2)
                | (None, b2, w2) \<Rightarrow>
                    (case getExistingIPAddresses b2 (Sleep rt (waitTime b2) w2) of
                       (Inl e, w3) \<Rightarrow>
                         (Return (Inl (Wrapf ''existing IP address lookup failed: %w'' [] e)), b2, w3)
                     | (Inr r2, w3) \<Rightarrow>
                         if \<not> hasConflict b2 r2 then (Break r2, b2, w3)
                         else (let (k, w4) = rand_N rt 10 w3
                               in (Next r2, b2, Sleep rt ((waitTime b2 * k) sdiv 10) w4)))))"

text \<open>
  The loop makes one iteration, and \<open>n\<close> more as long as there is a conflict.  \<^term>\<open>Inl\<close> is a
  return from the function, \<^term>\<open>Inr\<close> the value of \<open>result\<close> after the loop.
\<close>

fun acquire_loop ::
  "'w Runtime \<Rightarrow> nat \<Rightarrow> 'w ipAddressBroker \<Rightarrow> 'w
   \<Rightarrow> ((go_error + string) + IPPoolUsageLookupResult) \<times> 'w ipAddressBroker \<times> 'w"
where
  "acquire_loop rt n b w =
     (case acquire_iteration rt b w of
        (Return x, b', w') \<Rightarrow> (Inl x, b', w')
      | (Break r, b', w') \<Rightarrow> (Inr r, b', w')
      | (Next r, b', w') \<Rightarrow> (case n of 0 \<Rightarrow> (Inr r, b', w') | Suc m \<Rightarrow> acquire_loop rt m b' w'))"

declare acquire_loop.simps [simp del]

definition AcquireIP ::
  "'w Runtime \<Rightarrow> 'w ipAddressBroker \<Rightarrow> 'w \<Rightarrow> (go_error + string) \<times> 'w ipAddressBroker \<times> 'w"
where
  "AcquireIP rt b w =
     (case acquire_loop rt 29 b w of
        (Inl x, b', w') \<Rightarrow> (x, b', w')
      | (Inr result, b', w') \<Rightarrow>
          if hasConflict b' result
          then (Inl (Errorf ''cannot find any free IP address'' []), b', w')
          else (case announceIPAddress rt True result b' w' of
                  (Some e, b2, w2) \<Rightarrow> (Inl (Wrapf ''using IP address failed: %w'' [] e), b2, w2)
                | (None, b2, w2) \<Rightarrow> (Inr (ownIP b2), b2, w2)))"

end
