(* ===== verification/IP_Pool_Laws.thy ===== *)
theory IP_Pool_Laws
  imports IP_Pool "HOL-Library.AList"
begin

text \<open>
  The interfaces of the pool: what \<^verbatim>\<open>IPPoolManager\<close> promises the broker (\<open>ip_pool\<close>), what
  the Kubernetes API promises the manager on pod annotations (\<open>pod_api\<close>), and the proof that the
  manager keeps the first contract when the API keeps the second.
\<close>

section \<open>The contract of a manager\<close>

text \<open>
  A pod holds at most one address, as used or as reserved.  A pod that uses an address keeps it:
  an address reserved later is not visible.
\<close>

type_synonym holding = "string \<Rightarrow> (string \<times> bool) option"

definition record_holding :: "holding \<Rightarrow> string \<Rightarrow> string \<Rightarrow> bool \<Rightarrow> holding" where
  "record_holding h p x used =
     (if used then h(p \<mapsto> (x, True))
      else (case h p of Some (y, True) \<Rightarrow> h | _ \<Rightarrow> h(p \<mapsto> (x, False))))"

text \<open>The result of a lookup shows a state of the pool.\<close>

definition reflects :: "holding \<Rightarrow> string \<Rightarrow> IPPoolUsageLookupResult \<Rightarrow> bool" where
  "reflects h p l \<longleftrightarrow>
     (OwnIP l, OwnUsed l) = (case h p of None \<Rightarrow> ('''', False) | Some xu \<Rightarrow> xu) \<and>
     ForeignUsed l = {x. \<exists>q. q \<noteq> p \<and> h q = Some (x, True)} \<and>
     ForeignReserved l = {x. \<exists>q. q \<noteq> p \<and> h q = Some (x, False)}"

locale ip_pool =
  fixes mgr :: "'w IPPoolManager"
    and holding :: "'w \<Rightarrow> holding"
  assumes lookup_reflects: "UsageLookup mgr p w = (Inr l, w') \<Longrightarrow> reflects (holding w) p l"
    and lookup_holding: "UsageLookup mgr p w = (r, w') \<Longrightarrow> holding w' = holding w"
    and set_records: "SetIPAddress mgr p x used w = (Inr u, w') \<Longrightarrow> x \<noteq> '''' \<Longrightarrow>
          holding w' = record_holding (holding w) p x used"
    and set_error: "SetIPAddress mgr p x used w = (Inl e, w') \<Longrightarrow> x \<noteq> '''' \<Longrightarrow>
          holding w' = holding w \<or> holding w' = record_holding (holding w) p x used"
begin

lemma set_cases:
  assumes "SetIPAddress mgr p x used w = (r, w')" and "x \<noteq> ''''"
  shows "holding w' = holding w \<and> \<not> is_ok r \<or> holding w' = record_holding (holding w) p x used"
  using assms set_records set_error by (cases r) auto

end

lemma record_holding_other [simp]: "q \<noteq> p \<Longrightarrow> record_holding h p x used q = h q"
  by (auto simp: record_holding_def split: option.splits bool.splits)

lemma record_holding_used [simp]: "record_holding h p x True p = Some (x, True)"
  by (simp add: record_holding_def)

lemma record_holding_reserved:
  "record_holding h p x False p = (case h p of Some (y, True) \<Rightarrow> Some (y, True) | _ \<Rightarrow> Some (x, False))"
  by (auto simp: record_holding_def split: option.splits bool.splits)

lemma reflects_own:
  "reflects h p l \<Longrightarrow> OwnUsed l \<longleftrightarrow> (\<exists>x. h p = Some (x, True))"
  "reflects h p l \<Longrightarrow> h p = Some (x, u) \<Longrightarrow> OwnIP l = x"
  by (auto simp: reflects_def split: option.splits)

text \<open>No conflict in a lookup: no other pod holds the address.\<close>

lemma reflects_no_conflict:
  assumes "reflects h p l" and "\<not> hasConflict b l" and "q \<noteq> p"
  shows "h q \<noteq> Some (ownIP b, u)"
  using assms by (cases u) (auto simp: reflects_def hasConflict_def)

section \<open>The contract of the Kubernetes API\<close>

definition pod_holding :: "pod \<Rightarrow> (string \<times> bool) option" where
  "pod_holding pod =
     (case Annotations pod of
        None \<Rightarrow> None
      | Some m \<Rightarrow>
          if annotation m AnnotationUsedIP \<noteq> '''' then Some (annotation m AnnotationUsedIP, True)
          else if annotation m AnnotationReservedIP \<noteq> '''' then Some (annotation m AnnotationReservedIP, False)
          else None)"

definition pods_holding :: "pod list \<Rightarrow> holding" where
  "pods_holding ps p = Option.bind (find (\<lambda>q. Name q = p) ps) pod_holding"

definition patch_pod :: "string \<times> string \<Rightarrow> pod \<Rightarrow> pod" where
  "patch_pod kv pod =
     pod\<lparr>Annotations := Some (AList.update (fst kv) (snd kv) (case Annotations pod of None \<Rightarrow> [] | Some m \<Rightarrow> m))\<rparr>"

definition patch_pods :: "string \<Rightarrow> string \<times> string \<Rightarrow> pod list \<Rightarrow> pod list" where
  "patch_pods p kv = map (\<lambda>q. if Name q = p then patch_pod kv q else q)"

text \<open>
  \<open>pods_of w\<close> are the pods that carry the labels of the selector.  Listing returns them; a pod
  that can be read is one of them (the selector of the VPN selects the pods of the client); a
  patch changes one annotation of one pod, or nothing when the call failed before it took effect.
\<close>

locale pod_api =
  fixes pods :: "'w PodInterface"
    and labelSelector :: string
    and pods_of :: "'w \<Rightarrow> pod list"
  assumes names: "distinct (map Name (pods_of w))"
    and list_pods: "List pods labelSelector w = (Inr ps, w') \<Longrightarrow> ps = pods_of w"
    and list_keeps: "List pods labelSelector w = (r, w') \<Longrightarrow> pods_of w' = pods_of w"
    and get_found: "Get pods p w = (Inr q, w') \<Longrightarrow> p \<in> set (map Name (pods_of w))"
    and get_keeps: "Get pods p w = (g, w') \<Longrightarrow> pods_of w' = pods_of w"
    and patch_ok: "Patch pods p kv w = (Inr q, w') \<Longrightarrow> pods_of w' = patch_pods p kv (pods_of w)"
    and patch_error: "Patch pods p kv w = (Inl e, w') \<Longrightarrow>
          pods_of w' = pods_of w \<or> pods_of w' = patch_pods p kv (pods_of w)"

section \<open>The manager keeps its contract\<close>

lemma annotation_update:
  "annotation (AList.update k v m) k' = (if k' = k then v else annotation m k')"
  by (simp add: annotation_def update_conv')

lemma keys_different: "AnnotationUsedIP \<noteq> AnnotationReservedIP"
  by (simp add: AnnotationUsedIP_def AnnotationReservedIP_def)

lemma pod_holding_patch:
  assumes "x \<noteq> ''''"
  shows "pod_holding (patch_pod (if used then AnnotationUsedIP else AnnotationReservedIP, x) q) =
    (if used then Some (x, True)
     else (case pod_holding q of Some (y, True) \<Rightarrow> Some (y, True) | _ \<Rightarrow> Some (x, False)))"
  using assms keys_different
  by (cases "Annotations q")
    (auto simp: pod_holding_def patch_pod_def annotation_update, simp_all add: annotation_def)

lemma find_patch_pods:
  "find (\<lambda>q. Name q = n) (patch_pods p kv ps) =
     map_option (\<lambda>q. if n = p then patch_pod kv q else q) (find (\<lambda>q. Name q = n) ps)"
proof (induction ps)
  case (Cons q ps)
  then show ?case by (auto simp: patch_pods_def patch_pod_def)
qed (simp add: patch_pods_def)

lemma find_named: "find (\<lambda>q. Name q = p) ps = Some q \<Longrightarrow> Name q = p"
  by (induction ps) (auto split: if_splits)

lemma pods_holding_patch:
  assumes "x \<noteq> ''''" and "p \<in> set (map Name ps)"
  shows "pods_holding (patch_pods p (if used then AnnotationUsedIP else AnnotationReservedIP, x) ps) =
    record_holding (pods_holding ps) p x used"
proof
  fix n
  obtain q where q: "find (\<lambda>q. Name q = p) ps = Some q"
    using assms(2) by (cases "find (\<lambda>q. Name q = p) ps") (auto simp: find_None_iff)
  show "pods_holding (patch_pods p (if used then AnnotationUsedIP else AnnotationReservedIP, x) ps) n =
    record_holding (pods_holding ps) p x used n"
  proof (cases "n = p")
    case True
    with q show ?thesis
      by (simp add: pods_holding_def find_patch_pods pod_holding_patch [OF assms(1)] record_holding_reserved
          del: if_split)
  next
    case False
    then show ?thesis
      by (cases "find (\<lambda>q. Name q = n) ps") (simp_all add: pods_holding_def find_patch_pods)
  qed
qed

text \<open>The loop of \<^verbatim>\<open>UsageLookup\<close> over the pods.\<close>

lemma lookup_pod_holding:
  "lookup_pod p q l =
     (case pod_holding q of
        None \<Rightarrow> l
      | Some (x, u) \<Rightarrow> if Name q = p then l\<lparr>OwnIP := x, OwnUsed := u\<rparr>
                      else if u then l\<lparr>ForeignUsed := insert x (ForeignUsed l)\<rparr>
                      else l\<lparr>ForeignReserved := insert x (ForeignReserved l)\<rparr>)"
  by (auto simp: lookup_pod_def pod_holding_def Let_def split: option.splits)

lemma fold_lookup_foreign:
  "ForeignUsed (fold (lookup_pod p) qs l) =
     ForeignUsed l \<union> {x. \<exists>q \<in> set qs. Name q \<noteq> p \<and> pod_holding q = Some (x, True)}"
  "ForeignReserved (fold (lookup_pod p) qs l) =
     ForeignReserved l \<union> {x. \<exists>q \<in> set qs. Name q \<noteq> p \<and> pod_holding q = Some (x, False)}"
  by (induction qs arbitrary: l) (auto simp: lookup_pod_holding split: option.splits)

lemma pods_holding_iff:
  assumes "distinct (map Name qs)"
  shows "pods_holding qs p = Some v \<longleftrightarrow> (\<exists>q \<in> set qs. Name q = p \<and> pod_holding q = Some v)"
  using assms
proof (induction qs)
  case (Cons q qs)
  then show ?case
    by (cases "Name q = p") (auto simp: pods_holding_def image_iff)
qed (simp add: pods_holding_def)

lemma fold_lookup_own:
  assumes "distinct (map Name qs)"
  shows "(OwnIP (fold (lookup_pod p) qs l), OwnUsed (fold (lookup_pod p) qs l)) =
    (case pods_holding qs p of None \<Rightarrow> (OwnIP l, OwnUsed l) | Some v \<Rightarrow> v)"
  using assms
proof (induction qs arbitrary: l)
  case (Cons q qs)
  show ?case
  proof (cases "Name q = p")
    case True
    with Cons.prems have "pods_holding qs p = None"
      by (cases "pods_holding qs p") (auto simp: pods_holding_iff image_iff)
    with Cons True show ?thesis
      by (auto simp: lookup_pod_holding pods_holding_def split: option.splits)
  next
    case False
    then have "pods_holding (q # qs) p = pods_holding qs p"
      by (simp add: pods_holding_def)
    with Cons False show ?thesis
      by (auto simp: lookup_pod_holding split: option.splits)
  qed
qed (simp add: pods_holding_def)

lemma lookup_pods_reflects:
  assumes "distinct (map Name qs)"
  shows "reflects (pods_holding qs) p (fold (lookup_pod p) qs (empty_lookup p))"
  unfolding reflects_def fold_lookup_own [OF assms] fold_lookup_foreign pods_holding_iff [OF assms]
  by (cases "pods_holding qs p") (auto simp: empty_lookup_def)

sublocale pod_api \<subseteq> ip_pool "podIPPoolManager pods labelSelector" "\<lambda>w. pods_holding (pods_of w)"
proof
  show "reflects (pods_holding (pods_of w)) p l"
    if "UsageLookup (podIPPoolManager pods labelSelector) p w = (Inr l, w')" for p w l w'
    using that list_pods lookup_pods_reflects [OF names]
    by (fastforce simp: podIPPoolManager_def pod_UsageLookup_def split: prod.splits sum.splits)
  show "pods_holding (pods_of w') = pods_holding (pods_of w)"
    if "UsageLookup (podIPPoolManager pods labelSelector) p w = (r, w')" for p w r w'
    using that list_keeps
    by (fastforce simp: podIPPoolManager_def pod_UsageLookup_def split: prod.splits sum.splits)
  show "pods_holding (pods_of w') = record_holding (pods_holding (pods_of w)) p x used"
    if set: "SetIPAddress (podIPPoolManager pods labelSelector) p x used w = (Inr u, w')" and x: "x \<noteq> ''''"
    for p x used w u w'
  proof -
    obtain q w1 q' where get: "Get pods p w = (Inr q, w1)"
      and patch: "Patch pods p (if used then AnnotationUsedIP else AnnotationReservedIP, x) w1 = (Inr q', w')"
      using set by (auto simp: podIPPoolManager_def pod_SetIPAddress_def Let_def
          split: prod.splits sum.splits)
    show ?thesis
      using patch_ok [OF patch] get_keeps [OF get] pods_holding_patch [OF x get_found [OF get]] by simp
  qed
  show "pods_holding (pods_of w') = pods_holding (pods_of w) \<or>
        pods_holding (pods_of w') = record_holding (pods_holding (pods_of w)) p x used"
    if set: "SetIPAddress (podIPPoolManager pods labelSelector) p x used w = (Inl e, w')" and x: "x \<noteq> ''''"
    for p x used w e w'
  proof (cases "Get pods p w")
    case (Pair g w1)
    show ?thesis
    proof (cases g)
      case (Inl e')
      with Pair set have "w' = w1"
        by (auto simp: podIPPoolManager_def pod_SetIPAddress_def)
      with Pair show ?thesis by (simp add: get_keeps)
    next
      case (Inr q)
      with Pair set
      have patch: "Patch pods p (if used then AnnotationUsedIP else AnnotationReservedIP, x) w1 = (Inl e, w')"
        by (auto simp: podIPPoolManager_def pod_SetIPAddress_def Let_def split: prod.splits sum.splits)
      show ?thesis
        using patch_error [OF patch] get_keeps [OF Pair] pods_holding_patch [OF x get_found] Pair Inr
        by auto
    qed
  qed
qed

context pod_api begin

lemma manager_is_pool: "ip_pool (podIPPoolManager pods labelSelector) (\<lambda>w. pods_holding (pods_of w))"
  by unfold_locales

end

end
