(* ===== verification/Pool_Protocol.thy ===== *)
theory Pool_Protocol
  imports IP_Pool_Laws
begin

text \<open>
  The protocol that the brokers of several pods run against each other.  \<open>broker_step\<close> cuts
  \<^const>\<open>AcquireIP\<close> into steps that make at most one call of the manager; the steps of all
  brokers, starts, crashes and changes of the environment are interleaved by \<open>pool_step\<close>.
  No two pods ever use the same address, in every interleaving.
\<close>

section \<open>The steps of a broker\<close>

text \<open>
  \<open>n\<close> is the number of iterations that are left.  The \<^verbatim>\<open>Get\<close> call of \<^verbatim>\<open>SetIPAddress\<close> has no
  effect and its result is not used, so that the patch is the only call of that step that counts.
\<close>

datatype stage =
    Lookup nat
  | Reserve nat IPPoolUsageLookupResult
  | Wait nat
  | Check nat
  | Backoff nat IPPoolUsageLookupResult
  | Claim IPPoolUsageLookupResult
  | Finished "go_error + string"

fun broker_step ::
  "'w Runtime \<Rightarrow> stage \<times> 'w ipAddressBroker \<times> 'w \<Rightarrow> stage \<times> 'w ipAddressBroker \<times> 'w"
where
  "broker_step rt (Lookup n, b, w) =
     (case getExistingIPAddresses b w of
        (Inl e, w') \<Rightarrow> (Finished (Inl (Wrapf ''existing IP address lookup failed: %w'' [] e)), b, w')
      | (Inr r, w') \<Rightarrow> (if OwnUsed r then Finished (Inr (OwnIP r)) else Reserve n r, b, w'))"
| "broker_step rt (Reserve n r, b, w) =
     (case announceIPAddress rt False r b w of
        (Some e, b', w') \<Rightarrow> (Finished (Inl (Wrapf ''reserving IP address failed: %w'' [] e)), b', w')
      | (None, b', w') \<Rightarrow> (Wait n, b', w'))"
| "broker_step rt (Wait n, b, w) = (Check n, b, Sleep rt (waitTime b) w)"
| "broker_step rt (Check n, b, w) =
     (case getExistingIPAddresses b w of
        (Inl e, w') \<Rightarrow> (Finished (Inl (Wrapf ''existing IP address lookup failed: %w'' [] e)), b, w')
      | (Inr r, w') \<Rightarrow> (if hasConflict b r then Backoff n r else Claim r, b, w'))"
| "broker_step rt (Backoff n r, b, w) =
     (let (k, w1) = rand_N rt 10 w; w2 = Sleep rt ((waitTime b * k) sdiv 10) w1
      in case n of
           0 \<Rightarrow> (Finished (Inl (Errorf ''cannot find any free IP address'' [])), b, w2)
         | Suc m \<Rightarrow> (Lookup m, b, w2))"
| "broker_step rt (Claim r, b, w) =
     (case announceIPAddress rt True r b w of
        (Some e, b', w') \<Rightarrow> (Finished (Inl (Wrapf ''using IP address failed: %w'' [] e)), b', w')
      | (None, b', w') \<Rightarrow> (Finished (Inr (ownIP b')), b', w'))"
| "broker_step rt (Finished x, b, w) = (Finished x, b, w)"

lemma funpow_step: "(f ^^ Suc k) x = (f ^^ k) (f x)"
  by (simp add: funpow_swap1)

lemmas run_step = funpow_step funpow_0

text \<open>The ways through one iteration of \<^const>\<open>AcquireIP\<close>.\<close>

lemma iteration_cases:
  assumes "acquire_iteration rt b w = (i, b', w')"
  obtains
    (unknown) e where "getExistingIPAddresses b w = (Inl e, w')" "b' = b"
      "i = Return (Inl (Wrapf ''existing IP address lookup failed: %w'' [] e))"
  | (used) l where "getExistingIPAddresses b w = (Inr l, w')" "OwnUsed l" "b' = b" "i = Return (Inr (OwnIP l))"
  | (unreserved) l w1 e where "getExistingIPAddresses b w = (Inr l, w1)" "\<not> OwnUsed l"
      "announceIPAddress rt False l b w1 = (Some e, b', w')"
      "i = Return (Inl (Wrapf ''reserving IP address failed: %w'' [] e))"
  | (unseen) l w1 w2 e where "getExistingIPAddresses b w = (Inr l, w1)" "\<not> OwnUsed l"
      "announceIPAddress rt False l b w1 = (None, b', w2)"
      "getExistingIPAddresses b' (Sleep rt (waitTime b') w2) = (Inl e, w')"
      "i = Return (Inl (Wrapf ''existing IP address lookup failed: %w'' [] e))"
  | (free) l w1 w2 l2 where "getExistingIPAddresses b w = (Inr l, w1)" "\<not> OwnUsed l"
      "announceIPAddress rt False l b w1 = (None, b', w2)"
      "getExistingIPAddresses b' (Sleep rt (waitTime b') w2) = (Inr l2, w')" "\<not> hasConflict b' l2" "i = Break l2"
  | (conflict) l w1 w2 l2 w3 k w4 where "getExistingIPAddresses b w = (Inr l, w1)" "\<not> OwnUsed l"
      "announceIPAddress rt False l b w1 = (None, b', w2)"
      "getExistingIPAddresses b' (Sleep rt (waitTime b') w2) = (Inr l2, w3)" "hasConflict b' l2"
      "rand_N rt 10 w3 = (k, w4)" "w' = Sleep rt ((waitTime b' * k) sdiv 10) w4" "i = Next l2"
  using assms
  by (fastforce simp: acquire_iteration_def split: prod.splits sum.splits option.splits if_splits)

lemma iteration_steps:
  assumes "acquire_iteration rt b w = (i, b', w')"
  shows "case i of
     Return x \<Rightarrow> \<exists>k \<le> 4. (broker_step rt ^^ k) (Lookup n, b, w) = (Finished x, b', w')
   | Break r \<Rightarrow> (broker_step rt ^^ 4) (Lookup n, b, w) = (Claim r, b', w') \<and> \<not> hasConflict b' r
   | Next r \<Rightarrow> hasConflict b' r \<and> (broker_step rt ^^ 5) (Lookup n, b, w) =
       ((case n of 0 \<Rightarrow> Finished (Inl (Errorf ''cannot find any free IP address'' []))
         | Suc m \<Rightarrow> Lookup m), b', w')"
  using assms
proof (cases rule: iteration_cases)
  case unseen
  then show ?thesis by (auto simp: run_step intro!: exI [of _ "Suc (Suc (Suc (Suc 0)))"])
next
  case unreserved
  then show ?thesis by (auto simp: run_step intro!: exI [of _ "Suc (Suc 0)"])
qed (auto simp: run_step numeral_eq_Suc split: nat.splits intro!: exI [of _ "Suc 0"])

lemma ex_le_mono: "\<exists>k \<le> m. P k \<Longrightarrow> m \<le> (n::nat) \<Longrightarrow> \<exists>k \<le> n. P k"
  using le_trans by blast

text \<open>Where the loop leaves the broker.\<close>

definition after_loop :: "'w ipAddressBroker \<Rightarrow> (go_error + string) + IPPoolUsageLookupResult \<Rightarrow> stage" where
  "after_loop b r =
     (case r of
        Inl x \<Rightarrow> Finished x
      | Inr l \<Rightarrow> if hasConflict b l then Finished (Inl (Errorf ''cannot find any free IP address'' [])) else Claim l)"

lemma loop_ends:
  assumes "acquire_loop rt n b w = (r, b', w')" and it: "acquire_iteration rt b w = (i, c, v)" and "n = 0 \<or> (\<forall>l. i \<noteq> Next l)"
  shows "\<exists>k \<le> 5. (broker_step rt ^^ k) (Lookup n, b, w) = (after_loop b' r, b', w')"
proof (cases i)
  case (Return x)
  with assms iteration_steps [OF it, of n] show ?thesis
    by (simp add: acquire_loop.simps [of rt n] after_loop_def) (use ex_le_mono [of 4 _ 5] in fastforce)
next
  case (Break l)
  with assms iteration_steps [OF it, of n] show ?thesis
    by (intro exI [of _ 4]) (auto simp: acquire_loop.simps [of rt n] after_loop_def)
next
  case (Next l)
  with assms iteration_steps [OF it, of n] show ?thesis
    by (intro exI [of _ 5]) (auto simp: acquire_loop.simps [of rt n] after_loop_def)
qed

lemma loop_steps:
  "acquire_loop rt n b w = (r, b', w') \<Longrightarrow> \<exists>k \<le> 5 * n + 5. (broker_step rt ^^ k) (Lookup n, b, w) = (after_loop b' r, b', w')"
proof (induction n arbitrary: b w)
  case 0
  obtain i c v where "acquire_iteration rt b w = (i, c, v)" using prod_cases3 by blast
  from loop_ends [OF 0 this] show ?case by simp
next
  case (Suc n)
  obtain i c v where it: "acquire_iteration rt b w = (i, c, v)" using prod_cases3 by blast
  show ?case
  proof (cases "\<exists>l. i = Next l")
    case False
    then have "\<exists>k \<le> 5. (broker_step rt ^^ k) (Lookup (Suc n), b, w) = (after_loop b' r, b', w')"
      by (intro loop_ends [OF Suc.prems it]) blast
    then show ?thesis by (rule ex_le_mono) simp
  next
    case True
    then have run: "acquire_loop rt n c v = (r, b', w')"
      and step: "(broker_step rt ^^ 5) (Lookup (Suc n), b, w) = (Lookup n, c, v)"
      using Suc.prems it iteration_steps [OF it, of "Suc n"] by (auto simp: acquire_loop.simps [of rt "Suc n"])
    obtain k where k: "k \<le> 5 * n + 5" "(broker_step rt ^^ k) (Lookup n, c, v) = (after_loop b' r, b', w')"
      using Suc.IH [OF run] by blast
    have "(broker_step rt ^^ (k + 5)) (Lookup (Suc n), b, w) = (broker_step rt ^^ k) (Lookup n, c, v)"
      by (simp only: funpow_add comp_apply step)
    with k show ?thesis by (intro exI [of _ "k + 5"]) simp
  qed
qed

text \<open>\<^const>\<open>AcquireIP\<close> is the run of the steps from the first lookup to the end.\<close>

lemma AcquireIP_steps:
  assumes "AcquireIP rt b w = (r, b', w')"
  shows "\<exists>k \<le> 151. (broker_step rt ^^ k) (Lookup 29, b, w) = (Finished r, b', w')"
proof -
  obtain x c v where loop: "acquire_loop rt 29 b w = (x, c, v)" using prod_cases3 by blast
  obtain k where k: "k \<le> 150" "(broker_step rt ^^ k) (Lookup 29, b, w) = (after_loop c x, c, v)"
    using loop_steps [OF loop] by auto
  then have "(broker_step rt ^^ Suc k) (Lookup 29, b, w) = broker_step rt (after_loop c x, c, v)" by simp
  also have "\<dots> = (Finished r, b', w')"
    using assms loop by (auto simp: AcquireIP_def after_loop_def split: sum.splits if_splits prod.splits option.splits)
  finally show ?thesis using k(1) by (intro exI [of _ "Suc k"]) simp
qed

section \<open>The system of all brokers\<close>

text \<open>
  The running brokers by the name of their pod, and the world they share.  \<open>env R\<close> relates the
  worlds before and after a change made by others while the pods of \<open>R\<close> are running.
\<close>

record 'w pool =
  procs :: "string \<Rightarrow> (stage \<times> 'w ipAddressBroker) option"
  shared :: 'w

inductive pool_step ::
  "'w IPPoolManager \<Rightarrow> 'w Runtime \<Rightarrow> (string set \<Rightarrow> 'w \<Rightarrow> 'w \<Rightarrow> bool) \<Rightarrow> 'w pool \<Rightarrow> 'w pool \<Rightarrow> bool"
  for mgr :: "'w IPPoolManager" and rt :: "'w Runtime" and env :: "string set \<Rightarrow> 'w \<Rightarrow> 'w \<Rightarrow> bool"
where
  Start: "procs s p = None \<Longrightarrow> NewIPAddressBroker mgr cfg = Inr b \<Longrightarrow> PodName cfg = p \<Longrightarrow>
    pool_step mgr rt env s (s\<lparr>procs := (procs s)(p \<mapsto> (Lookup 29, b))\<rparr>)"
| Run: "procs s p = Some (st, b) \<Longrightarrow> broker_step rt (st, b, shared s) = (st', b', w') \<Longrightarrow>
    pool_step mgr rt env s (s\<lparr>procs := (procs s)(p \<mapsto> (st', b')), shared := w'\<rparr>)"
| Stop: "pool_step mgr rt env s (s\<lparr>procs := (procs s)(p := None)\<rparr>)"
| Env: "env (dom (procs s)) (shared s) w' \<Longrightarrow> pool_step mgr rt env s (s\<lparr>shared := w'\<rparr>)"

text \<open>
  The state of a pool in which no broker runs and no two pods use one address.
\<close>

definition exclusive :: "holding \<Rightarrow> bool" where
  "exclusive h \<longleftrightarrow> (\<forall>p q x. h p = Some (x, True) \<and> h q = Some (x, True) \<longrightarrow> p = q)"

definition pool_init :: "'w \<Rightarrow> 'w pool" where
  "pool_init w = \<lparr>procs = (\<lambda>_. None), shared = w\<rparr>"

text \<open>
  The contract of the environment: random numbers and waiting do not touch the pods, and others
  change nothing of a running pod; a pod that does not run may be deleted.
\<close>

locale pool_runtime = ip_pool mgr holding
  for mgr :: "'w IPPoolManager" and holding :: "'w \<Rightarrow> holding" +
  fixes rt :: "'w Runtime"
  assumes rand_holding: "rand_N rt n w = (k, w') \<Longrightarrow> holding w' = holding w"
    and sleep_holding: "holding (Sleep rt d w) = holding w"
begin

lemma find_free_holding: "find_free rt b l n w = (x, w') \<Longrightarrow> holding w' = holding w"
  by (induction n arbitrary: w)
    (auto simp: Let_def split: prod.splits if_splits dest: rand_holding)

end

locale pool_system = pool_runtime mgr holding rt
  for mgr :: "'w IPPoolManager" and holding :: "'w \<Rightarrow> holding" and rt :: "'w Runtime" +
  fixes env :: "string set \<Rightarrow> 'w \<Rightarrow> 'w \<Rightarrow> bool"
  assumes env_holding: "env R w w' \<Longrightarrow>
          holding w' p = holding w p \<or> p \<notin> R \<and> holding w' p = None"
begin

text \<open>What reserving and using an address does to the pool.\<close>

lemma announce_reserve:
  assumes "announceIPAddress rt False l b w = (err, b', w')" and "manager b = mgr" and "\<not> OwnUsed l"
  shows "holding w' = holding w \<and> err \<noteq> None \<or>
     (\<exists>x. holding w' = record_holding (holding w) (ownName b) x False \<and> (err = None \<longrightarrow> ownIP b' = x))"
    and "manager b' = mgr \<and> ownName b' = ownName b"
proof -
  obtain x w1 where find: "findFreeIPAddress rt b l w = (x, w1)" by fastforce
  then have h1: "holding w1 = holding w"
    by (auto simp: findFreeIPAddress_def dest: find_free_holding)
  obtain r w2 where set: "SetIPAddress mgr (ownName b) x False w1 = (r, w2)" by fastforce
  show "holding w' = holding w \<and> err \<noteq> None \<or>
     (\<exists>x. holding w' = record_holding (holding w) (ownName b) x False \<and> (err = None \<longrightarrow> ownIP b' = x))"
    using assms find set h1 set_cases [OF set]
    by (cases r) (auto simp: announceIPAddress_def split: if_splits)
  show "manager b' = mgr \<and> ownName b' = ownName b"
    using assms find set by (cases r) (auto simp: announceIPAddress_def split: if_splits)
qed

lemma announce_use:
  assumes "announceIPAddress rt True l b w = (err, b', w')" and "manager b = mgr" and "\<not> OwnUsed l"
  shows "holding w' = holding w \<and> err \<noteq> None \<or>
     holding w' = record_holding (holding w) (ownName b) (OwnIP l) True \<and> (err = None \<longrightarrow> ownIP b' = OwnIP l)"
    and "manager b' = mgr \<and> ownName b' = ownName b"
proof -
  obtain r w2 where set: "SetIPAddress mgr (ownName b) (OwnIP l) True w = (r, w2)" by fastforce
  show "holding w' = holding w \<and> err \<noteq> None \<or>
     holding w' = record_holding (holding w) (ownName b) (OwnIP l) True \<and> (err = None \<longrightarrow> ownIP b' = OwnIP l)"
    using assms set set_cases [OF set]
    by (cases r) (auto simp: announceIPAddress_def split: if_splits)
  show "manager b' = mgr \<and> ownName b' = ownName b"
    using assms set by (cases r) (auto simp: announceIPAddress_def split: if_splits)
qed

lemma lookup_result:
  assumes "getExistingIPAddresses b w = (Inr l, w')" and "manager b = mgr"
  shows "reflects (holding w) (ownName b) l" and "holding w' = holding w"
  using assms lookup_reflects lookup_holding by (auto simp: getExistingIPAddresses_def)

lemma lookup_keeps:
  "getExistingIPAddresses b w = (r, w') \<Longrightarrow> manager b = mgr \<Longrightarrow> holding w' = holding w"
  using lookup_holding by (auto simp: getExistingIPAddresses_def)

end

section \<open>The invariant\<close>

text \<open>What a broker knows of its own pod at each stage.\<close>

definition phase_ok :: "holding \<Rightarrow> stage \<Rightarrow> 'w ipAddressBroker \<Rightarrow> bool" where
  "phase_ok h st b =
     (case st of
        Reserve _ l \<Rightarrow> \<not> OwnUsed l \<and> (\<forall>x. h (ownName b) \<noteq> Some (x, True))
      | Wait _ \<Rightarrow> h (ownName b) = Some (ownIP b, False)
      | Check _ \<Rightarrow> h (ownName b) = Some (ownIP b, False)
      | Claim l \<Rightarrow> h (ownName b) = Some (ownIP b, False) \<and> OwnIP l = ownIP b \<and> \<not> OwnUsed l
      | Finished (Inr x) \<Rightarrow> h (ownName b) = Some (x, True)
      | _ \<Rightarrow> True)"

text \<open>A broker claims an address when its pod uses it or when it is about to.\<close>

definition claimed :: "holding \<Rightarrow> stage \<Rightarrow> 'w ipAddressBroker \<Rightarrow> string \<Rightarrow> bool" where
  "claimed h st b x \<longleftrightarrow> h (ownName b) = Some (x, True) \<or> (\<exists>l. st = Claim l \<and> ownIP b = x)"

context pool_system begin

text \<open>What every step of a broker keeps.\<close>

definition step_keeps :: "stage \<times> 'w ipAddressBroker \<times> 'w \<Rightarrow> stage \<times> 'w ipAddressBroker \<times> 'w \<Rightarrow> bool" where
  "step_keeps = (\<lambda>(st, b, w) (st', b', w').
     manager b' = mgr \<and> ownName b' = ownName b \<and> phase_ok (holding w') st' b' \<and>
     (\<forall>q. q \<noteq> ownName b \<longrightarrow> holding w' q = holding w q) \<and>
     (\<forall>x. claimed (holding w') st' b' x \<longrightarrow>
        claimed (holding w) st b x \<or> (\<forall>q u. q \<noteq> ownName b \<longrightarrow> holding w q \<noteq> Some (x, u))))"

lemmas keeps_defs = step_keeps_def phase_ok_def claimed_def

text \<open>A step with a lookup that fails ends the run.\<close>

lemma failed_lookup_keeps:
  assumes "getExistingIPAddresses b w = (Inl e, w')" and "manager b = mgr"
  shows "step_keeps (st, b, w) (Finished (Inl e'), b, w')"
  using assms lookup_keeps [OF assms] by (auto simp: keeps_defs)

lemma Lookup_keeps:
  assumes "broker_step rt (Lookup n, b, w) = (st', b', w')" and "manager b = mgr"
  shows "step_keeps (Lookup n, b, w) (st', b', w')"
proof -
  obtain r v where look: "getExistingIPAddresses b w = (r, v)" by fastforce
  show ?thesis
  proof (cases r)
    case (Inl e)
    with look assms(1) failed_lookup_keeps [OF look [unfolded Inl] assms(2)] show ?thesis by auto
  next
    case (Inr l)
    note ok = lookup_result [OF look [unfolded Inr] assms(2)]
    with look Inr assms reflects_own [OF ok(1)] show ?thesis by (auto simp: keeps_defs)
  qed
qed

lemma Reserve_keeps:
  assumes "broker_step rt (Reserve n l, b, w) = (st', b', w')" and "manager b = mgr" and "phase_ok (holding w) (Reserve n l) b"
  shows "step_keeps (Reserve n l, b, w) (st', b', w')"
proof -
  obtain err c v where ann: "announceIPAddress rt False l b w = (err, c, v)"
    using prod_cases3 by blast
  have l: "\<not> OwnUsed l" and unused: "holding w (ownName b) \<noteq> Some (x, True)" for x
    using assms(3) by (auto simp: phase_ok_def)
  have res: "record_holding (holding w) (ownName b) x False (ownName b) = Some (x, False)" for x
    using unused by (auto simp: record_holding_reserved split: option.splits bool.splits)
  show ?thesis
    using assms(1) ann unused res announce_reserve [OF ann assms(2) l] by (cases err) (auto simp: keeps_defs)
qed

lemma Check_keeps:
  assumes "broker_step rt (Check n, b, w) = (st', b', w')" and "manager b = mgr" and "phase_ok (holding w) (Check n) b"
  shows "step_keeps (Check n, b, w) (st', b', w')"
proof -
  obtain r v where look: "getExistingIPAddresses b w = (r, v)" by fastforce
  show ?thesis
  proof (cases r)
    case (Inl e)
    with look assms(1) failed_lookup_keeps [OF look [unfolded Inl] assms(2)] show ?thesis by auto
  next
    case (Inr l)
    note ok = lookup_result [OF look [unfolded Inr] assms(2)]
    have own: "holding w (ownName b) = Some (ownIP b, False)"
      using assms(3) by (simp add: phase_ok_def)
    then have l: "OwnIP l = ownIP b" "\<not> OwnUsed l"
      using reflects_own [OF ok(1)] by auto
    show ?thesis
      using look Inr assms(1,2) ok own l reflects_no_conflict [OF ok(1), of b] by (auto simp: keeps_defs split: if_splits)
  qed
qed

lemma Claim_keeps:
  assumes "broker_step rt (Claim l, b, w) = (st', b', w')" and "manager b = mgr" and "phase_ok (holding w) (Claim l) b"
  shows "step_keeps (Claim l, b, w) (st', b', w')"
proof -
  obtain err c v where ann: "announceIPAddress rt True l b w = (err, c, v)"
    using prod_cases3 by blast
  have own: "holding w (ownName b) = Some (ownIP b, False)" "OwnIP l = ownIP b" "\<not> OwnUsed l"
    using assms(3) by (auto simp: phase_ok_def)
  show ?thesis
    using assms(1) ann own announce_use [OF ann assms(2) own(3)] by (cases err) (auto simp: keeps_defs)
qed

lemma broker_step_phase:
  assumes "broker_step rt (st, b, w) = (st', b', w')" and "manager b = mgr" and "phase_ok (holding w) st b"
  shows "step_keeps (st, b, w) (st', b', w')"
proof (cases st)
  case (Backoff n l)
  obtain k v where rand: "rand_N rt 10 w = (k, v)" by fastforce
  with Backoff assms rand_holding [OF rand] show ?thesis
    by (auto simp: keeps_defs sleep_holding Let_def split: nat.splits)
next
  case (Wait n)
  with assms show ?thesis by (auto simp: keeps_defs sleep_holding)
next
  case (Finished x)
  with assms show ?thesis by (auto simp: keeps_defs)
qed (use assms Lookup_keeps Reserve_keeps Check_keeps Claim_keeps in simp_all)

definition pool_claims :: "'w pool \<Rightarrow> string \<Rightarrow> string \<Rightarrow> bool" where
  "pool_claims s p x \<longleftrightarrow> holding (shared s) p = Some (x, True) \<or>
     (\<exists>l b. procs s p = Some (Claim l, b) \<and> ownIP b = x)"

definition pool_inv :: "'w pool \<Rightarrow> bool" where
  "pool_inv s \<longleftrightarrow>
     (\<forall>p st b. procs s p = Some (st, b) \<longrightarrow>
        manager b = mgr \<and> ownName b = p \<and> phase_ok (holding (shared s)) st b) \<and>
     (\<forall>p q x. pool_claims s p x \<and> pool_claims s q x \<longrightarrow> p = q)"

lemma pool_inv_init: "exclusive (holding w) \<Longrightarrow> pool_inv (pool_init w)"
  by (auto simp: pool_inv_def pool_init_def pool_claims_def exclusive_def)

lemma phase_ok_cong: "h (ownName b) = h' (ownName b) \<Longrightarrow> phase_ok h st b = phase_ok h' st b"
  by (auto simp: phase_ok_def split: stage.splits sum.splits)

lemma pool_invI:
  assumes "\<And>p st b. procs s p = Some (st, b) \<Longrightarrow>
      manager b = mgr \<and> ownName b = p \<and> phase_ok (holding (shared s)) st b"
    and "\<And>p q x. pool_claims s p x \<Longrightarrow> pool_claims s q x \<Longrightarrow> p = q"
  shows "pool_inv s"
  unfolding pool_inv_def using assms by blast

lemma pool_invD:
  assumes "pool_inv s" and "procs s p = Some (st, b)"
  shows "manager b = mgr" and "ownName b = p" and "phase_ok (holding (shared s)) st b"
  using assms unfolding pool_inv_def by blast+

lemma pool_inv_unique: "pool_inv s \<Longrightarrow> pool_claims s p x \<Longrightarrow> pool_claims s q x \<Longrightarrow> p = q"
  unfolding pool_inv_def by blast

lemma pool_inv_claiming:
  assumes "pool_inv s" and "procs s p = Some (Claim l, b)"
  shows "holding (shared s) p = Some (ownIP b, False)"
  using pool_invD [OF assms] by (simp add: phase_ok_def)

lemma pool_inv_finished:
  assumes "pool_inv s" and "procs s p = Some (Finished (Inr x), b)"
  shows "holding (shared s) p = Some (x, True)"
  using pool_invD [OF assms] by (simp add: phase_ok_def)

lemma pool_inv_run:
  assumes inv: "pool_inv s" and p: "procs s p = Some (st, b)"
    and step: "broker_step rt (st, b, shared s) = (st', b', w')"
  shows "pool_inv (s\<lparr>procs := (procs s)(p \<mapsto> (st', b')), shared := w'\<rparr>)"
proof -
  let ?s = "s\<lparr>procs := (procs s)(p \<mapsto> (st', b')), shared := w'\<rparr>"
  have b: "manager b = mgr" "ownName b = p" "phase_ok (holding (shared s)) st b"
    using inv p by (auto simp: pool_inv_def)
  note phase = broker_step_phase [OF step b(1,3), unfolded step_keeps_def prod.case]
  have others: "holding w' q = holding (shared s) q" if "q \<noteq> p" for q
    using phase b(2) that by blast
  have claims_other: "pool_claims ?s q x = pool_claims s q x" if "q \<noteq> p" for q x
    using others that by (simp add: pool_claims_def)
  have claims_own: "pool_claims ?s p x \<longleftrightarrow> claimed (holding w') st' b' x" "pool_claims s p x \<longleftrightarrow> claimed (holding (shared s)) st b x" for x
    using phase b(2) p by (auto simp: pool_claims_def claimed_def)
  have no_other: "\<not> pool_claims s q x" if "\<forall>q u. q \<noteq> p \<longrightarrow> holding (shared s) q \<noteq> Some (x, u)" "q \<noteq> p" for q x
    using that pool_inv_claiming [OF inv] unfolding pool_claims_def by blast
  have new: "pool_claims s p x \<or> (\<forall>q. q \<noteq> p \<longrightarrow> \<not> pool_claims s q x)" if "pool_claims ?s p x" for x
    using phase that b(2) no_other unfolding claims_own by blast
  have "q = r" if cl: "pool_claims ?s q x" "pool_claims ?s r x" for q r x
    using cl new claims_other inv unfolding pool_inv_def by metis
  moreover have "manager c = mgr \<and> ownName c = q \<and> phase_ok (holding w') sc c"
    if q: "procs ?s q = Some (sc, c)" for q sc c
  proof (cases "q = p")
    case True
    with q phase b(2) show ?thesis by simp
  next
    case False
    with q inv have "manager c = mgr \<and> ownName c = q \<and> phase_ok (holding (shared s)) sc c"
      by (simp add: pool_inv_def)
    with others [OF False] show ?thesis by (metis phase_ok_cong)
  qed
  ultimately show ?thesis by (intro pool_invI) simp_all
qed

lemma pool_inv_env:
  assumes inv: "pool_inv s" and env: "env (dom (procs s)) (shared s) w'"
  shows "pool_inv (s\<lparr>shared := w'\<rparr>)"
proof -
  have h: "holding w' p = holding (shared s) p \<or> p \<notin> dom (procs s) \<and> holding w' p = None" for p
    using env_holding [OF env] by blast
  have "pool_claims s p x" if "pool_claims (s\<lparr>shared := w'\<rparr>) p x" for p x
    using that h [of p] by (auto simp: pool_claims_def)
  moreover have "phase_ok (holding w') st b" if "procs s p = Some (st, b)" for p st b
    using that inv h [of p] phase_ok_cong [of "holding w'" b "holding (shared s)" st]
    by (auto simp: pool_inv_def dom_def)
  ultimately show ?thesis
    using inv by (simp add: pool_inv_def) blast
qed

lemma pool_inv_step: "pool_step mgr rt env s s' \<Longrightarrow> pool_inv s \<Longrightarrow> pool_inv s'"
proof (induction rule: pool_step.induct)
  case (Start s p cfg b)
  have b: "manager b = mgr" "ownName b = p"
    using Start(2,3) by (auto simp: NewIPAddressBroker_def split: sum.splits prod.splits option.splits)
  have claims: "pool_claims (s\<lparr>procs := (procs s)(p \<mapsto> (Lookup 29, b))\<rparr>) q x = pool_claims s q x" for q x
    using Start by (auto simp: pool_claims_def)
  show ?case
    using Start b unfolding pool_inv_def claims by (auto simp: phase_ok_def)
next
  case (Run s p st b st' b' w')
  then show ?case by (blast intro: pool_inv_run)
next
  case (Stop s p)
  have claims: "pool_claims s q x" if "pool_claims (s\<lparr>procs := (procs s)(p := None)\<rparr>) q x" for q x
    using that by (auto simp: pool_claims_def split: if_splits)
  show ?case
  proof (rule pool_invI)
    show "q = r" if "pool_claims (s\<lparr>procs := (procs s)(p := None)\<rparr>) q x"
      "pool_claims (s\<lparr>procs := (procs s)(p := None)\<rparr>) r x" for q r x
      using that [THEN claims] Stop pool_inv_unique by blast
  qed (use Stop in \<open>auto simp: pool_inv_def split: if_splits\<close>)
next
  case (Env s w')
  then show ?case by (blast intro: pool_inv_env)
qed

lemma pool_inv_reachable: "(pool_step mgr rt env)\<^sup>*\<^sup>* s s' \<Longrightarrow> pool_inv s \<Longrightarrow> pool_inv s'"
  by (induction rule: rtranclp_induct) (auto intro: pool_inv_step)

lemma no_shared_address:
  assumes "(pool_step mgr rt env)\<^sup>*\<^sup>* (pool_init w) s" and "exclusive (holding w)"
    and "procs s p = Some (Finished (Inr x), b)" and "procs s q = Some (Finished (Inr y), c)" and "p \<noteq> q"
  shows "x \<noteq> y" and "holding (shared s) p = Some (x, True)"
proof -
  have inv: "pool_inv s"
    using pool_inv_reachable [OF assms(1)] pool_inv_init [OF assms(2)] by blast
  then have h: "holding (shared s) p = Some (x, True)" "holding (shared s) q = Some (y, True)"
    using assms(3,4) by (blast intro: pool_inv_finished)+
  then show "holding (shared s) p = Some (x, True)" by simp
  show "x \<noteq> y"
    using h assms(5) pool_inv_unique [OF inv, of p _ q] by (auto simp: pool_claims_def)
qed

end

end
