(* ===== verification/Pool_Theorems.thy ===== *)
theory Pool_Theorems
  imports Pool_Protocol
begin

text \<open>
  The properties of the address pool, for every Kubernetes API that keeps the contract
  \<^const>\<open>pod_api\<close>; a store of pods that keeps it, on which they are applied.
\<close>

section \<open>Free addresses\<close>

lemma find_free_range:
  assumes "find_free rt b l n w = (x, w')" and "x \<noteq> ''''"
    and rand: "\<And>m w k w'. 0 < m \<Longrightarrow> rand_N rt m w = (k, w') \<Longrightarrow> 0 \<le> k \<and> k < m"
    and range: "checkRange (startIndex b) (endIndex b) = None"
  shows "x \<notin> ForeignUsed l \<and> x \<notin> ForeignReserved l \<and>
    (\<exists>i. startIndex b \<le> i \<and> i \<le> endIndex b \<and> x = ip_string (pool_address (base b) (endIndex b) i))"
  using assms(1)
proof (induction n arbitrary: w)
  case 0
  with assms(2) show ?case by simp
next
  case (Suc n)
  obtain k w1 where k: "rand_N rt (endIndex b - startIndex b + 1) w = (k, w1)" by fastforce
  have "0 \<le> k \<and> k < endIndex b - startIndex b + 1"
    using range by (intro rand [OF _ k]) (auto simp: checkRange_def split: if_splits)
  then have "startIndex b \<le> k + startIndex b \<and> k + startIndex b \<le> endIndex b" by simp
  with Suc k show ?case
    by (auto simp: Let_def split: if_splits intro: exI [of _ "k + startIndex b"])
qed

section \<open>One broker alone\<close>

text \<open>
  What makes a broker run undisturbed: calls succeed, and neither random numbers nor waiting
  change the pool.
\<close>

locale quiet_pool = pool_runtime mgr holding rt
  for mgr :: "'w IPPoolManager" and holding :: "'w \<Rightarrow> holding" and rt :: "'w Runtime" +
  fixes present :: "'w \<Rightarrow> string \<Rightarrow> bool"
  assumes lookup_succeeds: "is_ok (fst (UsageLookup mgr p w))"
    and set_succeeds: "present w p \<Longrightarrow> is_ok (fst (SetIPAddress mgr p x used w))"
    and lookup_present: "UsageLookup mgr p w = (r, w') \<Longrightarrow> present w' = present w"
    and set_present: "SetIPAddress mgr p x used w = (s, w') \<Longrightarrow> present w' = present w"
    and rand_present: "rand_N rt n w = (k, w') \<Longrightarrow> present w' = present w"
    and sleep_present: "present (Sleep rt d w) = present w"
begin

lemma find_free_present: "find_free rt b l n w = (x, w') \<Longrightarrow> present w' = present w"
  by (induction n arbitrary: w)
    (auto simp: Let_def split: prod.splits if_splits dest: rand_present)

lemma lookupE:
  obtains l w' where "UsageLookup mgr p w = (Inr l, w')" and "reflects (holding w) p l"
    and "holding w' = holding w" and "present w' = present w"
proof -
  obtain r w' where r: "UsageLookup mgr p w = (r, w')" by fastforce
  obtain l where l: "r = Inr l" using lookup_succeeds [of p w] r by (cases r) auto
  with r that lookup_reflects lookup_holding lookup_present show thesis by blast
qed

lemma setE:
  assumes "x \<noteq> ''''" and "present w p"
  obtains w' where "SetIPAddress mgr p x used w = (Inr (), w')"
    and "holding w' = record_holding (holding w) p x used" and "present w' = present w"
proof -
  obtain r w' where r: "SetIPAddress mgr p x used w = (r, w')" by fastforce
  obtain u where "r = Inr u" using set_succeeds [OF assms(2), of x used] r by (cases r) auto
  with r that [of w'] set_records [of p x used w u w'] set_present [OF r] assms show thesis by simp
qed

lemma acquire_used:
  assumes "manager b = mgr" and "holding w (ownName b) = Some (x, True)"
  shows "\<exists>w'. AcquireIP rt b w = (Inr x, b, w') \<and> holding w' = holding w"
proof -
  obtain l w' where l: "UsageLookup mgr (ownName b) w = (Inr l, w')"
    "reflects (holding w) (ownName b) l" "holding w' = holding w" "present w' = present w"
    by (rule lookupE)
  then have "OwnUsed l" "OwnIP l = x"
    using assms(2) reflects_own [OF l(2)] by auto
  with l(1,3) assms(1) show ?thesis
    by (simp add: AcquireIP_def acquire_loop.simps [of rt 29] acquire_iteration_def getExistingIPAddresses_def)
qed

lemma acquire_alone:
  assumes "manager b = mgr" and here: "present w (ownName b)"
    and unused: "\<And>x. holding w (ownName b) \<noteq> Some (x, True)"
    and look: "UsageLookup mgr (ownName b) w = (Inr l, w1)"
    and find: "findFreeIPAddress rt b l w1 = (x, w2)" and x: "x \<noteq> ''''" "x \<notin> ForeignUsed l" "x \<notin> ForeignReserved l"
  shows "\<exists>b' w'. AcquireIP rt b w = (Inr x, b', w') \<and>
    holding w' = (holding w)(ownName b \<mapsto> (x, True))"
proof -
  let ?p = "ownName b"
  have l: "reflects (holding w) ?p l" "holding w1 = holding w" "present w1 = present w"
    using lookup_reflects [OF look] lookup_holding [OF look] lookup_present [OF look] by auto
  have nl: "\<not> OwnUsed l" using unused reflects_own(1) [OF l(1)] by blast
  have h2: "holding w2 = holding w" "present w2 ?p"
    using find find_free_holding find_free_present l(2,3) here by (simp_all add: findFreeIPAddress_def)
  obtain w3 where w3: "SetIPAddress mgr ?p x False w2 = (Inr (), w3)"
    "holding w3 = record_holding (holding w) ?p x False" "present w3 ?p"
    using setE [OF x(1) h2(2)] h2 by metis
  have own3: "holding w3 ?p = Some (x, False)"
    using unused w3(2) by (auto simp: record_holding_reserved split: option.splits bool.splits)
  define w4 where "w4 = Sleep rt (waitTime b) w3"
  have h4: "holding w4 = holding w3" "present w4 ?p"
    using w3(3) by (simp_all add: w4_def sleep_holding sleep_present)
  obtain l2 w5 where l2: "UsageLookup mgr ?p w4 = (Inr l2, w5)"
    "reflects (holding w3) ?p l2" "holding w5 = holding w3" "present w5 ?p"
    using lookupE [of ?p w4] h4 by metis
  have own2: "\<not> OwnUsed l2" "OwnIP l2 = x"
    using own3 reflects_own [OF l2(2)] by auto
  have same: "ForeignUsed l2 = ForeignUsed l" "ForeignReserved l2 = ForeignReserved l"
    using l(1) l2(2) w3(2) unfolding reflects_def by (auto cong: conj_cong)
  obtain w6 where w6: "SetIPAddress mgr ?p x True w5 = (Inr (), w6)"
    "holding w6 = record_holding (holding w3) ?p x True"
    using setE [OF x(1) l2(4)] l2(3) by metis
  have "holding w6 = (holding w)(?p \<mapsto> (x, True))"
    using w6(2) w3(2) by (auto simp: fun_eq_iff record_holding_def split: option.splits bool.splits)
  then show ?thesis
    using assms(1) look nl find x w3(1) l2(1) own2 same w6(1)
    by (simp add: AcquireIP_def acquire_loop.simps [of rt 29] acquire_iteration_def getExistingIPAddresses_def
        announceIPAddress_def hasConflict_def w4_def [symmetric])
qed

end

section \<open>A store of pods\<close>

text \<open>
  A Kubernetes API whose calls never fail, except on pods that do not exist; a random source that
  is a list of numbers; a clock.
\<close>

record pool_store =
  store_names :: "string list"
  store_annotations :: "string \<Rightarrow> annotations option"
  seeds :: "int list"
  clock :: int

definition store_pod :: "pool_store \<Rightarrow> string \<Rightarrow> pod" where
  "store_pod w p = \<lparr>Name = p, Annotations = store_annotations w p\<rparr>"

definition store_pods :: "pool_store \<Rightarrow> pod list" where
  "store_pods w = map (store_pod w) (remdups (store_names w))"

definition store_patch :: "string \<Rightarrow> string \<times> string \<Rightarrow> pool_store \<Rightarrow> pool_store" where
  "store_patch p kv w =
     w\<lparr>store_annotations := (store_annotations w)(p := Annotations (patch_pod kv (store_pod w p)))\<rparr>"

definition store_api :: "pool_store PodInterface" where
  "store_api =
     \<lparr>List = (\<lambda>_ w. (Inr (store_pods w), w)),
      Get = (\<lambda>p w. (if p \<in> set (store_names w) then Inr (store_pod w p) else Inl (Foreign ''not found''), w)),
      Patch = (\<lambda>p kv w.
        if p \<in> set (store_names w) then (Inr (patch_pod kv (store_pod w p)), store_patch p kv w)
        else (Inl (Foreign ''not found''), w))\<rparr>"

definition store_runtime :: "pool_store Runtime" where
  "store_runtime =
     \<lparr>rand_N = (\<lambda>n w. case seeds w of [] \<Rightarrow> (0, w) | k # ks \<Rightarrow> (k mod n, w\<lparr>seeds := ks\<rparr>)),
      Sleep = (\<lambda>d w. w\<lparr>clock := clock w + d\<rparr>)\<rparr>"

text \<open>Others may create pods, and delete or replace pods whose broker does not run.\<close>

definition store_env :: "string set \<Rightarrow> pool_store \<Rightarrow> pool_store \<Rightarrow> bool" where
  "store_env R w w' \<longleftrightarrow>
     (\<forall>p. (p \<in> set (store_names w') \<longleftrightarrow> p \<in> set (store_names w)) \<and>
            store_annotations w' p = store_annotations w p \<or>
          p \<notin> R \<and> (p \<notin> set (store_names w') \<or> store_annotations w' p = None))"

lemma store_pod_Name [simp]: "Name (store_pod w p) = p"
  by (simp add: store_pod_def)

lemma store_pods_patch: "store_pods (store_patch p kv w) = patch_pods p kv (store_pods w)"
  by (auto simp: store_pods_def patch_pods_def store_patch_def store_pod_def patch_pod_def)

lemma find_map_name: "find (\<lambda>q. Name q = p) (map (store_pod w) ns) =
    (if p \<in> set ns then Some (store_pod w p) else None)"
  by (induction ns) auto

lemma store_holding:
  "pods_holding (store_pods w) p = (if p \<in> set (store_names w) then pod_holding (store_pod w p) else None)"
  by (simp add: pods_holding_def store_pods_def find_map_name)

interpretation store: pod_api store_api sel store_pods
  by unfold_locales
    (auto simp: store_api_def store_pods_def comp_def store_pods_patch [unfolded store_pods_def] split: if_splits)

lemma store_rand_keeps: "store_pods (snd (rand_N store_runtime n w)) = store_pods w"
  by (auto simp: store_runtime_def store_pods_def store_pod_def split: list.splits)

lemma store_sleep_keeps: "store_pods (Sleep store_runtime d w) = store_pods w"
  by (simp add: store_runtime_def store_pods_def store_pod_def)

lemma store_env_holding:
  "store_env R w w' \<Longrightarrow> pods_holding (store_pods w') p = pods_holding (store_pods w) p \<or>
     p \<notin> R \<and> pods_holding (store_pods w') p = None"
  unfolding store_env_def by (drule spec [of _ p]) (auto simp: store_holding pod_holding_def store_pod_def)

interpretation store: pool_system "podIPPoolManager store_api sel" "\<lambda>w. pods_holding (store_pods w)"
    store_runtime store_env
proof
  show "pods_holding (store_pods w') = pods_holding (store_pods w)"
    if "rand_N store_runtime n w = (k, w')" for n w k w'
    using store_rand_keeps [of n w] that by simp
qed (simp_all add: store_sleep_keeps store_env_holding)

interpretation store: quiet_pool "podIPPoolManager store_api sel" "\<lambda>w. pods_holding (store_pods w)"
    store_runtime "\<lambda>w p. p \<in> set (store_names w)"
proof
  show "(\<lambda>p. p \<in> set (store_names w')) = (\<lambda>p. p \<in> set (store_names w))"
    if "rand_N store_runtime n w = (k, w')" for n w k w'
    using that by (auto simp: store_runtime_def split: list.splits)
qed (auto simp: podIPPoolManager_def pod_UsageLookup_def pod_SetIPAddress_def store_api_def store_patch_def
    store_runtime_def Let_def split: if_splits)

section \<open>Properties\<close>

text \<open>
  C7: \<^verbatim>\<open>AcquireIP\<close> is a run of at most 151 steps of the protocol, from the first lookup to
  the state in which it has returned; in particular it always returns.
\<close>

theorem AcquireIP_runs_protocol:
  "\<exists>k \<le> 151. (broker_step rt ^^ k) (Lookup 29, b, w) =
     (Finished (fst (AcquireIP rt b w)), snd (AcquireIP rt b w))"
  using AcquireIP_steps [of rt b w] by (cases "AcquireIP rt b w") simp

text \<open>
  C8: no two pods use the same address.  In every interleaving of the steps of the brokers of any
  number of pods, with brokers starting and stopping at any time, pods being deleted while their
  broker is not running, and API calls failing: if the brokers of two pods have returned addresses,
  the addresses differ, and each is recorded as used by its pod.
\<close>

theorem pool_mutual_exclusion:
  assumes "pod_api pods sel pods_of"
    and "\<And>n w. pods_of (snd (rand_N rt n w)) = pods_of w" and "\<And>d w. pods_of (Sleep rt d w) = pods_of w"
    and "\<And>R w w' p. env R w w' \<Longrightarrow> pods_holding (pods_of w') p = pods_holding (pods_of w) p \<or>
           p \<notin> R \<and> pods_holding (pods_of w') p = None"
    and "exclusive (pods_holding (pods_of w))"
    and "(pool_step (podIPPoolManager pods sel) rt env)\<^sup>*\<^sup>* (pool_init w) s"
    and "procs s p = Some (Finished (Inr x), b)" and "procs s q = Some (Finished (Inr y), c)" and "p \<noteq> q"
  shows "x \<noteq> y \<and> pods_holding (pods_of (shared s)) p = Some (x, True)"
proof -
  have sys: "pool_system (podIPPoolManager pods sel) (\<lambda>w. pods_holding (pods_of w)) rt env"
  proof (intro pool_system.intro pool_runtime.intro pool_runtime_axioms.intro pool_system_axioms.intro)
    show "ip_pool (podIPPoolManager pods sel) (\<lambda>w. pods_holding (pods_of w))"
      using assms(1) by (rule pod_api.manager_is_pool)
    show "pods_holding (pods_of w') = pods_holding (pods_of w)" if "rand_N rt n w = (k, w')" for n w k w'
      using assms(2) [of n w] that by simp
  qed (use assms(3,4) in auto)
  note unshared = pool_system.no_shared_address [OF sys assms(6,5,7-9)]
  show ?thesis using unshared by simp
qed

text \<open>
  A pod that already uses an address gets that address again when its broker starts anew, and
  the pool is not changed.
\<close>

theorem AcquireIP_again:
  assumes "quiet_pool mgr holding rt present" and "NewIPAddressBroker mgr cfg = Inr b" and "PodName cfg = p"
    and "holding w p = Some (x, True)"
  shows "\<exists>w'. AcquireIP rt b w = (Inr x, b, w') \<and> holding w' = holding w"
proof -
  have "manager b = mgr" "ownName b = p"
    using assms(2,3) by (auto simp: NewIPAddressBroker_def split: sum.splits prod.splits option.splits)
  then show ?thesis
    using quiet_pool.acquire_used [OF assms(1)] assms(4) by blast
qed

text \<open>
  A broker that runs undisturbed reserves and then uses the address that it draws: when
  \<^verbatim>\<open>findFreeIPAddress\<close> finds an address, \<^verbatim>\<open>AcquireIP\<close> returns it, no other pod holds it,
  and the pool records it as used by this pod and is otherwise unchanged.
\<close>

lemma find_free_free:
  "find_free rt b l n w = (x, w') \<Longrightarrow> x \<noteq> '''' \<Longrightarrow> x \<notin> ForeignUsed l \<and> x \<notin> ForeignReserved l"
  by (induction n arbitrary: w) (auto simp: Let_def split: prod.splits if_splits)

theorem AcquireIP_alone:
  assumes "quiet_pool mgr holding rt present" and "NewIPAddressBroker mgr cfg = Inr b" and "PodName cfg = p"
    and "present w p" and "\<forall>x. holding w p \<noteq> Some (x, True)"
    and "UsageLookup mgr p w = (Inr l, w1)" and "findFreeIPAddress rt b l w1 = (x, w2)" and "x \<noteq> ''''"
  shows "\<exists>b' w'. AcquireIP rt b w = (Inr x, b', w') \<and> holding w' = (holding w)(p \<mapsto> (x, True)) \<and>
    (\<forall>q u. q \<noteq> p \<longrightarrow> holding w q \<noteq> Some (x, u))"
proof -
  have b: "manager b = mgr" "ownName b = p"
    using assms(2,3) by (auto simp: NewIPAddressBroker_def split: sum.splits prod.splits option.splits)
  have free: "x \<notin> ForeignUsed l" "x \<notin> ForeignReserved l"
    using find_free_free [OF assms(7) [unfolded findFreeIPAddress_def] assms(8)] by auto
  have pool: "ip_pool mgr holding"
    using assms(1) by (simp add: quiet_pool_def pool_runtime_def)
  have "\<forall>q u. q \<noteq> p \<longrightarrow> holding w q \<noteq> Some (x, u)"
    using free reflects_no_conflict [OF ip_pool.lookup_reflects [OF pool assms(6)], of "b\<lparr>ownIP := x\<rparr>"]
    by (simp add: hasConflict_def)
  then show ?thesis
    using quiet_pool.acquire_alone [OF assms(1) b(1), of w l w1 x w2] assms(4-8) b(2) free by auto
qed

text \<open>
  What \<^verbatim>\<open>findFreeIPAddress\<close> returns is free and is the text of an address of the pool:
  one with an index from 1 to 65535 in the VPN network.
\<close>

theorem findFreeIPAddress_in_pool:
  assumes "ParseIPNet s = Inr (VPNNetwork cfg)" and "validateVPNNetworkCIDR (VPNNetwork cfg) = None"
    and "take 12 (net_ip (VPNNetwork cfg)) \<noteq> v4_in_v6_prefix"
    and "NewIPAddressBroker mgr cfg = Inr b"
    and "\<And>m w k w'. 0 < m \<Longrightarrow> rand_N rt m w = (k, w') \<Longrightarrow> 0 \<le> k \<and> k < m"
    and "findFreeIPAddress rt b l w = (x, w')" and "x \<noteq> ''''"
  shows "x \<notin> ForeignUsed l \<and> x \<notin> ForeignReserved l \<and>
    (\<exists>i. 1 \<le> i \<and> i \<le> 0xffff \<and> x = ip_string (pool_address (base b) 0xffff i) \<and>
         net_contains (VPNNetwork cfg) (pool_address (base b) 0xffff i))"
proof -
  obtain q where q: "length q = 12" "q \<noteq> v4_in_v6_prefix" and n: "net_ip (VPNNetwork cfg) = q @ [0, 0, 0, 0]"
    and m: "net_mask (VPNNetwork cfg) = mask_bytes 16 (8 * 12)"
    by (rule vpn_netE [OF vpn_netI [OF assms(1-3)]])
  have b: "base b = q @ [0, 0xa, 0, 0]" "startIndex b = 1" "endIndex b = 0xffff"
    using assms(4) unfolding NewIPAddressBroker_def part_bytes(2) [OF q(1) n]
    by (auto simp: checkRange_def)
  have contains: "net_contains (VPNNetwork cfg) (pool_address (base b) 0xffff i)" for i
    using q n by (simp add: net_contains_v6 [OF _ _ m] to4_v6 b(1) part_bytes(5) [OF q(1) n] norm_ip_def)
  show ?thesis
    using find_free_range [OF assms(6) [unfolded findFreeIPAddress_def] assms(7) assms(5)] contains
    by (auto simp: b(2,3) checkRange_def)
qed

section \<open>Witnesses\<close>

text \<open>Brokers that run one after the other are one of the interleavings.\<close>

lemma pool_run:
  assumes "procs s p = Some (st, b)" and "(broker_step rt ^^ k) (st, b, shared s) = (st', b', w')"
  shows "(pool_step mgr rt env)\<^sup>*\<^sup>* s (s\<lparr>procs := (procs s)(p \<mapsto> (st', b')), shared := w'\<rparr>)"
  using assms
proof (induction k arbitrary: s st b)
  case 0
  then have "s\<lparr>procs := (procs s)(p \<mapsto> (st', b')), shared := w'\<rparr> = s"
    by (auto simp: fun_upd_idem)
  then show ?case by (simp only: rtranclp.rtrancl_refl)
next
  case (Suc k)
  obtain st1 b1 w1 where one: "broker_step rt (st, b, shared s) = (st1, b1, w1)"
    using prod_cases3 by blast
  let ?s = "s\<lparr>procs := (procs s)(p \<mapsto> (st1, b1)), shared := w1\<rparr>"
  have "pool_step mgr rt env s ?s"
    using Suc.prems(1) one by (rule pool_step.Run)
  moreover have "(pool_step mgr rt env)\<^sup>*\<^sup>* ?s (?s\<lparr>procs := (procs ?s)(p \<mapsto> (st', b')), shared := w'\<rparr>)"
    using Suc.prems(2) one by (intro Suc.IH [of ?s st1 b1]) (simp_all add: funpow_step del: funpow.simps)
  ultimately have "(pool_step mgr rt env)\<^sup>*\<^sup>* s (?s\<lparr>procs := (procs ?s)(p \<mapsto> (st', b')), shared := w'\<rparr>)"
    by (rule converse_rtranclp_into_rtranclp)
  moreover have "?s\<lparr>procs := (procs ?s)(p \<mapsto> (st', b')), shared := w'\<rparr> =
      s\<lparr>procs := (procs s)(p \<mapsto> (st', b')), shared := w'\<rparr>"
    by (rule pool.equality) simp_all
  ultimately show ?case by (simp only:)
qed

lemma pool_acquire:
  assumes "procs s p = None" and "NewIPAddressBroker mgr cfg = Inr b" and "PodName cfg = p"
    and "AcquireIP rt b (shared s) = (r, b', w')"
  shows "(pool_step mgr rt env)\<^sup>*\<^sup>* s (s\<lparr>procs := (procs s)(p \<mapsto> (Finished r, b')), shared := w'\<rparr>)"
proof -
  let ?s = "s\<lparr>procs := (procs s)(p \<mapsto> (Lookup 29, b))\<rparr>"
  obtain k where "(broker_step rt ^^ k) (Lookup 29, b, shared ?s) = (Finished r, b', w')"
    using AcquireIP_steps [OF assms(4)] by auto
  then have "(pool_step mgr rt env)\<^sup>*\<^sup>* ?s (?s\<lparr>procs := (procs ?s)(p \<mapsto> (Finished r, b')), shared := w'\<rparr>)"
    by (intro pool_run [where st = "Lookup 29" and b = b]) simp
  with pool_step.Start [OF assms(1-3), of rt env]
  have "(pool_step mgr rt env)\<^sup>*\<^sup>* s (?s\<lparr>procs := (procs ?s)(p \<mapsto> (Finished r, b')), shared := w'\<rparr>)"
    by (rule converse_rtranclp_into_rtranclp)
  then show ?thesis by simp
qed

definition example_prefix :: ip where
  "example_prefix = [0xfd, 0x8f, 0x6d, 0x53, 0xb9, 0x7a, 0, 1, 0, 0, 0, 0]"

definition example_nw :: CIDR where
  "example_nw = \<lparr>net_ip = example_prefix @ [0, 0, 0, 0], net_mask = mask_bytes 16 96\<rparr>"

definition example_broker :: "string \<Rightarrow> pool_store ipAddressBroker" where
  "example_broker p = \<lparr>manager = podIPPoolManager store_api ''role=apiserver'', base = example_prefix @ [0, 0xa, 0, 0],
     startIndex = 1, endIndex = 0xffff, ownName = p, waitTime = 2000000000, ownIP = '''', ownUsed = False\<rparr>"

definition example_store :: pool_store where
  "example_store = \<lparr>store_names = [''a'', ''b''], store_annotations = (\<lambda>_. None), seeds = [4, 4, 6], clock = 0\<rparr>"

lemma example_prefix_length: "length example_prefix = 12"
  by (simp add: example_prefix_def)

definition example_client :: "string \<Rightarrow> VPNClient" where
  "example_client p = \<lparr>IPFamilies = [IPv4Family], Endpoint = ''vpn'', OpenVPNPort = 8132, VPNNetwork = example_nw,
     SeedPodNetwork = zero_CIDR, ShootServiceNetworks = [], ShootPodNetworks = [], ShootNodeNetworks = [],
     IsShootClient = False, PodName = p, Namespace = ''shoot'', VPNServerIndex = ''0'', VPNClientIndex = -1,
     IsHA = True, ReversedVPNHeader = '''', ReversedVPNHeaderKey = '''', HAVPNClients = 2, HAVPNServers = 2,
     PodLabelSelector = ''role=apiserver'', WaitTime = 2000000000, BondingModeName = BondingModeActiveBackup,
     AutoMTU = False\<rparr>"

lemma example_New:
  "NewIPAddressBroker (podIPPoolManager store_api ''role=apiserver'') (example_client p) = Inr (example_broker p)"
  "PodName (example_client p) = p"
  using part_bytes(2) [OF example_prefix_length, of example_nw]
  by (simp_all add: NewIPAddressBroker_def example_broker_def example_client_def example_nw_def checkRange_def)

lemma example_address:
  "ip_string (pool_address (example_prefix @ [0, 0xa, 0, 0]) 0xffff 5) = ''fd8f:6d53:b97a:1::a:5''"
  "ip_string (pool_address (example_prefix @ [0, 0xa, 0, 0]) 0xffff 7) = ''fd8f:6d53:b97a:1::a:7''"
  using part_bytes(5) [OF example_prefix_length, of example_nw]
  by (simp_all add: example_nw_def) (simp_all add: example_prefix_def ip_string_def to4_def v4_in_v6_prefix_def
      ip6_string_def zero_run_def net_eval Let_def)

lemma find_free_numeral:
  "find_free rt b l (numeral m) w =
     (let (r, w') = rand_N rt (endIndex b - startIndex b + 1) w;
          s = ip_string (pool_address (base b) (endIndex b) (r + startIndex b))
      in if s \<in> ForeignUsed l then find_free rt b l (pred_numeral m) w'
         else if s \<in> ForeignReserved l then find_free rt b l (pred_numeral m) w'
         else (s, w'))"
  by (simp add: numeral_eq_Suc)

lemmas acquire_eval = AcquireIP_def acquire_loop.simps [of _ 29] acquire_iteration_def getExistingIPAddresses_def
  announceIPAddress_def hasConflict_def findFreeIPAddress_def find_free_numeral
  podIPPoolManager_def pod_UsageLookup_def pod_SetIPAddress_def store_api_def store_runtime_def
  store_pods_def store_pod_def store_patch_def patch_pod_def lookup_pod_def annotation_def empty_lookup_def
  AnnotationUsedIP_def AnnotationReservedIP_def example_broker_def Let_def

text \<open>The store after the brokers of \<open>a\<close> and of \<open>b\<close>, which draws the address of \<open>a\<close> first.\<close>

definition example_store_a :: pool_store where
  "example_store_a = \<lparr>store_names = [''a'', ''b''],
     store_annotations = (\<lambda>_. None)(''a'' \<mapsto> [(AnnotationReservedIP, ''fd8f:6d53:b97a:1::a:5''),
        (AnnotationUsedIP, ''fd8f:6d53:b97a:1::a:5'')]),
     seeds = [4, 6], clock = 2000000000\<rparr>"

lemma example_acquire_a:
  "AcquireIP store_runtime (example_broker ''a'') example_store =
     (Inr ''fd8f:6d53:b97a:1::a:5'',
      (example_broker ''a'')\<lparr>ownIP := ''fd8f:6d53:b97a:1::a:5'', ownUsed := True\<rparr>, example_store_a)"
  by (simp add: acquire_eval example_store_def example_store_a_def example_address [unfolded Let_def])

lemma example_acquire_b:
  "\<exists>b w. AcquireIP store_runtime (example_broker ''b'') example_store_a =
     (Inr ''fd8f:6d53:b97a:1::a:7'', b, w)"
  by (simp add: acquire_eval example_store_a_def example_address [unfolded Let_def])

lemma example_exclusive: "exclusive (pods_holding (store_pods example_store))"
  by (simp add: exclusive_def store_holding pod_holding_def store_pod_def example_store_def)

theorem pool_mutual_exclusion_witness:
  "\<exists>s b c w. (pool_step (podIPPoolManager store_api ''role=apiserver'') store_runtime store_env)\<^sup>*\<^sup>*
      (pool_init example_store) s \<and>
     procs s ''a'' = Some (Finished (Inr ''fd8f:6d53:b97a:1::a:5''), b) \<and>
     procs s ''b'' = Some (Finished (Inr ''fd8f:6d53:b97a:1::a:7''), c) \<and>
     pods_holding (store_pods (shared s)) ''a'' = Some (''fd8f:6d53:b97a:1::a:5'', True)"
proof -
  let ?step = "pool_step (podIPPoolManager store_api ''role=apiserver'') store_runtime store_env"
  obtain b c w where b: "AcquireIP store_runtime (example_broker ''b'') example_store_a =
      (Inr ''fd8f:6d53:b97a:1::a:7'', c, w)"
    using example_acquire_b by blast
  let ?sa = "\<lparr>procs = (\<lambda>_. None)(''a'' \<mapsto> (Finished (Inr ''fd8f:6d53:b97a:1::a:5''),
      (example_broker ''a'')\<lparr>ownIP := ''fd8f:6d53:b97a:1::a:5'', ownUsed := True\<rparr>)), shared = example_store_a\<rparr>"
  let ?sb = "?sa\<lparr>procs := (procs ?sa)(''b'' \<mapsto> (Finished (Inr ''fd8f:6d53:b97a:1::a:7''), c)), shared := w\<rparr>"
  have "?step\<^sup>*\<^sup>* (pool_init example_store) ?sa"
    using pool_acquire [OF _ example_New, of "pool_init example_store"] example_acquire_a
    by (simp add: pool_init_def)
  moreover have "?step\<^sup>*\<^sup>* ?sa ?sb"
    by (rule pool_acquire [OF _ example_New]) (simp_all add: b)
  ultimately have run: "?step\<^sup>*\<^sup>* (pool_init example_store) ?sb" by (rule rtranclp_trans)
  note unshared = pool_mutual_exclusion [OF store.pod_api_axioms store_rand_keeps store_sleep_keeps
      store_env_holding example_exclusive run, of "''a''" _ _ "''b''"]
  then show ?thesis using run by (intro exI [of _ ?sb]) auto
qed

theorem AcquireIP_again_witness:
  "\<exists>w'. AcquireIP store_runtime (example_broker ''a'') example_store_a =
     (Inr ''fd8f:6d53:b97a:1::a:5'', example_broker ''a'', w')"
proof -
  have "pods_holding (store_pods example_store_a) ''a'' = Some (''fd8f:6d53:b97a:1::a:5'', True)"
    by (simp add: store_holding pod_holding_def store_pod_def example_store_a_def annotation_def keys_different)
  from AcquireIP_again [OF store.quiet_pool_axioms example_New this] show ?thesis by blast
qed

theorem AcquireIP_alone_witness:
  "\<exists>b w. AcquireIP store_runtime (example_broker ''a'') example_store = (Inr ''fd8f:6d53:b97a:1::a:5'', b, w)"
proof -
  obtain l w1 where look: "UsageLookup (podIPPoolManager store_api ''role=apiserver'') ''a'' example_store = (Inr l, w1)"
    "findFreeIPAddress store_runtime (example_broker ''a'') l w1 =
       (''fd8f:6d53:b97a:1::a:5'', w1\<lparr>seeds := [4, 6]\<rparr>)"
    by (simp add: acquire_eval example_store_def example_address [unfolded Let_def])
  have unused: "\<forall>x. pods_holding (store_pods example_store) ''a'' \<noteq> Some (x, True)"
    by (simp add: store_holding pod_holding_def store_pod_def example_store_def)
  show ?thesis
    using AcquireIP_alone [OF store.quiet_pool_axioms example_New _ unused look]
    by (auto simp: example_store_def)
qed

theorem findFreeIPAddress_in_pool_witness:
  "\<exists>i. 1 \<le> i \<and> i \<le> 0xffff \<and>
     ''fd8f:6d53:b97a:1::a:5'' = ip_string (pool_address (base (example_broker ''a'')) 0xffff i) \<and>
     net_contains (VPNNetwork (example_client ''a'')) (pool_address (base (example_broker ''a'')) 0xffff i)"
proof -
  let ?nw = "VPNNetwork (example_client ''a'')"
  have nw: "ParseIPNet ''fd8f:6d53:b97a:1::/96'' = Inr ?nw" "validateVPNNetworkCIDR ?nw = None"
    "take 12 (net_ip ?nw) \<noteq> v4_in_v6_prefix"
    using example_vpn_net example_vpn_net_ok by (simp_all add: example_client_def example_nw_def example_prefix_def)
  have rand: "0 \<le> k \<and> k < m" if "0 < m" "rand_N store_runtime m w = (k, w')" for m w k w'
    using that by (auto simp: store_runtime_def split: list.splits)
  have find: "findFreeIPAddress store_runtime (example_broker ''a'') (empty_lookup ''a'') example_store =
      (''fd8f:6d53:b97a:1::a:5'', example_store\<lparr>seeds := [4, 6]\<rparr>)"
    by (simp add: acquire_eval example_store_def example_address [unfolded Let_def])
  show ?thesis
    by (rule findFreeIPAddress_in_pool [OF nw example_New(1) _ find, THEN conjunct2, THEN conjunct2])
      (use rand in auto)
qed

end
