(* ===== verification/Watchdog.thy ===== *)
theory Watchdog
  imports Net_Types
begin

text \<open>
  \<^verbatim>\<open>pkg/shoot_client/tunnel/watchdog.go\<close>: a watchdog that records failures and successes in a
  circular window, calls an action when the window holds enough failures, and then ignores a number
  of events.  The action is a function on the state of the world.
\<close>

section \<open>Definitions\<close>

record 'w Watchdog =
  window :: "bool list"
  windowPos :: nat
  threshold :: int
  cooldown :: int
  cooldownCount :: int
  action :: "'w \<Rightarrow> go_error option \<times> 'w"

definition NewWatchdog ::
  "int \<Rightarrow> int \<Rightarrow> int \<Rightarrow> ('w \<Rightarrow> go_error option \<times> 'w) \<Rightarrow> go_error + 'w Watchdog"
where
  "NewWatchdog windowsize thresh cool act =
     (if windowsize \<le> 0 then Inl (Errorf ''invalid windowsize %d, must be > 0'' [int_string windowsize])
      else if thresh \<le> 0 then Inl (Errorf ''invalid threshold %d, must be > 0'' [int_string thresh])
      else if thresh > windowsize
      then Inl (Errorf ''invalid threshold %d, must be <= windowsize %d'' [int_string thresh, int_string windowsize])
      else if cool \<le> 0 then Inl (Errorf ''invalid cooldown %d, must be > 0'' [int_string cool])
      else Inr \<lparr>window = replicate (nat windowsize) False, windowPos = 0, threshold = thresh,
                cooldown = cool, cooldownCount = 0, action = act\<rparr>)"

definition reset :: "'w Watchdog \<Rightarrow> 'w Watchdog" where
  "reset wd = wd\<lparr>window := replicate (length (window wd)) False, windowPos := 0\<rparr>"

text \<open>\<^verbatim>\<open>record\<close>: the watchdog is updated and the error of the action, if it is called, returned.\<close>

definition record_event :: "bool \<Rightarrow> 'w Watchdog \<Rightarrow> 'w \<Rightarrow> go_error option \<times> 'w Watchdog \<times> 'w" where
  "record_event failure wd w =
     (if cooldownCount wd > 0 then (None, wd\<lparr>cooldownCount := cooldownCount wd - 1\<rparr>, w)
      else (let wd1 = wd\<lparr>window := (window wd)[windowPos wd := failure]\<rparr>;
                wd2 = wd1\<lparr>windowPos := (windowPos wd1 + 1) mod length (window wd1)\<rparr>;
                failures = int (length (filter (\<lambda>f. f) (window wd2)))
            in if failures \<ge> threshold wd2
               then (let wd3 = reset (wd2\<lparr>cooldownCount := cooldown wd2\<rparr>);
                         (err, w') = action wd3 w
                     in (err, wd3, w'))
               else (None, wd2, w)))"

definition Fail :: "'w Watchdog \<Rightarrow> 'w \<Rightarrow> go_error option \<times> 'w Watchdog \<times> 'w" where
  "Fail wd w = record_event True wd w"

definition Succeed :: "'w Watchdog \<Rightarrow> 'w \<Rightarrow> go_error option \<times> 'w Watchdog \<times> 'w" where
  "Succeed wd w = record_event False wd w"

text \<open>A sequence of events; the errors of the action are dropped, as by the caller.\<close>

fun feed :: "bool list \<Rightarrow> 'w Watchdog \<times> 'w \<Rightarrow> 'w Watchdog \<times> 'w" where
  "feed [] s = s"
| "feed (f # fs) (wd, w) = feed fs (snd (if f then Fail wd w else Succeed wd w))"

end
