(* ===== verification/Watchdog_Proofs.thy ===== *)
theory Watchdog_Proofs
  imports Watchdog
begin

text \<open>
  The circular window of the watchdog refines the list of the last events, and the properties that
  follow for sequences of events.
\<close>

section \<open>Specification\<close>

text \<open>
  The events that count, the last one first, at most \<open>n\<close> of them, and the number of events that
  are still ignored.  The flag says that the action is called.
\<close>

type_synonym wd_spec = "bool list \<times> nat"

definition spec_event :: "nat \<Rightarrow> nat \<Rightarrow> nat \<Rightarrow> bool \<Rightarrow> wd_spec \<Rightarrow> wd_spec \<times> bool" where
  "spec_event n t c f s =
     (let (recent, ignored) = s
      in if 0 < ignored then ((recent, ignored - 1), False)
         else (let r = take n (f # recent)
               in if t \<le> length (filter (\<lambda>f. f) r) then (([], c), True) else ((r, 0), False)))"

fun spec_run :: "nat \<Rightarrow> nat \<Rightarrow> nat \<Rightarrow> bool list \<Rightarrow> wd_spec \<Rightarrow> wd_spec \<times> bool list" where
  "spec_run n t c [] s = (s, [])"
| "spec_run n t c (f # fs) s =
     (let (s', trig) = spec_event n t c f s; (s'', trigs) = spec_run n t c fs s' in (s'', trig # trigs))"

section \<open>The circular window\<close>

text \<open>The events in the window, the last one first.\<close>

definition view :: "'w Watchdog \<Rightarrow> bool list" where
  "view wd = rev (rotate (windowPos wd) (window wd))"

lemma rotate_update:
  assumes "p < length xs"
  shows "rotate (Suc p mod length xs) (xs[p := x]) = tl (rotate p xs) @ [x]"
proof -
  have "rotate p xs = drop p xs @ take p xs" "rotate p (xs[p := x]) = drop p (xs[p := x]) @ take p xs"
    using assms by (simp_all add: rotate_drop_take)
  moreover have "drop p xs = xs ! p # drop (Suc p) xs" "drop p (xs[p := x]) = x # drop (Suc p) xs"
    using assms by (simp_all add: Cons_nth_drop_Suc [symmetric])
  moreover have "rotate (Suc p mod length xs) (xs[p := x]) = rotate1 (rotate p (xs[p := x]))"
    by (metis length_list_update rotate_Suc rotate_conv_mod)
  ultimately show ?thesis by simp
qed

lemma view_update:
  assumes "windowPos wd < length (window wd)"
  shows "view (wd\<lparr>window := (window wd)[windowPos wd := f],
                windowPos := Suc (windowPos wd) mod length (window wd)\<rparr>) =
         take (length (window wd)) (f # view wd)"
proof -
  let ?r = "rotate (windowPos wd) (window wd)"
  have len: "length ?r = length (window wd)" by simp
  have "?r \<noteq> []" using assms by auto
  then obtain y ys where r: "?r = y # ys" by (cases ?r) auto
  with len have "length (window wd) = Suc (length ys)" by simp
  then show ?thesis
    using r rotate_update [OF assms, of f] by (simp add: view_def)
qed

lemma filter_view: "length (filter P (view wd)) = length (filter P (window wd))"
proof -
  have "mset (rotate k xs) = mset xs" for k and xs :: "bool list"
    by (metis append_take_drop_id mset_append rotate_drop_take union_commute)
  then have "mset (view wd) = mset (window wd)" by (simp add: view_def)
  then show ?thesis by (metis mset_filter size_mset)
qed

section \<open>Refinement\<close>

definition wd_rel :: "nat \<Rightarrow> nat \<Rightarrow> nat \<Rightarrow> 'w Watchdog \<Rightarrow> wd_spec \<Rightarrow> bool" where
  "wd_rel n t c wd s \<longleftrightarrow>
     0 < n \<and> length (window wd) = n \<and> windowPos wd < n \<and> threshold wd = int t \<and> cooldown wd = int c \<and>
     cooldownCount wd = int (snd s) \<and> length (fst s) \<le> n \<and>
     view wd = fst s @ replicate (n - length (fst s)) False"

lemma NewWatchdog_rel:
  assumes "NewWatchdog n t c act = Inr wd"
  shows "wd_rel (nat n) (nat t) (nat c) wd ([], 0)" and "0 < nat t" and "nat t \<le> nat n" and "0 < nat c"
    and "action wd = act"
  using assms
  by (auto simp: NewWatchdog_def wd_rel_def view_def split: if_splits)

lemma record_event_refines:
  assumes rel: "wd_rel n t c wd s" and step: "spec_event n t c f s = (s', trig)"
  shows "\<exists>wd'. record_event f wd w = (if trig then (fst (action wd w), wd', snd (action wd w)) else (None, wd', w)) \<and>
    wd_rel n t c wd' s' \<and> action wd' = action wd"
proof (cases "0 < snd s")
  case True
  with rel step show ?thesis
    by (auto simp: record_event_def spec_event_def wd_rel_def view_def split: prod.splits)
next
  case False
  obtain recent where s: "s = (recent, 0)" using False by (cases s) auto
  have n: "0 < n" "length (window wd) = n" "windowPos wd < n" and cool: "cooldownCount wd = 0"
    and tc: "threshold wd = int t" "cooldown wd = int c"
    and rec: "length recent \<le> n" "view wd = recent @ replicate (n - length recent) False"
    using rel s by (simp_all add: wd_rel_def)
  define wd2 where "wd2 = wd\<lparr>window := (window wd)[windowPos wd := f],
      windowPos := Suc (windowPos wd) mod length (window wd)\<rparr>"
  let ?r = "take n (f # recent)"
  have view2: "view wd2 = ?r @ replicate (n - length ?r) False"
    using view_update [of wd f] n rec unfolding wd2_def
    by (cases "length recent = n") (auto simp: take_Cons' Suc_diff_le)
  have count: "length (filter (\<lambda>f. f) (window wd2)) = length (filter (\<lambda>f. f) ?r)"
    unfolding filter_view [symmetric] view2 by simp
  have event: "record_event f wd w =
      (if t \<le> length (filter (\<lambda>f. f) ?r)
       then (fst (action wd w), reset (wd2\<lparr>cooldownCount := cooldown wd2\<rparr>), snd (action wd w))
       else (None, wd2, w))"
    using count cool tc
    by (simp add: record_event_def wd2_def Let_def reset_def split: prod.splits)
  have "wd_rel n t c (reset (wd2\<lparr>cooldownCount := cooldown wd2\<rparr>)) ([], c)"
    using n tc by (simp add: wd_rel_def reset_def wd2_def view_def)
  moreover have "wd_rel n t c wd2 (?r, 0)"
    using n tc cool view2 by (simp add: wd_rel_def) (simp add: wd2_def)
  moreover have "action wd2 = action wd" "action (reset (wd2\<lparr>cooldownCount := cooldown wd2\<rparr>)) = action wd"
    by (simp_all add: wd2_def reset_def)
  ultimately show ?thesis
    using step s event by (auto simp: spec_event_def Let_def split: if_splits)
qed

section \<open>Sequences of events\<close>

lemma feed_event: "feed (f # fs) (wd, w) = feed fs (snd (record_event f wd w))"
  by (simp add: Fail_def Succeed_def)

lemma feed_append: "feed (fs @ gs) s = feed gs (feed fs s)"
  by (induction fs s rule: feed.induct) simp_all

text \<open>What the specification says of a sequence of events is what the watchdog does.\<close>

lemma feed_refines:
  assumes "wd_rel n t c wd s" and "spec_run n t c es s = (s', trigs)"
  shows "\<exists>wd'. feed es (wd, w) =
      (wd', ((\<lambda>w. snd (action wd w)) ^^ length (filter (\<lambda>x. x) trigs)) w) \<and> wd_rel n t c wd' s' \<and> action wd' = action wd"
  using assms
proof (induction es arbitrary: wd w s s' trigs)
  case Nil
  then show ?case by auto
next
  case (Cons f fs)
  obtain s1 trig where one: "spec_event n t c f s = (s1, trig)" by fastforce
  obtain trigs' where rest: "spec_run n t c fs s1 = (s', trigs')" and trigs: "trigs = trig # trigs'"
    using Cons.prems(2) one by (auto split: prod.splits)
  obtain wd1 where ev: "record_event f wd w =
      (if trig then (fst (action wd w), wd1, snd (action wd w)) else (None, wd1, w))"
    and rel: "wd_rel n t c wd1 s1" "action wd1 = action wd"
    using record_event_refines [OF Cons.prems(1) one] by blast
  show ?case
    using Cons.IH [OF rel(1) rest] rel(2)
    by (cases trig) (simp_all add: feed_event ev trigs funpow_Suc_right del: feed.simps funpow.simps)
qed

text \<open>Each call takes at least \<open>t\<close> failures and is followed by \<open>c\<close> ignored events.\<close>

lemma spec_event_count:
  assumes "spec_event n t c f s = (s', trig)" and "0 < n"
  shows "length (filter (\<lambda>x. x) (fst s')) + snd s + (if trig then t + c else 0) \<le>
    length (filter (\<lambda>x. x) (fst s)) + snd s' + 1"
proof -
  obtain recent ignored where s: "s = (recent, ignored)" by (cases s)
  have "length (filter (\<lambda>x. x) (take k xs)) \<le> length (filter (\<lambda>x. x) xs)" for k xs
    by (metis append_take_drop_id filter_append length_append le_add1)
  from this [of n "f # recent"]
  have "length (filter (\<lambda>x. x) (take n (f # recent))) \<le> Suc (length (filter (\<lambda>x. x) recent))"
    by (cases f) simp_all
  with assms(1) s show ?thesis
    by (auto simp: spec_event_def Let_def split: if_splits)
qed

lemma spec_run_count:
  assumes "spec_run n t c es s = (s', trigs)" and "0 < n"
  shows "length (filter (\<lambda>x. x) (fst s')) + snd s + length (filter (\<lambda>x. x) trigs) * (t + c) \<le>
      length (filter (\<lambda>x. x) (fst s)) + snd s' + length es" (is ?sum)
    and "snd s' \<le> max c (snd s)" (is ?ignored)
proof -
  have "?sum \<and> ?ignored"
    using assms(1)
  proof (induction es arbitrary: s s' trigs)
    case (Cons f fs)
    obtain s1 trig where one: "spec_event n t c f s = (s1, trig)" by fastforce
    obtain trigs' where rest: "spec_run n t c fs s1 = (s', trigs')" and trigs: "trigs = trig # trigs'"
      using Cons.prems one by (auto split: prod.splits)
    have "snd s1 \<le> max c (snd s)"
      using one by (auto simp: spec_event_def Let_def split: prod.splits if_splits)
    then show ?case
      using Cons.IH [OF rest] spec_event_count [OF one assms(2)] trigs by (cases trig) (auto simp: max_def split: if_splits)
  qed simp
  then show ?sum ?ignored by auto
qed

text \<open>A fresh watchdog, as long as the last \<open>n\<close> events never hold \<open>t\<close> failures.\<close>

definition failures_in_last :: "nat \<Rightarrow> bool list \<Rightarrow> nat" where
  "failures_in_last n es = length (filter (\<lambda>x. x) (take n (rev es)))"

lemma take_Cons_take: "take n (x # take n xs) = take n (x # xs)"
  by (cases n) (simp_all add: min_def)

lemma spec_event_fresh:
  "spec_event n t c f (take n (rev ds), 0) =
     (if t \<le> failures_in_last n (ds @ [f]) then (([], c), True) else ((take n (rev (ds @ [f])), 0), False))"
  by (simp add: spec_event_def take_Cons_take failures_in_last_def Let_def)

lemma spec_run_quiet:
  assumes "\<forall>k \<le> length es. failures_in_last n (ds @ take k es) < t"
  shows "spec_run n t c es (take n (rev ds), 0) = ((take n (rev (ds @ es)), 0), replicate (length es) False)"
  using assms
proof (induction es arbitrary: ds)
  case (Cons f fs)
  have "failures_in_last n (ds @ [f]) < t"
    using Cons.prems [rule_format, of 1] by simp
  moreover have "spec_run n t c fs (take n (rev (ds @ [f])), 0) =
      ((take n (rev ((ds @ [f]) @ fs)), 0), replicate (length fs) False)"
  proof (rule Cons.IH, intro allI impI)
    fix k
    assume "k \<le> length fs"
    then show "failures_in_last n ((ds @ [f]) @ take k fs) < t"
      using Cons.prems [rule_format, of "Suc k"] by simp
  qed
  ultimately show ?case by (simp add: spec_event_fresh)
qed simp

section \<open>Properties\<close>

text \<open>
  As long as no \<open>windowsize\<close> consecutive events hold \<open>threshold\<close> failures a new watchdog
  does not call the action; the next event makes it call the action exactly when \<open>threshold\<close> of
  the last \<open>windowsize\<close> events are failures then.
\<close>

theorem watchdog_first_call:
  assumes "NewWatchdog n t c act = Inr wd"
    and "\<forall>k \<le> length es. failures_in_last (nat n) (take k es) < nat t"
  shows "\<exists>wd'. feed es (wd, w) = (wd', w) \<and> (\<exists>wd2. record_event f wd' w =
     (if nat t \<le> failures_in_last (nat n) (es @ [f]) then (fst (act w), wd2, snd (act w)) else (None, wd2, w)))"
proof -
  note rel = NewWatchdog_rel [OF assms(1)]
  have "spec_run (nat n) (nat t) (nat c) es ([], 0) = ((take (nat n) (rev es), 0), replicate (length es) False)"
    using spec_run_quiet [of es "nat n" "[]" "nat t" "nat c"] assms(2) by simp
  then obtain wd' where wd': "feed es (wd, w) = (wd', w)"
    "wd_rel (nat n) (nat t) (nat c) wd' (take (nat n) (rev es), 0)" "action wd' = act"
    using feed_refines [OF rel(1), of es _ _ w] rel(5) by fastforce
  obtain s' trig where ev: "spec_event (nat n) (nat t) (nat c) f (take (nat n) (rev es), 0) = (s', trig)"
    by fastforce
  then have "trig = (nat t \<le> failures_in_last (nat n) (es @ [f]))"
    by (auto simp: spec_event_fresh split: if_splits)
  then show ?thesis
    using record_event_refines [OF wd'(2) ev, of w] wd' by auto
qed

text \<open>
  In any sequence of events a new watchdog calls the action \<open>m\<close> times and changes the world
  in no other way, where each call takes \<open>threshold\<close> events and, but for the last one,
  \<open>cooldown\<close> more.
\<close>

theorem watchdog_call_rate:
  assumes "NewWatchdog n t c act = Inr wd"
  shows "\<exists>m wd'. feed es (wd, w) = (wd', ((\<lambda>w. snd (act w)) ^^ m) w) \<and> m * nat (t + c) \<le> length es + nat c"
proof -
  note rel = NewWatchdog_rel [OF assms]
  obtain s' trigs where run: "spec_run (nat n) (nat t) (nat c) es ([], 0) = (s', trigs)" by fastforce
  have "length (filter (\<lambda>x. x) trigs) * (nat t + nat c) \<le> length es + nat c"
  proof -
    have "0 < nat n" using rel(2,3) by linarith
    from spec_run_count [OF run this] show ?thesis by simp
  qed
  moreover have "nat (t + c) = nat t + nat c"
    using rel(2,4) by simp
  ultimately show ?thesis
    using feed_refines [OF rel(1) run, of w] rel(5) by metis
qed

text \<open>
  Once the action has been called the next \<open>cooldown\<close> events are ignored, and after them
  the watchdog is in the state of a new one.
\<close>

lemma feed_ignored:
  "length gs \<le> k \<Longrightarrow>
     feed gs (v\<lparr>cooldownCount := int k\<rparr>, w) = (v\<lparr>cooldownCount := int (k - length gs)\<rparr>, w)"
proof (induction gs arbitrary: k)
  case (Cons g gs)
  then obtain j where k: "k = Suc j" "length gs \<le> j" by (cases k) auto
  then have "record_event g (v\<lparr>cooldownCount := int k\<rparr>) w = (None, v\<lparr>cooldownCount := int j\<rparr>, w)"
    by (simp add: record_event_def)
  then show ?case
    using Cons.IH [OF k(2)] k by (simp add: feed_event del: feed.simps)
qed simp

theorem watchdog_cooldown:
  assumes "NewWatchdog n t c act = Inr wd" and "feed es (wd, w) = (wd1, w1)"
    and "cooldownCount wd1 = 0" and "record_event f wd1 w1 = (e, wd2, w2)" and "0 < cooldownCount wd2"
    and "length gs = nat c"
  shows "feed gs (wd2, w2) = (wd, w2)"
proof -
  note rel = NewWatchdog_rel [OF assms(1)]
  obtain s' trigs where run: "spec_run (nat n) (nat t) (nat c) es ([], 0) = (s', trigs)" by fastforce
  have wd1: "wd_rel (nat n) (nat t) (nat c) wd1 s'" "action wd1 = act"
    using feed_refines [OF rel(1) run, of w] assms(2) rel(5) by auto
  have wd2: "wd2 = wd\<lparr>cooldownCount := int (nat c)\<rparr>"
    using assms(1,3,4,5) wd1 rel(2-4)
    by (auto simp: record_event_def reset_def wd_rel_def NewWatchdog_def Let_def split: if_splits prod.splits)
  moreover have "wd\<lparr>cooldownCount := 0\<rparr> = wd"
    using assms(1) by (auto simp: NewWatchdog_def split: if_splits)
  ultimately show ?thesis
    using feed_ignored [of gs "nat c" wd w2] assms(6) by simp
qed

section \<open>Witnesses\<close>

text \<open>A window of three events, a threshold of two, and an action that counts its calls.\<close>

definition example_wd :: "nat Watchdog" where
  "example_wd = \<lparr>window = [False, False, False], windowPos = 0, threshold = 2, cooldown = 2,
     cooldownCount = 0, action = (\<lambda>k. (None, Suc k))\<rparr>"

lemma example_NewWatchdog: "NewWatchdog 3 2 2 (\<lambda>k. (None, Suc k)) = Inr example_wd"
  by (simp add: NewWatchdog_def example_wd_def numeral_eq_Suc)

theorem watchdog_first_call_witness:
  "\<exists>wd' wd2. feed [True, False] (example_wd, 0) = (wd', 0) \<and> record_event True wd' 0 = (None, wd2, 1)"
  using watchdog_first_call [OF example_NewWatchdog, of "[True, False]" 0 True]
  by (auto simp: failures_in_last_def le_Suc_eq numeral_eq_Suc)

theorem watchdog_call_rate_witness:
  "\<exists>m wd'. feed [True, True, True, True, True, True] (example_wd, 0) = (wd', ((\<lambda>w. Suc w) ^^ m) 0) \<and> m \<le> 2"
proof -
  obtain m wd' where "feed [True, True, True, True, True, True] (example_wd, 0) = (wd', ((\<lambda>w. Suc w) ^^ m) 0)"
    and "m * 4 \<le> 8"
    using watchdog_call_rate [OF example_NewWatchdog, of "[True, True, True, True, True, True]" 0]
    by (auto simp del: feed.simps)
  then show ?thesis by auto
qed

lemma example_call:
  "record_event True (example_wd\<lparr>window := [True, False, False], windowPos := 1\<rparr>) 0 =
     (None, example_wd\<lparr>cooldownCount := 2\<rparr>, 1)"
  by (simp add: record_event_def reset_def example_wd_def)

theorem watchdog_cooldown_witness:
  "feed [True, True] (example_wd\<lparr>cooldownCount := 2\<rparr>, 1) = (example_wd, 1)"
proof (rule watchdog_cooldown [OF example_NewWatchdog _ _ example_call])
  show "feed [True] (example_wd, 0) = (example_wd\<lparr>window := [True, False, False], windowPos := 1\<rparr>, 0)"
    by (simp add: Fail_def record_event_def example_wd_def)
qed (simp_all add: example_wd_def)

end
