(* ===== verification/Net_Link.thy ===== *)
theory Net_Link
  imports Net_Addr
begin

text \<open>
  \<^verbatim>\<open>pkg/network/link.go\<close>, \<^verbatim>\<open>route.go\<close> and \<^verbatim>\<open>mtu.go\<close>: network devices, their addresses and
  the routes over them.  The library \<^verbatim>\<open>netlink\<close>, through which they reach the kernel, is a
  parameter: a record of functions on the states \<open>'w\<close> of the world.
\<close>

section \<open>The library\<close>

record LinkAttrs =
  Index :: int
  LinkName :: string
  MTU :: int

datatype BondMode = BOND_MODE_BALANCE_RR | BOND_MODE_ACTIVE_BACKUP

record BondOptions =
  BondingMode :: BondMode
  FailOverMacActive :: bool
  Miimon :: int
  UseCarrier :: int
  Primary :: int
  NumPeerNotif :: int

text \<open>The devices the program creates, and those it only finds.\<close>

datatype Link =
    Ip6tnl (Attrs: LinkAttrs) (Local: ip) (Remote: ip) (EncapLimit: nat) (IgnEncapLimit: bool)
  | TuntapTap (Attrs: LinkAttrs)
  | Bond (Attrs: LinkAttrs) (Options: BondOptions)
  | Device (Attrs: LinkAttrs)

definition NewLinkAttrs :: "string \<Rightarrow> LinkAttrs" where
  "NewLinkAttrs n = \<lparr>Index = 0, LinkName = n, MTU = 0\<rparr>"

record Addr =
  AddrNet :: ipnet
  Flags :: int
  Scope :: int

record Route =
  Dst :: "ipnet option"
  LinkIndex :: int

text \<open>\<^verbatim>\<open>LinkByName\<close> fails with \<^verbatim>\<open>LinkNotFoundError\<close> or with another error.\<close>

datatype link_error = LinkNotFoundError go_error | LinkOtherError go_error

fun as_error :: "link_error \<Rightarrow> go_error" where
  "as_error (LinkNotFoundError e) = e"
| "as_error (LinkOtherError e) = e"

record 'w netlink =
  LinkByName :: "string \<Rightarrow> 'w \<Rightarrow> (link_error + Link) \<times> 'w"
  LinkByIndex :: "int \<Rightarrow> 'w \<Rightarrow> (link_error + Link) \<times> 'w"
  LinkDel :: "Link \<Rightarrow> 'w \<Rightarrow> go_error option \<times> 'w"
  LinkAdd :: "Link \<Rightarrow> 'w \<Rightarrow> go_error option \<times> 'w"
  LinkSetUp :: "Link \<Rightarrow> 'w \<Rightarrow> go_error option \<times> 'w"
  LinkSetDown :: "Link \<Rightarrow> 'w \<Rightarrow> go_error option \<times> 'w"
  LinkSetMTU :: "Link \<Rightarrow> int \<Rightarrow> 'w \<Rightarrow> go_error option \<times> 'w"
  LinkSetMaster :: "Link \<Rightarrow> Link \<Rightarrow> 'w \<Rightarrow> go_error option \<times> 'w"
  AddrAdd :: "Link \<Rightarrow> Addr \<Rightarrow> 'w \<Rightarrow> go_error option \<times> 'w"
  AddrDel :: "Link \<Rightarrow> Addr \<Rightarrow> 'w \<Rightarrow> go_error option \<times> 'w"
  AddrList :: "Link \<Rightarrow> int \<Rightarrow> 'w \<Rightarrow> (go_error + Addr list) \<times> 'w"
  RouteList :: "'w \<Rightarrow> (go_error + Route list) \<times> 'w"
  RouteReplace :: "Route \<Rightarrow> 'w \<Rightarrow> go_error option \<times> 'w"

section \<open>Devices\<close>

definition familyAll :: int where "familyAll = 0"
definition ScopeUniverse :: int where "ScopeUniverse = 0"
definition ScopeLink :: int where "ScopeLink = 253"

definition DeleteLinkByName :: "'w netlink \<Rightarrow> string \<Rightarrow> 'w \<Rightarrow> go_error option \<times> 'w" where
  "DeleteLinkByName nl name w =
     (case LinkByName nl name w of
        (Inl (LinkNotFoundError _), w1) \<Rightarrow> (None, w1)
      | (Inl (LinkOtherError e), w1) \<Rightarrow> (Some (Wrapf ''failed to get link %s for deletion: %w'' [name] e), w1)
      | (Inr link, w1) \<Rightarrow>
          (case LinkDel nl link w1 of
             (Some e, w2) \<Rightarrow> (Some (Wrapf ''failed to delete link %s: %w'' [name] e), w2)
           | (None, w2) \<Rightarrow> (None, w2)))"

definition CreateTunnel :: "'w netlink \<Rightarrow> string \<Rightarrow> ip \<Rightarrow> ip \<Rightarrow> 'w \<Rightarrow> go_error option \<times> 'w" where
  "CreateTunnel nl linkName loc remote w =
     (let tunnel = Ip6tnl (NewLinkAttrs linkName) loc remote 0 True
      in case LinkAdd nl tunnel w of
           (Some e, w1) \<Rightarrow> (Some (Wrapf ''failed to add link %s: %w'' [linkName] e), w1)
         | (None, w1) \<Rightarrow>
             (case LinkSetUp nl tunnel w1 of
                (Some e, w2) \<Rightarrow> (Some (Wrapf ''failed to set up link %s: %w'' [linkName] e), w2)
              | (None, w2) \<Rightarrow> (None, w2)))"

definition getLinkIPAddresses :: "'w netlink \<Rightarrow> Link \<Rightarrow> int \<Rightarrow> 'w \<Rightarrow> (go_error + ip list) \<times> 'w" where
  "getLinkIPAddresses nl link scope w =
     (case AddrList nl link familyAll w of
        (Inl e, w1) \<Rightarrow> (Inl (Wrapf ''failed to list addresses of link %s: %w'' [LinkName (Attrs link)] e), w1)
      | (Inr addrs, w1) \<Rightarrow> (Inr (map (\<lambda>a. net_ip (AddrNet a)) (filter (\<lambda>a. Scope a = scope) addrs)), w1))"

definition GetLinkIPAddressesByName ::
  "'w netlink \<Rightarrow> string \<Rightarrow> int \<Rightarrow> 'w \<Rightarrow> (go_error + ip list) \<times> 'w"
where
  "GetLinkIPAddressesByName nl name scope w =
     (case LinkByName nl name w of
        (Inl e, w1) \<Rightarrow> (Inl (Wrapf ''failed to get link %s: %w'' [name] (as_error e)), w1)
      | (Inr link, w1) \<Rightarrow> getLinkIPAddresses nl link scope w1)"

definition GetLinkIPAddrForIP :: "'w netlink \<Rightarrow> string \<Rightarrow> ip \<Rightarrow> 'w \<Rightarrow> (go_error + Addr) \<times> 'w" where
  "GetLinkIPAddrForIP nl name a w =
     (case LinkByName nl name w of
        (Inl e, w1) \<Rightarrow> (Inl (Wrapf ''failed to get link %s: %w'' [name] (as_error e)), w1)
      | (Inr link, w1) \<Rightarrow>
          (case AddrList nl link familyAll w1 of
             (Inl e, w2) \<Rightarrow>
               (Inl (Wrapf ''failed to list addresses of link %s: %w'' [LinkName (Attrs link)] e), w2)
           | (Inr addrs, w2) \<Rightarrow>
               (case find (\<lambda>x. ip_equal (net_ip (AddrNet x)) a) addrs of
                  Some addr \<Rightarrow> (Inr addr, w2)
                | None \<Rightarrow> (Inl (Errorf ''no address %s found on link %s'' [ip_string a, name]), w2))))"

text \<open>
  \<^verbatim>\<open>IPAddrFlagsToString\<close>: \<open>flagTypes\<close> are the entries of its map of flags and names in the
  order in which \<^verbatim>\<open>range\<close> visits them; the flags are constants of package \<^verbatim>\<open>unix\<close>.  Trimming
  removes the space after the last name, the names hold none.
\<close>

definition IPAddrFlagsToString :: "(int \<times> string) list \<Rightarrow> int \<Rightarrow> string" where
  "IPAddrFlagsToString flagTypes flags =
     join_with '' '' (map snd (filter (\<lambda>(flag, name). flags AND flag \<noteq> 0) flagTypes))"

section \<open>Routes\<close>

definition defaultIPv4 :: ipnet where
  "defaultIPv4 = \<lparr>net_ip = [0, 0, 0, 0], net_mask = [0, 0, 0, 0]\<rparr>"

definition defaultIPv6 :: ipnet where
  "defaultIPv6 = \<lparr>net_ip = replicate 16 0, net_mask = replicate 16 0\<rparr>"

text \<open>The two networks are the constants that \<^verbatim>\<open>net.ParseCIDR\<close> returns for them.\<close>

definition is_default_route :: "Route \<Rightarrow> bool" where
  "is_default_route route =
     (case Dst route of
        None \<Rightarrow> False
      | Some d \<Rightarrow> ipnet_string d = ipnet_string defaultIPv4 \<or> ipnet_string d = ipnet_string defaultIPv6)"

definition getDefaultRoute :: "'w netlink \<Rightarrow> 'w \<Rightarrow> (go_error + Route) \<times> 'w" where
  "getDefaultRoute nl w =
     (case RouteList nl w of
        (Inl e, w1) \<Rightarrow> (Inl (Wrapf ''failed to list network routes: %w'' [] e), w1)
      | (Inr routes, w1) \<Rightarrow>
          (case find is_default_route routes of
             None \<Rightarrow> (Inl (Errorf ''failed to find default route'' []), w1)
           | Some r \<Rightarrow> (Inr r, w1)))"

definition routeForNetwork :: "ipnet \<Rightarrow> Link \<Rightarrow> Route" where
  "routeForNetwork n device = \<lparr>Dst = Some n, LinkIndex = Index (Attrs device)\<rparr>"

definition ReplaceRoute :: "'w netlink \<Rightarrow> ipnet \<Rightarrow> Link \<Rightarrow> 'w \<Rightarrow> go_error option \<times> 'w" where
  "ReplaceRoute nl n dev w =
     (case RouteReplace nl (routeForNetwork n dev) w of
        (Some e, w1) \<Rightarrow> (Some (Wrapf ''error replacing route for %s: %w'' [ipnet_string n] e), w1)
      | (None, w1) \<Rightarrow> (None, w1))"

section \<open>Tunnel MTU\<close>

definition MinimumMTU :: int where "MinimumMTU = 1280"
definition TunnelMTUOverhead :: int where "TunnelMTUOverhead = 130"

definition GetDefaultMTU :: "'w netlink \<Rightarrow> 'w \<Rightarrow> (go_error + int) \<times> 'w" where
  "GetDefaultMTU nl w =
     (case getDefaultRoute nl w of
        (Inl e, w1) \<Rightarrow> (Inl e, w1)
      | (Inr r, w1) \<Rightarrow>
          (case LinkByIndex nl (LinkIndex r) w1 of
             (Inl e, w2) \<Rightarrow> (Inl (Wrapf ''failed to find default route interface: %w'' [] (as_error e)), w2)
           | (Inr l, w2) \<Rightarrow> (Inr (MTU (Attrs l)), w2)))"

definition DetectTunnelMTU :: "'w netlink \<Rightarrow> int \<Rightarrow> 'w \<Rightarrow> (go_error + int) \<times> 'w" where
  "DetectTunnelMTU nl overhead w =
     (case GetDefaultMTU nl w of
        (Inl e, w1) \<Rightarrow> (Inl (Wrapf ''failed to detect tunnel MTU: %w'' [] e), w1)
      | (Inr defaultMTU, w1) \<Rightarrow>
          (let tunnelMTU = defaultMTU - overhead
           in if tunnelMTU < MinimumMTU then (Inr MinimumMTU, w1) else (Inr tunnelMTU, w1)))"

end
