(* ===== verification/Tunnel.thy ===== *)
theory Tunnel
  imports Net_Link Watchdog Config "HOL-Library.AList"
begin

text \<open>
  \<^verbatim>\<open>pkg/shoot_client/tunnel\<close>: the server on the shoot side that creates a tunnel device and a
  route for every kube-apiserver that announces its pod IP (\<^verbatim>\<open>tunnel.go\<close>, \<^verbatim>\<open>readiness.go\<close>,
  \<^verbatim>\<open>client.go\<close>).

  Times and durations are in nanoseconds.  The entries of the Go map are pointers to objects that
  goroutines update, so the controller has a heap of these objects, and the map gives positions in
  it.  A mutex is held during every operation on an object, and another one during every access to
  the map: operations are single steps.
\<close>

section \<open>A kube-apiserver\<close>

record kubeApiserverData =
  podIP :: string
  localAddr :: ip
  remoteAddr :: ip
  lastSeen :: int
  creationComplete :: bool
  lastCreationFailed :: "int option"
  creationFailedCount :: int
  lastError :: "go_error option"

definition second :: int where "second = 1000000000"
definition cleanUpPeriod :: int where "cleanUpPeriod = 15 * 60 * second"
definition creationFailureBackoff :: int where "creationFailureBackoff = 30 * second"
definition expirationDuration :: int where "expirationDuration = 10 * 60 * second"
definition tunnelControllerPort :: int where "tunnelControllerPort = 5400"
definition retriesToListen :: nat where "retriesToListen = 30"
definition retryListenWait :: int where "retryListenWait = 500000000"

definition setLastSeen :: "int \<Rightarrow> kubeApiserverData \<Rightarrow> kubeApiserverData" where
  "setLastSeen now d = d\<lparr>lastSeen := now\<rparr>"

definition needsUpdate :: "kubeApiserverData \<Rightarrow> string \<Rightarrow> int \<Rightarrow> bool" where
  "needsUpdate d pod_ip now =
     (if podIP d \<noteq> pod_ip then True
      else if creationComplete d then False
      else (case lastCreationFailed d of
              Some t \<Rightarrow> now - t > creationFailureBackoff
            | None \<Rightarrow> True))"

text \<open>The addresses of UDP peers have 16 bytes, so that the indices are in range.\<close>

definition linkName :: "kubeApiserverData \<Rightarrow> string" where
  "linkName d = BondDevice @ ''ip6tnl'' @ hex2 (remoteAddr d ! (length (remoteAddr d) - 2)) @
     hex2 (remoteAddr d ! (length (remoteAddr d) - 1))"

definition setFailed :: "int \<Rightarrow> go_error \<Rightarrow> kubeApiserverData \<Rightarrow> kubeApiserverData" where
  "setFailed now err d =
     d\<lparr>lastCreationFailed := Some now, creationFailedCount := creationFailedCount d + 1,
       lastError := Some err\<rparr>"

definition host_net :: "ip \<Rightarrow> ipnet" where
  "host_net a = \<lparr>net_ip = a, net_mask = cidr_mask (int (length a) * 8) (int (length a) * 8)\<rparr>"

definition update ::
  "'w netlink \<Rightarrow> ('w \<Rightarrow> int) \<Rightarrow> string \<Rightarrow> kubeApiserverData \<Rightarrow> 'w \<Rightarrow> kubeApiserverData \<times> 'w"
where
  "update nl clk pod_ip d0 w =
     (let d = d0\<lparr>podIP := pod_ip\<rparr>; name = linkName d
      in case DeleteLinkByName nl name w of
        (Some e, w1) \<Rightarrow> (setFailed (clk w1) (Wrapf ''failed to delete link %s: %w'' [name] e) d, w1)
      | (None, w1) \<Rightarrow>
     (case CreateTunnel nl name (localAddr d) (remoteAddr d) w1 of
        (Some e, w2) \<Rightarrow> (setFailed (clk w2) (Wrapf ''failed to create tunnel device %s: %w'' [name] e) d, w2)
      | (None, w2) \<Rightarrow>
     (case LinkByName nl name w2 of
        (Inl e, w3) \<Rightarrow> (setFailed (clk w3) (Wrapf ''failed to get link %s: %w'' [name] (as_error e)) d, w3)
      | (Inr link, w3) \<Rightarrow>
     (case parse_ip (podIP d) of
        None \<Rightarrow> (setFailed (clk w3) (Errorf ''failed to parse pod IP %s: %w'' [podIP d]) d, w3)
      | Some a16 \<Rightarrow>
          (let a = (case to4 a16 of Some a4 \<Rightarrow> a4 | None \<Rightarrow> a16)
           in case ReplaceRoute nl (host_net a) link w3 of
                (Some e, w4) \<Rightarrow> (setFailed (clk w4) (Wrapf ''failed to replace route %s: %w'' [name] e) d, w4)
              | (None, w4) \<Rightarrow>
                  (d\<lparr>creationComplete := True, lastError := None, lastCreationFailed := None,
                     creationFailedCount := 0\<rparr>, w4))))))"

definition delete :: "'w netlink \<Rightarrow> kubeApiserverData \<Rightarrow> 'w \<Rightarrow> 'w" where
  "delete nl d w = snd (DeleteLinkByName nl (linkName d) w)"

definition isOutdated :: "kubeApiserverData \<Rightarrow> int \<Rightarrow> bool" where
  "isOutdated d now \<longleftrightarrow> now - lastSeen d > expirationDuration"

section \<open>The controller\<close>

record Controller =
  config :: TunnelControllerConfig
  kubeApiservers :: "(string \<times> nat) list"
  objects :: "kubeApiserverData list"
  nextClean :: int
  running :: bool

definition NewController :: "TunnelControllerConfig \<Rightarrow> int \<Rightarrow> Controller" where
  "NewController cfg now =
     \<lparr>config = cfg, kubeApiservers = [], objects = [], nextClean = now + cleanUpPeriod, running = False\<rparr>"

definition setRunning :: "bool \<Rightarrow> Controller \<Rightarrow> Controller" where
  "setRunning r c = c\<lparr>running := r\<rparr>"

definition isRunning :: "Controller \<Rightarrow> bool" where
  "isRunning c = running c"

definition Stop :: "Controller \<Rightarrow> Controller" where
  "Stop c = setRunning False c"

text \<open>The goroutines that the handler of a packet starts.\<close>

datatype goroutine = Update nat string | Clean

text \<open>The object of a client, created when the client is new.\<close>

definition find_or_create :: "ip \<Rightarrow> ip \<Rightarrow> string \<Rightarrow> Controller \<Rightarrow> nat \<times> Controller" where
  "find_or_create localBond clientIP pod_ip c =
     (let key = ip_string clientIP
      in case map_of (kubeApiservers c) key of
           Some p \<Rightarrow> (p, c)
         | None \<Rightarrow>
             (let data = \<lparr>podIP = pod_ip, localAddr = localBond, remoteAddr = clientIP, lastSeen = 0,
                          creationComplete = False, lastCreationFailed = None,
                          creationFailedCount = 0, lastError = None\<rparr>;
                  p = length (objects c)
              in (p, c\<lparr>objects := objects c @ [data],
                       kubeApiservers := AList.update key p (kubeApiservers c)\<rparr>)))"

definition handle_packet ::
  "int \<Rightarrow> ip \<Rightarrow> ip \<Rightarrow> string \<Rightarrow> Controller \<Rightarrow> Controller \<times> goroutine list"
where
  "handle_packet now localBond clientIP pod_ip c =
     (let (p, c1) = find_or_create localBond clientIP pod_ip c;
          data = setLastSeen now (objects c1 ! p);
          c2 = c1\<lparr>objects := (objects c1)[p := data]\<rparr>;
          g1 = (if needsUpdate data pod_ip now then [Update p pod_ip] else [])
      in if nextClean c2 > now
         then (c2\<lparr>nextClean := now + cleanUpPeriod\<rparr>, g1 @ [Clean])
         else (c2, g1))"

text \<open>One entry of the map in \<^verbatim>\<open>clean\<close>.\<close>

definition clean_entry ::
  "'w netlink \<Rightarrow> ('w \<Rightarrow> int) \<Rightarrow> string \<times> nat \<Rightarrow> Controller \<times> 'w \<Rightarrow> Controller \<times> 'w"
where
  "clean_entry nl clk e s =
     (let (c, w) = s; data = objects c ! snd e
      in if isOutdated data (clk w)
         then (c\<lparr>kubeApiservers := AList.delete (fst e) (kubeApiservers c)\<rparr>, delete nl data w)
         else (c, w))"

definition clean ::
  "'w netlink \<Rightarrow> ('w \<Rightarrow> int) \<Rightarrow> ((string \<times> nat) list \<Rightarrow> (string \<times> nat) list)
   \<Rightarrow> Controller \<times> 'w \<Rightarrow> Controller \<times> 'w"
where
  "clean nl clk visit s = fold (clean_entry nl clk) (visit (kubeApiservers (fst s))) s"

fun run_goroutine ::
  "'w netlink \<Rightarrow> ('w \<Rightarrow> int) \<Rightarrow> ((string \<times> nat) list \<Rightarrow> (string \<times> nat) list)
   \<Rightarrow> goroutine \<Rightarrow> Controller \<times> 'w \<Rightarrow> Controller \<times> 'w"
where
  "run_goroutine nl clk visit (Update p pod_ip) (c, w) =
     (let (data, w') = update nl clk pod_ip (objects c ! p) w
      in (c\<lparr>objects := (objects c)[p := data]\<rparr>, w'))"
| "run_goroutine nl clk visit Clean s = clean nl clk visit s"

section \<open>Readiness\<close>

definition data_ready :: "kubeApiserverData \<Rightarrow> bool" where
  "data_ready d \<longleftrightarrow> creationComplete d \<and> lastError d = None"

text \<open>\<^verbatim>\<open>IsReady\<close>: \<^term>\<open>None\<close> for ready, otherwise what the message says.\<close>

datatype not_ready =
    NoKubeApiservers
  | NoRoute string "go_error option"

definition IsReady ::
  "((string \<times> nat) list \<Rightarrow> (string \<times> nat) list) \<Rightarrow> Controller \<Rightarrow> not_ready option"
where
  "IsReady visit c =
     (if kubeApiservers c = [] then Some NoKubeApiservers
      else (case find (\<lambda>e. \<not> data_ready (objects c ! snd e)) (visit (kubeApiservers c)) of
              Some e \<Rightarrow> (let d = objects c ! snd e in Some (NoRoute (podIP d) (lastError d)))
            | None \<Rightarrow> None))"

text \<open>
  What the readiness endpoint answers (\<^verbatim>\<open>NewReadinessServer\<close>): the HTTP status, and what the text says.
\<close>

definition ReadinessPort :: int where "ReadinessPort = 8080"

definition readyz ::
  "((string \<times> nat) list \<Rightarrow> (string \<times> nat) list) \<Rightarrow> Controller \<Rightarrow> int \<times> not_ready option"
where
  "readyz visit c = (let r = IsReady visit c in (if r \<noteq> None then 503 else 200, r))"

section \<open>The server\<close>

text \<open>Sockets (package \<^verbatim>\<open>net\<close>) and waiting, as functions on the world; a connection is a number.\<close>

record 'w sockets =
  Dial :: "string \<Rightarrow> string \<Rightarrow> 'w \<Rightarrow> (go_error + nat) \<times> 'w"
  Write :: "nat \<Rightarrow> string \<Rightarrow> 'w \<Rightarrow> go_error option \<times> 'w"
  Close :: "nat \<Rightarrow> 'w \<Rightarrow> 'w"
  ListenUDP :: "ip \<Rightarrow> int \<Rightarrow> 'w \<Rightarrow> (go_error + nat) \<times> 'w"
  Pause :: "int \<Rightarrow> 'w \<Rightarrow> 'w"

text \<open>The action of the watchdog: every VPN client is told to restart, up to the first error.\<close>

fun restart_clients :: "'w sockets \<Rightarrow> int list \<Rightarrow> 'w \<Rightarrow> go_error option \<times> 'w" where
  "restart_clients sk [] w = (None, w)"
| "restart_clients sk (clientIndex # rest) w =
     (case Dial sk ''tcp'' (''127.0.0.1:'' @ int_string (ManagementPort + clientIndex)) w of
        (Inl e, w1) \<Rightarrow> (Some e, w1)
      | (Inr conn, w1) \<Rightarrow>
          (case Write sk conn (''signal SIGHUP'' @ newline) w1 of
             (Some e, w2) \<Rightarrow> (Some e, Close sk conn w2)
           | (None, w2) \<Rightarrow> restart_clients sk rest (Close sk conn w2)))"

definition watchdog_action :: "'w sockets \<Rightarrow> int \<Rightarrow> 'w \<Rightarrow> go_error option \<times> 'w" where
  "watchdog_action sk haVPNClients w = restart_clients sk (map int [0..<nat haVPNClients]) w"

text \<open>The text of the error: \<open>flagTypes\<close> as in \<^const>\<open>IPAddrFlagsToString\<close>.\<close>

definition handleListenError ::
  "'w netlink \<Rightarrow> (int \<times> string) list \<Rightarrow> ip \<Rightarrow> go_error \<Rightarrow> 'w \<Rightarrow> go_error \<times> 'w"
where
  "handleListenError nl flagTypes localBond err w =
     (case GetLinkIPAddrForIP nl BondDevice localBond w of
        (Inl _, w1) \<Rightarrow> (Wrapf ''error listening on UDP: %w (ip: %s %s)''
                         [ip_string localBond, ''getting link IP address failed''] err, w1)
      | (Inr addr, w1) \<Rightarrow> (Wrapf ''error listening on UDP: %w (ip: %s %s)''
                            [ip_string localBond, IPAddrFlagsToString flagTypes (Flags addr)] err, w1))"

text \<open>
  The loop that listens, with the number of tries that are left; a failed try is logged, which
  looks up the flags of the address, and followed by a pause.  The result is the last one.
\<close>

fun listen_loop ::
  "'w netlink \<Rightarrow> 'w sockets \<Rightarrow> (int \<times> string) list \<Rightarrow> ip \<Rightarrow> nat \<Rightarrow> go_error + nat \<Rightarrow> 'w \<Rightarrow> (go_error + nat) \<times> 'w"
where
  "listen_loop nl sk flagTypes localBond 0 r w = (r, w)"
| "listen_loop nl sk flagTypes localBond (Suc n) r w =
     (case ListenUDP sk localBond tunnelControllerPort w of
        (Inr conn, w1) \<Rightarrow> (Inr conn, w1)
      | (Inl e, w1) \<Rightarrow>
          (let (_, w2) = handleListenError nl flagTypes localBond e w1
           in listen_loop nl sk flagTypes localBond n (Inl e) (Pause sk retryListenWait w2)))"

record 'w Server =
  controller :: Controller
  bond :: ip
  connection :: nat
  watchdog :: "'w Watchdog"

text \<open>\<^verbatim>\<open>Run\<close> up to its endless loop.\<close>

definition Run_start ::
  "'w netlink \<Rightarrow> 'w sockets \<Rightarrow> (int \<times> string) list \<Rightarrow> Controller \<Rightarrow> 'w \<Rightarrow> (go_error + 'w Server) \<times> 'w"
where
  "Run_start nl sk flagTypes c w =
     (case GetLinkIPAddressesByName nl BondDevice ScopeUniverse w of
        (Inl e, w1) \<Rightarrow> (Inl e, w1)
      | (Inr ips, w1) \<Rightarrow>
          (case ips of
             [] \<Rightarrow> (Inl (Errorf ''no IP addresses found for %s'' [BondDevice]), w1)
           | localBond # _ \<Rightarrow>
               if length localBond \<noteq> 16
               then (Inl (Errorf ''expected ipv6 address for %s, got %s'' [BondDevice, ip_string localBond]), w1)
               else (case NewWatchdog (WatchdogWindowSize (config c)) (WatchdogThreshold (config c))
                            (WatchdogCooldown (config c)) (watchdog_action sk (tun_HAVPNClients (config c))) of
                       Inl e \<Rightarrow> (Inl e, w1)
                     | Inr wd \<Rightarrow>
                         (case listen_loop nl sk flagTypes localBond retriesToListen
                                 (Inl (Errorf ''not tried'' [])) w1 of
                            (Inl e, w2) \<Rightarrow>
                              (let (err, w3) = handleListenError nl flagTypes localBond e w2 in (Inl err, w3))
                          | (Inr conn, w2) \<Rightarrow>
                              (Inr \<lparr>controller = setRunning True c, bond = localBond, connection = conn,
                                    watchdog = wd\<rparr>, w2)))))"

text \<open>
  One iteration of the endless loop with the result of reading a packet; \<^term>\<open>None\<close> when the
  controller has been stopped.
\<close>

definition serve ::
  "('w \<Rightarrow> int) \<Rightarrow> go_error + ip \<times> string \<Rightarrow> 'w Server \<Rightarrow> 'w \<Rightarrow> ('w Server \<times> goroutine list \<times> 'w) option"
where
  "serve clk packet s w =
     (if \<not> isRunning (controller s) then None
      else (case packet of
              Inl _ \<Rightarrow> (let (_, wd, w1) = Fail (watchdog s) w in Some (s\<lparr>watchdog := wd\<rparr>, [], w1))
            | Inr (clientIP, pod_ip) \<Rightarrow>
                (let (_, wd, w1) = Succeed (watchdog s) w;
                     (c, gs) = handle_packet (clk w1) (bond s) clientIP pod_ip (controller s)
                 in Some (s\<lparr>controller := c, watchdog := wd\<rparr>, gs, w1))))"

text \<open>
  The command of the tunnel controller up to the endless loop (\<^verbatim>\<open>cmd/vpn_client/app/tunnelcontroller\<close>);
  \<open>parse\<close> is the library that reads the environment, \<open>start_readiness\<close> the call of
  \<^verbatim>\<open>runReadinessServer\<close>, whose endpoint answers with \<^const>\<open>readyz\<close>.
\<close>

definition tunnelcontroller_run ::
  "'w netlink \<Rightarrow> 'w sockets \<Rightarrow> (int \<times> string) list \<Rightarrow> ('w \<Rightarrow> int) \<Rightarrow> ('w \<Rightarrow> 'w)
   \<Rightarrow> (TunnelControllerConfig \<Rightarrow> go_error + TunnelControllerConfig) \<Rightarrow> 'w \<Rightarrow> (go_error + 'w Server) \<times> 'w"
where
  "tunnelcontroller_run nl sk flagTypes clk start_readiness parse w =
     (case GetTunnelControllerConfig parse of
        Inl e \<Rightarrow> (Inl e, w)
      | Inr cfg \<Rightarrow>
          (let c = NewController cfg (clk w)
           in Run_start nl sk flagTypes c (start_readiness w)))"

text \<open>The client side (\<^verbatim>\<open>client.go\<close>).\<close>

definition Send :: "'w sockets \<Rightarrow> ip \<Rightarrow> string \<Rightarrow> 'w \<Rightarrow> go_error option \<times> 'w" where
  "Send sk tunnelControllerIP clientIP w =
     (let serverAddr = ''['' @ ip_string tunnelControllerIP @ '']:'' @ int_string tunnelControllerPort
      in case Dial sk ''udp6'' serverAddr w of
           (Inl e, w1) \<Rightarrow> (Some (Wrapf ''error dialing UDP for %s: %w'' [serverAddr] e), w1)
         | (Inr conn, w1) \<Rightarrow>
             (case Write sk conn clientIP w1 of
                (Some e, w2) \<Rightarrow> (Some (Wrapf ''error sending data to %s: %w'' [serverAddr] e), Close sk conn w2)
              | (None, w2) \<Rightarrow> (None, Close sk conn w2)))"

end
