(* ===== verification/Kernel.thy ===== *)
theory Kernel
  imports Net_Link
begin

text \<open>
  What the network stack of the kernel promises the calls of \<^verbatim>\<open>netlink\<close> that succeed, as a
  contract over an abstract state of devices, routes, masters and addresses, and a kernel that
  keeps it.
\<close>

section \<open>The contract\<close>

record kernel =
  links :: "string \<Rightarrow> Link option"
  up :: "string set"
  master :: "string \<Rightarrow> string option"
  addresses :: "string \<Rightarrow> Addr list"
  routes :: "ipnet \<Rightarrow> int option"

fun set_attrs :: "LinkAttrs \<Rightarrow> Link \<Rightarrow> Link" where
  "set_attrs a (Ip6tnl _ l r e i) = Ip6tnl a l r e i"
| "set_attrs a (TuntapTap _) = TuntapTap a"
| "set_attrs a (Bond _ opts) = Bond a opts"
| "set_attrs a (Device _) = Device a"

lemma Attrs_set_attrs [simp]: "Attrs (set_attrs a l) = a"
  by (cases l) simp_all

definition name_of :: "Link \<Rightarrow> string" where
  "name_of l = LinkName (Attrs l)"

definition del_link :: "string \<Rightarrow> kernel \<Rightarrow> kernel" where
  "del_link n k = k\<lparr>links := (links k)(n := None), up := up k - {n}, master := (master k)(n := None),
     addresses := (addresses k)(n := [])\<rparr>"

definition add_link :: "Link \<Rightarrow> int \<Rightarrow> kernel \<Rightarrow> kernel" where
  "add_link l i k = k\<lparr>links := (links k)(name_of l \<mapsto> set_attrs (Attrs l\<lparr>Index := i\<rparr>) l)\<rparr>"

definition set_mtu :: "string \<Rightarrow> int \<Rightarrow> kernel \<Rightarrow> kernel" where
  "set_mtu n m k = k\<lparr>links := (links k)(n := map_option (\<lambda>l. set_attrs (Attrs l\<lparr>MTU := m\<rparr>) l) (links k n))\<rparr>"

text \<open>
  A call that fails promises nothing; looking up a device changes nothing.  A new device gets an
  index that no other device has.
\<close>

locale netlink_laws =
  fixes nl :: "'w netlink"
    and kernel :: "'w \<Rightarrow> kernel"
  assumes by_name: "LinkByName nl n w = (Inr l, w') \<Longrightarrow> links (kernel w) n = Some l"
    and by_name_none: "LinkByName nl n w = (Inl (LinkNotFoundError e), w') \<Longrightarrow> links (kernel w) n = None"
    and by_name_keeps: "LinkByName nl n w = (r, w') \<Longrightarrow> kernel w' = kernel w"
    and names: "links (kernel w) n = Some l \<Longrightarrow> name_of l = n"
    and del: "LinkDel nl l w = (None, w') \<Longrightarrow> kernel w' = del_link (name_of l) (kernel w)"
    and add: "LinkAdd nl l w = (None, w') \<Longrightarrow> links (kernel w) (name_of l) = None \<and>
          (\<exists>i. (\<forall>n m. links (kernel w) n = Some m \<longrightarrow> Index (Attrs m) \<noteq> i) \<and>
               kernel w' = add_link l i (kernel w))"
    and set_up: "LinkSetUp nl l w = (None, w') \<Longrightarrow> kernel w' = (kernel w)\<lparr>up := insert (name_of l) (up (kernel w))\<rparr>"
    and set_mtu: "LinkSetMTU nl l m w = (None, w') \<Longrightarrow> kernel w' = set_mtu (name_of l) m (kernel w)"
    and set_master: "LinkSetMaster nl l b w = (None, w') \<Longrightarrow>
          kernel w' = (kernel w)\<lparr>master := (master (kernel w))(name_of l \<mapsto> name_of b)\<rparr>"
    and addr_add: "AddrAdd nl l a w = (None, w') \<Longrightarrow>
          kernel w' = (kernel w)\<lparr>addresses := (addresses (kernel w))(name_of l := a # addresses (kernel w) (name_of l))\<rparr>"
    and route_replace: "RouteReplace nl rt w = (None, w') \<Longrightarrow> Dst rt = Some d \<Longrightarrow>
          kernel w' = (kernel w)\<lparr>routes := (routes (kernel w))(d \<mapsto> LinkIndex rt)\<rparr>"
begin

lemma DeleteLinkByName_ok:
  assumes "DeleteLinkByName nl n w = (None, w')"
  shows "kernel w' = del_link n (kernel w) \<or> kernel w' = kernel w \<and> links (kernel w) n = None"
proof -
  obtain r w1 where r: "LinkByName nl n w = (r, w1)" by fastforce
  show ?thesis
  proof (cases r)
    case (Inl e)
    with r assms show ?thesis
      using by_name_none by_name_keeps [OF r]
      by (cases e) (auto simp: DeleteLinkByName_def)
  next
    case (Inr l)
    with r assms have "LinkDel nl l w1 = (None, w')"
      by (auto simp: DeleteLinkByName_def split: prod.splits option.splits)
    then show ?thesis
      using del by_name_keeps [OF r] names [OF by_name [OF r [unfolded Inr]]] by simp
  qed
qed

lemma DeleteLinkByName_gone: "DeleteLinkByName nl n w = (None, w') \<Longrightarrow> links (kernel w') n = None"
  using DeleteLinkByName_ok [of n w w'] by (auto simp: del_link_def)

lemma DeleteLinkByName_others:
  "DeleteLinkByName nl n w = (None, w') \<Longrightarrow> m \<noteq> n \<Longrightarrow> links (kernel w') m = links (kernel w) m"
  using DeleteLinkByName_ok [of n w w'] by (auto simp: del_link_def)

lemma CreateTunnel_ok:
  assumes "CreateTunnel nl n loc remote w = (None, w')"
  obtains i where "links (kernel w') n = Some (Ip6tnl (NewLinkAttrs n\<lparr>Index := i\<rparr>) loc remote 0 True)"
    and "n \<in> up (kernel w')" and "routes (kernel w') = routes (kernel w)"
proof -
  let ?t = "Ip6tnl (NewLinkAttrs n) loc remote 0 True"
  have nm: "name_of ?t = n" by (simp add: name_of_def NewLinkAttrs_def)
  obtain w1 where "LinkAdd nl ?t w = (None, w1)" "LinkSetUp nl ?t w1 = (None, w')"
    using assms by (auto simp: CreateTunnel_def Let_def split: prod.splits option.splits)
  then show thesis
    using that add [of ?t w w1] set_up [of ?t w1 w'] nm by (auto simp: add_link_def)
qed

end

text \<open>
  The addresses of a device, and those of one address family (0 for all of them, the numbers of
  \<^verbatim>\<open>AF_INET\<close> and \<^verbatim>\<open>AF_INET6\<close>).
\<close>

definition in_family :: "int \<Rightarrow> Addr \<Rightarrow> bool" where
  "in_family f a \<longleftrightarrow> f = 0 \<or> f = 2 \<and> to4 (net_ip (AddrNet a)) \<noteq> None \<or> f = 10 \<and> to4 (net_ip (AddrNet a)) = None"

locale address_laws = netlink_laws nl kernel for nl :: "'w netlink" and kernel +
  assumes addr_list: "AddrList nl l f w = (r, w') \<Longrightarrow> kernel w' = kernel w \<and>
          (\<forall>as. r = Inr as \<longrightarrow> as = filter (in_family f) (addresses (kernel w) (name_of l)))"
    and addr_del: "AddrDel nl l a w = (None, w') \<Longrightarrow>
          kernel w' = (kernel w)\<lparr>addresses := (addresses (kernel w))(name_of l := remove1 a (addresses (kernel w) (name_of l)))\<rparr>"
    and set_down: "LinkSetDown nl l w = (None, w') \<Longrightarrow> kernel w' = (kernel w)\<lparr>up := up (kernel w) - {name_of l}\<rparr>"

section \<open>A kernel\<close>

text \<open>A device gets the number after the greatest one; every call succeeds.\<close>

record host =
  devices :: "Link list"
  host_up :: "string set"
  host_master :: "string \<Rightarrow> string option"
  host_addresses :: "string \<Rightarrow> Addr list"
  host_routes :: "ipnet \<Rightarrow> int option"

definition host_link :: "host \<Rightarrow> string \<Rightarrow> Link option" where
  "host_link h n = find (\<lambda>l. name_of l = n) (devices h)"

definition host_kernel :: "host \<Rightarrow> kernel" where
  "host_kernel h = \<lparr>links = host_link h, up = host_up h, master = host_master h,
     addresses = host_addresses h, routes = host_routes h\<rparr>"

definition new_index :: "Link list \<Rightarrow> int" where
  "new_index ls = foldr (\<lambda>l i. max (Index (Attrs l)) i) ls 0 + 1"

definition host_netlink :: "host netlink" where
  "host_netlink =
     \<lparr>LinkByName = (\<lambda>n h. (case host_link h n of
                       None \<Rightarrow> Inl (LinkNotFoundError (Foreign ''Link not found'')) | Some l \<Rightarrow> Inr l, h)),
      LinkByIndex = (\<lambda>i h. (case find (\<lambda>l. Index (Attrs l) = i) (devices h) of
                       None \<Rightarrow> Inl (LinkNotFoundError (Foreign ''Link not found'')) | Some l \<Rightarrow> Inr l, h)),
      LinkDel = (\<lambda>l h. (None, h\<lparr>devices := filter (\<lambda>m. name_of m \<noteq> name_of l) (devices h),
                                 host_up := host_up h - {name_of l},
                                 host_master := (host_master h)(name_of l := None),
                                 host_addresses := (host_addresses h)(name_of l := [])\<rparr>)),
      LinkAdd = (\<lambda>l h. if host_link h (name_of l) = None
                       then (None, h\<lparr>devices := devices h @ [set_attrs (Attrs l\<lparr>Index := new_index (devices h)\<rparr>) l]\<rparr>)
                       else (Some (Foreign ''file exists''), h)),
      LinkSetUp = (\<lambda>l h. (None, h\<lparr>host_up := insert (name_of l) (host_up h)\<rparr>)),
      LinkSetDown = (\<lambda>l h. (None, h\<lparr>host_up := host_up h - {name_of l}\<rparr>)),
      LinkSetMTU = (\<lambda>l m h. (None, h\<lparr>devices := map (\<lambda>d. if name_of d = name_of l
                                  then set_attrs (Attrs d\<lparr>MTU := m\<rparr>) d else d) (devices h)\<rparr>)),
      LinkSetMaster = (\<lambda>l b h. (None, h\<lparr>host_master := (host_master h)(name_of l \<mapsto> name_of b)\<rparr>)),
      AddrAdd = (\<lambda>l a h. (None, h\<lparr>host_addresses :=
                   (host_addresses h)(name_of l := a # host_addresses h (name_of l))\<rparr>)),
      AddrDel = (\<lambda>l a h. (None, h\<lparr>host_addresses :=
                   (host_addresses h)(name_of l := remove1 a (host_addresses h (name_of l)))\<rparr>)),
      AddrList = (\<lambda>l f h. (Inr (filter (in_family f) (host_addresses h (name_of l))), h)),
      RouteList = (\<lambda>h. (Inr [], h)),
      RouteReplace = (\<lambda>r h. (None, h\<lparr>host_routes := (case Dst r of None \<Rightarrow> host_routes h
                         | Some d \<Rightarrow> (host_routes h)(d \<mapsto> LinkIndex r))\<rparr>))\<rparr>"

lemma name_of_set_attrs [simp]: "name_of (set_attrs a l) = LinkName a"
  by (simp add: name_of_def)

lemma find_name: "find (\<lambda>l. name_of l = n) ls = Some l \<Longrightarrow> name_of l = n \<and> l \<in> set ls"
  by (induction ls) (auto split: if_splits)

lemma find_filter_name:
  "find (\<lambda>l. name_of l = n) (filter (\<lambda>l. name_of l \<noteq> m) ls) = (if n = m then None else find (\<lambda>l. name_of l = n) ls)"
  by (induction ls) auto

lemma find_snoc: "find P (xs @ [x]) = (case find P xs of None \<Rightarrow> if P x then Some x else None | Some y \<Rightarrow> Some y)"
  by (induction xs) auto

lemma find_map_mtu:
  "find (\<lambda>l. name_of l = n) (map (\<lambda>d. if name_of d = m then set_attrs (Attrs d\<lparr>MTU := u\<rparr>) d else d) ls) =
     map_option (\<lambda>d. if n = m then set_attrs (Attrs d\<lparr>MTU := u\<rparr>) d else d) (find (\<lambda>l. name_of l = n) ls)"
  by (induction ls) (auto simp: name_of_def)

lemma new_index_greater: "l \<in> set ls \<Longrightarrow> Index (Attrs l) < new_index ls"
  unfolding new_index_def by (induction ls) auto

interpretation host: netlink_laws host_netlink host_kernel
proof
  show "links (host_kernel w) n = Some l" if "LinkByName host_netlink n w = (Inr l, w')" for n w l w'
    using that by (auto simp: host_netlink_def host_kernel_def split: option.splits)
  show "links (host_kernel w) n = None"
    if "LinkByName host_netlink n w = (Inl (LinkNotFoundError e), w')" for n w e w'
    using that by (auto simp: host_netlink_def host_kernel_def split: option.splits)
  show "host_kernel w' = host_kernel w" if "LinkByName host_netlink n w = (r, w')" for n w r w'
    using that by (auto simp: host_netlink_def)
  show "name_of l = n" if "links (host_kernel w) n = Some l" for w n l
    using that by (auto simp: host_kernel_def host_link_def dest: find_name)
  show "host_kernel w' = del_link (name_of l) (host_kernel w)" if "LinkDel host_netlink l w = (None, w')" for l w w'
    using that by (auto simp: host_netlink_def host_kernel_def host_link_def del_link_def find_filter_name fun_eq_iff)
  show "links (host_kernel w) (name_of l) = None \<and>
      (\<exists>i. (\<forall>n m. links (host_kernel w) n = Some m \<longrightarrow> Index (Attrs m) \<noteq> i) \<and>
           host_kernel w' = add_link l i (host_kernel w))"
    if "LinkAdd host_netlink l w = (None, w')" for l w w'
  proof -
    have free: "find (\<lambda>d. name_of d = name_of l) (devices w) = None"
      and w': "w' = w\<lparr>devices := devices w @ [set_attrs (Attrs l\<lparr>Index := new_index (devices w)\<rparr>) l]\<rparr>"
      using that by (auto simp: host_netlink_def host_link_def split: if_splits)
    have "Index (Attrs m) \<noteq> new_index (devices w)" if "links (host_kernel w) n = Some m" for n m
      using that new_index_greater by (fastforce simp: host_kernel_def host_link_def dest: find_name)
    moreover have "host_kernel w' = add_link l (new_index (devices w)) (host_kernel w)"
      using free by (auto simp: w' host_kernel_def host_link_def add_link_def find_snoc fun_eq_iff name_of_def
          split: option.splits)
    ultimately show ?thesis
      using free by (auto simp: host_kernel_def host_link_def)
  qed
  show "host_kernel w' = set_mtu (name_of l) m (host_kernel w)"
    if "LinkSetMTU host_netlink l m w = (None, w')" for l m w w'
    using that by (auto simp: host_netlink_def host_kernel_def host_link_def set_mtu_def find_map_mtu fun_eq_iff
        map_option_case split: option.splits)
qed (auto simp: host_netlink_def host_kernel_def host_link_def [abs_def] split: option.splits)

interpretation host_addr: address_laws host_netlink host_kernel
  by unfold_locales (auto simp: host_netlink_def host_kernel_def host_link_def [abs_def])

end
