(* ===== verification/Tunnel_Proofs.thy ===== *)
theory Tunnel_Proofs
  imports Tunnel Kernel Watchdog_Proofs Netmap
begin

text \<open>
  What an update of a tunnel leaves in the kernel, when it is repeated, what readiness means, and
  when the controller cleans up.
\<close>

section \<open>Updates\<close>

lemma update_podIP: "podIP (fst (update nl clk p d w)) = p"
  by (auto simp: update_def setFailed_def Let_def split: prod.splits option.splits sum.splits)

lemma linkName_podIP [simp]: "linkName (d\<lparr>podIP := p\<rparr>) = linkName d"
  by (simp add: linkName_def)

text \<open>An update ends in success or in a recorded failure.\<close>

lemma update_cases:
  assumes "update nl clk p d w = (d', w')"
  obtains (success) "data_ready d'" and "lastCreationFailed d' = None" and "creationFailedCount d' = 0"
    | (failed) e where "lastError d' = Some e" and "\<not> data_ready d'" and "lastCreationFailed d' = Some (clk w')"
      and "creationFailedCount d' = creationFailedCount d + 1" and "creationComplete d' = creationComplete d"
  using assms
  by (auto simp: update_def setFailed_def data_ready_def Let_def split: prod.splits option.splits sum.splits)

context netlink_laws begin

lemma update_installs:
  assumes "update nl clk p d w = (d', w')" and "data_ready d'"
  shows "\<exists>i a. links (kernel w') (linkName d) =
      Some (Ip6tnl (NewLinkAttrs (linkName d)\<lparr>Index := i\<rparr>) (localAddr d) (remoteAddr d) 0 True) \<and>
    linkName d \<in> up (kernel w') \<and> parse_ip p = Some a \<and> routes (kernel w') (host_net (norm_ip a)) = Some i"
proof -
  let ?n = "linkName d"
  obtain w1 w2 w3 l a where del: "DeleteLinkByName nl ?n w = (None, w1)"
    and cr: "CreateTunnel nl ?n (localAddr d) (remoteAddr d) w1 = (None, w2)"
    and get: "LinkByName nl ?n w2 = (Inr l, w3)" and a: "parse_ip p = Some a"
    and rt: "ReplaceRoute nl (host_net (norm_ip a)) l w3 = (None, w')"
    using assms
    by (auto simp: update_def setFailed_def data_ready_def Let_def norm_ip_def
        split: prod.splits option.splits sum.splits)
  obtain i where i: "links (kernel w2) ?n =
      Some (Ip6tnl (NewLinkAttrs ?n\<lparr>Index := i\<rparr>) (localAddr d) (remoteAddr d) 0 True)" "?n \<in> up (kernel w2)"
    using CreateTunnel_ok [OF cr] by blast
  have l: "Index (Attrs l) = i" "kernel w3 = kernel w2"
    using by_name [OF get] by_name_keeps [OF get] i(1) by auto
  have "RouteReplace nl (routeForNetwork (host_net (norm_ip a)) l) w3 = (None, w')"
    using rt by (auto simp: ReplaceRoute_def split: prod.splits option.splits)
  from route_replace [OF this] have "kernel w' =
      (kernel w3)\<lparr>routes := (routes (kernel w3))(host_net (norm_ip a) \<mapsto> Index (Attrs l))\<rparr>"
    by (simp add: routeForNetwork_def)
  with i l a show ?thesis by simp
qed

end

section \<open>The controller\<close>

text \<open>
  The well-formed states: every entry of the map points to an object, whose remote address is its
  key, and no two entries have the same key.
\<close>

definition controller_wf :: "Controller \<Rightarrow> bool" where
  "controller_wf c \<longleftrightarrow> distinct (map fst (kubeApiservers c)) \<and>
     (\<forall>(k, p) \<in> set (kubeApiservers c). p < length (objects c) \<and> ip_string (remoteAddr (objects c ! p)) = k)"

lemma controller_wfD:
  "controller_wf c \<Longrightarrow> (k, p) \<in> set (kubeApiservers c) \<Longrightarrow>
     p < length (objects c) \<and> ip_string (remoteAddr (objects c ! p)) = k"
  unfolding controller_wf_def by blast

lemma NewController_wf: "controller_wf (NewController cfg now)"
  by (simp add: controller_wf_def NewController_def)

lemma update_new: "k \<notin> set (map fst m) \<Longrightarrow> AList.update k v m = m @ [(k, v)]"
  by (induction m) auto

lemma find_or_create_wf:
  assumes "controller_wf c" and "find_or_create l a pod c = (p, c')"
  shows "controller_wf c' \<and> p < length (objects c') \<and> map_of (kubeApiservers c') (ip_string a) = Some p \<and>
    nextClean c' = nextClean c \<and> length (objects c) \<le> length (objects c') \<and>
    (\<forall>q < length (objects c). objects c' ! q = objects c ! q)"
proof (cases "map_of (kubeApiservers c) (ip_string a)")
  case None
  then have c': "p = length (objects c)" "kubeApiservers c' = AList.update (ip_string a) p (kubeApiservers c)"
    "\<exists>d. objects c' = objects c @ [d] \<and> remoteAddr d = a" "nextClean c' = nextClean c"
    using assms(2) by (auto simp: find_or_create_def Let_def)
  have "ip_string a \<notin> set (map fst (kubeApiservers c))"
    using None by (simp add: map_of_eq_None_iff)
  then have "kubeApiservers c' = kubeApiservers c @ [(ip_string a, p)]"
    unfolding c'(2) by (rule update_new)
  moreover have "map_of (kubeApiservers c') (ip_string a) = Some p"
    by (simp add: c'(2) update_conv')
  moreover have "distinct (map fst (kubeApiservers c'))"
    using assms(1) by (simp add: c'(2) distinct_update controller_wf_def)
  ultimately show ?thesis
    using c'(1,3,4) assms(1) by (auto simp: controller_wf_def nth_append)
next
  case (Some q)
  then have "p = q" "c' = c" using assms(2) by (auto simp: find_or_create_def Let_def)
  with Some assms(1) show ?thesis
    using controller_wfD [OF assms(1) map_of_SomeD [OF Some]] by auto
qed

lemma wf_set_object:
  assumes "controller_wf c" and "p < length (objects c) \<Longrightarrow> remoteAddr d = remoteAddr (objects c ! p)"
  shows "controller_wf (c\<lparr>objects := (objects c)[p := d]\<rparr>)"
proof -
  have "remoteAddr ((objects c)[p := d] ! q) = remoteAddr (objects c ! q)" for q
    using assms(2) by (cases "q = p"; cases "p < length (objects c)") (auto simp: list_update_beyond)
  with assms(1) show ?thesis by (simp add: controller_wf_def)
qed

lemma controller_wf_nextClean [simp]: "controller_wf (c\<lparr>nextClean := t\<rparr>) = controller_wf c"
  by (simp add: controller_wf_def)

lemma handle_packet_eq:
  assumes "controller_wf c" and "find_or_create l a pod c = (p, c1)"
  shows "handle_packet now l a pod c =
    (c1\<lparr>objects := (objects c1)[p := setLastSeen now (objects c1 ! p)],
        nextClean := if now < nextClean c then now + cleanUpPeriod else nextClean c\<rparr>,
     (if needsUpdate (setLastSeen now (objects c1 ! p)) pod now then [Update p pod] else []) @
     (if now < nextClean c then [Clean] else []))"
  using find_or_create_wf [OF assms] by (simp add: handle_packet_def assms(2) Let_def)

lemma handle_packet_wf:
  assumes "controller_wf c" and "handle_packet now l a pod c = (c', gs)"
  shows "controller_wf c'" and "Clean \<in> set gs \<longleftrightarrow> now < nextClean c"
    and "nextClean c' = (if now < nextClean c then now + cleanUpPeriod else nextClean c)"
proof -
  obtain p c1 where fc: "find_or_create l a pod c = (p, c1)" by fastforce
  have "controller_wf (c1\<lparr>objects := (objects c1)[p := setLastSeen now (objects c1 ! p)]\<rparr>)"
    using find_or_create_wf [OF assms(1) fc] by (intro wf_set_object) (simp_all add: setLastSeen_def)
  then show "controller_wf c'" "Clean \<in> set gs \<longleftrightarrow> now < nextClean c"
    "nextClean c' = (if now < nextClean c then now + cleanUpPeriod else nextClean c)"
    using assms(2) unfolding handle_packet_eq [OF assms(1) fc] by auto
qed

lemma update_remoteAddr: "remoteAddr (fst (update nl clk p d w)) = remoteAddr d"
  by (auto simp: update_def setFailed_def Let_def split: prod.splits option.splits sum.splits)

lemma clean_entry_wf:
  assumes "controller_wf (fst s)"
  shows "controller_wf (fst (clean_entry nl clk e s))"
proof -
  obtain c w where s: "s = (c, w)" by (cases s)
  have "controller_wf (c\<lparr>kubeApiservers := AList.delete (fst e) (kubeApiservers c)\<rparr>)"
    using assms s by (auto simp: controller_wf_def AList.delete_eq distinct_map_filter)
  with assms s show ?thesis by (simp add: clean_entry_def Let_def)
qed

lemma run_goroutine_wf:
  assumes "controller_wf (fst s)"
  shows "controller_wf (fst (run_goroutine nl clk visit g s))"
proof (cases g)
  case (Update p pod)
  obtain c w where s: "s = (c, w)" by (cases s)
  show ?thesis
  proof (cases "update nl clk pod (objects c ! p) w")
    case (Pair d w')
    then have "remoteAddr d = remoteAddr (objects c ! p)"
      using update_remoteAddr [of nl clk pod "objects c ! p" w] by simp
    with assms s show ?thesis
      by (simp add: Update Pair wf_set_object)
  qed
next
  case Clean
  have "controller_wf (fst (fold (clean_entry nl clk) es s))" for es
    using assms by (induction es arbitrary: s) (simp_all add: clean_entry_wf)
  with Clean show ?thesis by (simp add: clean_def)
qed

text \<open>The packets that the server handles one after the other, with the times of their arrival.\<close>

fun handle_packets ::
  "ip \<Rightarrow> (int \<times> ip \<times> string) list \<Rightarrow> Controller \<Rightarrow> Controller \<times> goroutine list"
where
  "handle_packets l [] c = (c, [])"
| "handle_packets l ((now, a, pod) # ps) c =
     (let (c', gs) = handle_packet now l a pod c; (c'', gs') = handle_packets l ps c' in (c'', gs @ gs'))"

lemma handle_packets_no_clean:
  assumes "controller_wf c" and "\<forall>(t, _, _) \<in> set ps. nextClean c \<le> t"
  shows "nextClean (fst (handle_packets l ps c)) = nextClean c \<and> Clean \<notin> set (snd (handle_packets l ps c))"
  using assms
proof (induction ps arbitrary: c)
  case (Cons e ps)
  obtain now a pod where e: "e = (now, a, pod)" by (cases e)
  obtain c' gs where h: "handle_packet now l a pod c = (c', gs)" by fastforce
  note wf = handle_packet_wf [OF Cons.prems(1) h]
  have "\<not> now < nextClean c" using Cons.prems(2) e by auto
  then show ?case
    using Cons.IH [of c'] Cons.prems(2) wf by (simp add: e h split: prod.splits) fastforce
qed simp

section \<open>Interleaving of packets and goroutines\<close>

text \<open>The controller with the goroutines that have been started and have not run yet.\<close>

inductive tunnel_step ::
  "'w netlink \<Rightarrow> ('w \<Rightarrow> int) \<Rightarrow> ((string \<times> nat) list \<Rightarrow> (string \<times> nat) list) \<Rightarrow> ip
   \<Rightarrow> Controller \<times> goroutine list \<times> 'w \<Rightarrow> Controller \<times> goroutine list \<times> 'w \<Rightarrow> bool"
  for nl clk visit l
where
  packet: "handle_packet (clk w) l a pod c = (c', gs') \<Longrightarrow>
    tunnel_step nl clk visit l (c, gs, w) (c', gs @ gs', w)"
| goroutine: "run_goroutine nl clk visit g (c, w) = (c', w') \<Longrightarrow>
    tunnel_step nl clk visit l (c, gs @ g # gs', w) (c', gs @ gs', w')"
| environment: "tunnel_step nl clk visit l (c, gs, w) (c, gs, w')"

definition pointer_ok :: "Controller \<Rightarrow> goroutine \<Rightarrow> bool" where
  "pointer_ok c g = (case g of Update p _ \<Rightarrow> p < length (objects c) | Clean \<Rightarrow> True)"

definition tunnel_inv :: "Controller \<times> goroutine list \<times> 'w \<Rightarrow> bool" where
  "tunnel_inv s = (case s of (c, gs, _) \<Rightarrow> controller_wf c \<and> list_all (pointer_ok c) gs)"

lemma pointer_ok_mono: "length (objects c) \<le> length (objects c') \<Longrightarrow> pointer_ok c g \<Longrightarrow> pointer_ok c' g"
  by (cases g) (auto simp: pointer_ok_def)

lemma clean_objects: "objects (fst (fold (clean_entry nl clk) es s)) = objects (fst s)"
proof (induction es arbitrary: s)
  case (Cons e es)
  have "objects (fst (clean_entry nl clk e s)) = objects (fst s)"
    by (cases s) (simp add: clean_entry_def Let_def)
  with Cons show ?case by simp
qed simp

lemma run_goroutine_objects: "length (objects (fst (run_goroutine nl clk visit g s))) = length (objects (fst s))"
  by (cases "(nl, clk, visit, g, s)" rule: run_goroutine.cases)
    (simp_all add: clean_def clean_objects split: prod.splits)

lemma tunnel_inv_step:
  assumes "tunnel_step nl clk visit l s s'" and "tunnel_inv s"
  shows "tunnel_inv s'"
  using assms
proof (induction rule: tunnel_step.induct)
  case (packet w a pod c c' gs' gs)
  obtain p c1 where fc: "find_or_create l a pod c = (p, c1)" by fastforce
  have wf: "controller_wf c" using packet.prems by (simp add: tunnel_inv_def)
  note f = find_or_create_wf [OF wf fc]
  have "length (objects c') = length (objects c1)" "list_all (pointer_ok c') gs'"
    using packet.hyps f unfolding handle_packet_eq [OF wf fc] by (auto simp: pointer_ok_def)
  then show ?case
    using packet.prems handle_packet_wf(1) [OF wf packet.hyps] f pointer_ok_mono [of c c']
    by (auto simp: tunnel_inv_def list_all_iff)
next
  case (goroutine g c w c' w' gs gs')
  then show ?case
    using run_goroutine_wf [of "(c, w)" nl clk visit g] run_goroutine_objects [of nl clk visit g "(c, w)"]
      pointer_ok_mono [of c c']
    by (auto simp: tunnel_inv_def list_all_iff)
qed (simp add: tunnel_inv_def)

text \<open>The addresses of the objects, which no step changes; new objects have the address of the server.\<close>

definition addrs :: "Controller \<Rightarrow> (ip \<times> ip) list" where
  "addrs c = map (\<lambda>d. (localAddr d, remoteAddr d)) (objects c)"

lemma addrs_set_object:
  assumes "p < length (objects c) \<Longrightarrow> localAddr d = localAddr (objects c ! p) \<and> remoteAddr d = remoteAddr (objects c ! p)"
  shows "addrs (c\<lparr>objects := (objects c)[p := d]\<rparr>) = addrs c"
  using assms by (cases "p < length (objects c)") (simp_all add: addrs_def map_update list_update_beyond list_update_same_conv)

lemma update_addrs:
  "localAddr (fst (update nl clk p d w)) = localAddr d" "remoteAddr (fst (update nl clk p d w)) = remoteAddr d"
  by (auto simp: update_def setFailed_def Let_def split: prod.splits option.splits sum.splits)

lemma addrs_nextClean [simp]: "addrs (c\<lparr>nextClean := t\<rparr>) = addrs c"
  by (simp add: addrs_def)

definition grows :: "ip \<Rightarrow> Controller \<Rightarrow> Controller \<Rightarrow> bool" where
  "grows l c c' \<longleftrightarrow> (\<exists>new. addrs c' = addrs c @ new \<and> list_all (\<lambda>e. fst e = l) new)"

lemma grows_refl: "addrs c' = addrs c \<Longrightarrow> grows l c c'"
  by (simp add: grows_def)

lemma grows_trans: "grows l c c' \<Longrightarrow> grows l c' c'' \<Longrightarrow> grows l c c''"
  by (fastforce simp: grows_def)

lemma handle_packet_grows:
  assumes "controller_wf c" and "handle_packet now l a pod c = (c', gs)"
  shows "grows l c c'"
proof -
  obtain p c1 where fc: "find_or_create l a pod c = (p, c1)" by fastforce
  have "addrs (c1\<lparr>objects := (objects c1)[p := setLastSeen now (objects c1 ! p)]\<rparr>) = addrs c1"
    by (rule addrs_set_object) (simp add: setLastSeen_def)
  then have "addrs c' = addrs c1" using assms(2) unfolding handle_packet_eq [OF assms(1) fc] by (auto simp: addrs_def)
  moreover have "grows l c c1"
    using fc by (auto simp: find_or_create_def grows_def addrs_def Let_def split: option.splits)
  ultimately show ?thesis by (simp add: grows_def)
qed

lemma run_goroutine_addrs: "addrs (fst (run_goroutine nl clk visit g s)) = addrs (fst s)"
proof (cases g)
  case (Update p pod)
  obtain c w where s: "s = (c, w)" by (cases s)
  obtain d w' where u: "update nl clk pod (objects c ! p) w = (d, w')" by fastforce
  have "addrs (c\<lparr>objects := (objects c)[p := d]\<rparr>) = addrs c"
    by (rule addrs_set_object) (use update_addrs [of nl clk pod "objects c ! p" w] u in simp)
  then show ?thesis by (simp add: Update s u)
next
  case Clean
  then show ?thesis by (simp add: addrs_def clean_def clean_objects)
qed

lemma step_grows:
  assumes "tunnel_step nl clk visit l (c, gs, w) (c', gs', w')" and "tunnel_inv (c, gs, w)"
  shows "grows l c c'"
  using assms(1)
proof cases
  case packet
  then show ?thesis using assms(2) by (auto simp: tunnel_inv_def intro: handle_packet_grows)
next
  case (goroutine g)
  then show ?thesis using run_goroutine_addrs [of nl clk visit g "(c, w)"] by (intro grows_refl) simp
qed (simp add: grows_refl)

lemma steps_grow_from:
  "(tunnel_step nl clk visit l)\<^sup>*\<^sup>* s s' \<Longrightarrow> tunnel_inv s \<Longrightarrow> grows l (fst s) (fst s') \<and> tunnel_inv s'"
proof (induction rule: rtranclp_induct)
  case (step s1 s2)
  then have "tunnel_inv s1" and one: "grows l (fst s) (fst s1)" by simp_all
  then have "tunnel_inv s2" "grows l (fst s1) (fst s2)"
    using tunnel_inv_step [OF step(2)] step_grows [of nl clk visit l "fst s1" "fst (snd s1)" "snd (snd s1)"
        "fst s2" "fst (snd s2)" "snd (snd s2)"] step(2) by simp_all
  then show ?case using grows_trans [OF one] by blast
qed (simp add: grows_refl)

lemmas steps_grow = steps_grow_from [of _ _ _ _ "(c, gs, w)" "(c', gs', w')" for c gs w c' gs' w', unfolded fst_conv]

lemma find_Some_in: "find P xs = Some x \<Longrightarrow> x \<in> set xs \<and> P x"
  by (induction xs) (auto split: if_splits)

section \<open>Properties\<close>

text \<open>
  When an update of a tunnel ends in success, whatever has been there before, the kernel has a
  device of the name of the tunnel, from the bonding address of the server to that of the
  kube-apiserver, which is up, and the route to the pod IP goes over that device.
\<close>

theorem update_installs_route:
  assumes "netlink_laws nl kern" and "update nl clk p d w = (d', w')" and "data_ready d'"
  shows "\<exists>i a. links (kern w') (linkName d) =
      Some (Ip6tnl (NewLinkAttrs (linkName d)\<lparr>Index := i\<rparr>) (localAddr d) (remoteAddr d) 0 True) \<and>
    linkName d \<in> up (kern w') \<and> parse_ip p = Some a \<and> routes (kern w') (host_net (norm_ip a)) = Some i"
  using assms by (rule netlink_laws.update_installs)

text \<open>
  When a packet from a kube-apiserver with its pod IP makes the server start an update, and that
  update, whenever it runs among other packets, updates and clean-ups, ends in success, the kernel has
  a device from the bonding address of the server to the sender of the packet, which is up, and the
  route to the pod IP goes over that device.
\<close>

theorem packet_installs_route:
  assumes "netlink_laws nl kern"
    and "(tunnel_step nl clk visit l)\<^sup>*\<^sup>* (NewController cfg now, [], w0) (c, gs, w)"
    and "handle_packet (clk w) l a pod c = (c1, gs1)" and "Update p pod \<in> set gs1"
    and "(tunnel_step nl clk visit l)\<^sup>*\<^sup>* (c1, gs @ gs1, w) (c2, gs2, u)"
    and "run_goroutine nl clk visit (Update p pod) (c2, u) = (c3, u')" and "data_ready (objects c3 ! p)"
  shows "\<exists>name i r x. name = linkName (objects c3 ! p) \<and> r = remoteAddr (objects c3 ! p) \<and> ip_string r = ip_string a \<and>
    links (kern u') name = Some (Ip6tnl (NewLinkAttrs name\<lparr>Index := i\<rparr>) l r 0 True) \<and> name \<in> up (kern u') \<and>
    parse_ip pod = Some x \<and> routes (kern u') (host_net (norm_ip x)) = Some i"
proof -
  have new: "tunnel_inv (NewController cfg now, [], w0)" by (simp add: tunnel_inv_def NewController_wf)
  note first = steps_grow [OF assms(2) new]
  have inv: "tunnel_inv (c1, gs @ gs1, w)"
    using first tunnel_inv_step [OF tunnel_step.packet [of clk w l a pod c c1 gs1 nl visit gs]] assms(3) by blast
  have wf: "controller_wf c" using first by (simp add: tunnel_inv_def)
  note last = steps_grow [OF assms(5) inv]
  have "addrs (NewController cfg now) = []" by (simp add: addrs_def NewController_def)
  then have local: "list_all (\<lambda>e. fst e = l) (addrs c2)"
    using first last handle_packet_grows [OF wf assms(3)] by (auto simp: grows_def)
  obtain q c' where fc: "find_or_create l a pod c = (q, c')" by fastforce
  have p: "p = q" using assms(3,4) unfolding handle_packet_eq [OF wf fc] by (auto split: if_splits)
  have at: "p < length (objects c1)" "ip_string (remoteAddr (objects c1 ! p)) = ip_string a"
    using assms(3) find_or_create_wf [OF wf fc] controller_wfD [of c' "ip_string a" p] p
    unfolding handle_packet_eq [OF wf fc] by (auto simp: setLastSeen_def dest!: map_of_SomeD)
  obtain more where "addrs c2 = addrs c1 @ more" using last by (auto simp: grows_def)
  then have "p < length (objects c2)" "addrs c2 ! p = addrs c1 ! p"
    using at(1) by (auto simp: addrs_def nth_append dest!: arg_cong [of _ _ length])
  then have c2: "p < length (objects c2)" "localAddr (objects c2 ! p) = l" "remoteAddr (objects c2 ! p) = remoteAddr (objects c1 ! p)"
    using local at(1) by (auto simp: addrs_def list_all_length)
  obtain d where upd: "update nl clk pod (objects c2 ! p) u = (d, u')" and c3: "objects c3 ! p = d"
    using assms(6) c2(1) by (auto split: prod.splits)
  have "linkName d = linkName (objects c2 ! p)" "remoteAddr d = remoteAddr (objects c2 ! p)"
    using update_addrs [of nl clk pod "objects c2 ! p" u] upd by (simp_all add: linkName_def)
  then show ?thesis
    using netlink_laws.update_installs [OF assms(1) upd] assms(7) c2 at(2) by (simp add: c3)
qed

text \<open>
  After an update that succeeded only another pod IP asks for an update; after one that
  failed, of a tunnel that has never been complete, the same pod IP asks for one again exactly when
  more than 30 seconds have passed.
\<close>

theorem update_retry:
  assumes "update nl clk p d w = (d', w')"
  shows "if data_ready d' then needsUpdate d' q now = (q \<noteq> p)
         else lastError d' \<noteq> None \<and> creationFailedCount d' = creationFailedCount d + 1 \<and>
           (\<not> creationComplete d \<longrightarrow> needsUpdate d' q now = (q \<noteq> p \<or> now - clk w' > 30000000000))"
  using assms
proof (cases rule: update_cases)
  case success
  then show ?thesis
    using update_podIP [of nl clk p d w] assms by (auto simp: needsUpdate_def data_ready_def)
next
  case (failed e)
  then show ?thesis
    using update_podIP [of nl clk p d w] assms
    by (auto simp: needsUpdate_def creationFailureBackoff_def second_def)
qed

text \<open>
  C11: an update that fails for a tunnel that had been complete is never repeated for the same pod
  IP: however much time passes, no update is needed, while the tunnel is not ready.
\<close>

theorem update_failure_sticks:
  assumes "update nl clk p d w = (d', w')" and "creationComplete d" and "\<not> data_ready d'"
  shows "\<not> needsUpdate d' p now \<and> (\<forall>t. data_ready (setLastSeen t d') = False)"
  using assms(1)
proof (cases rule: update_cases)
  case (failed e)
  then show ?thesis
    using update_podIP [of nl clk p d w] assms by (auto simp: needsUpdate_def data_ready_def setLastSeen_def)
qed (use assms(3) in simp)

text \<open>
  The controller is ready exactly when it knows a kube-apiserver and the tunnels of all that it
  knows are complete and without an error; in which order the map is visited makes no difference.
\<close>

theorem IsReady_iff:
  assumes "go_range visit"
  shows "IsReady visit c = None \<longleftrightarrow>
    kubeApiservers c \<noteq> [] \<and> (\<forall>(k, p) \<in> set (kubeApiservers c). data_ready (objects c ! p))"
proof (cases "find (\<lambda>e. \<not> data_ready (objects c ! snd e)) (visit (kubeApiservers c))")
  case None
  then have "\<forall>e \<in> set (kubeApiservers c). data_ready (objects c ! snd e)"
    using go_range.visit_set [OF assms, of "kubeApiservers c"] by (auto simp: find_None_iff)
  with None show ?thesis by (auto simp: IsReady_def)
next
  case (Some e)
  then have "e \<in> set (kubeApiservers c)" "\<not> data_ready (objects c ! snd e)"
    using go_range.visit_set [OF assms, of "kubeApiservers c"] find_Some_in [OF Some] by auto
  with Some show ?thesis by (cases e) (auto simp: IsReady_def Let_def)
qed

text \<open>
  C12: clean-up is started by a packet that arrives before the time of the next clean-up, and by no
  other: once a packet arrives at or after that time, no later packet ever starts a clean-up.
\<close>

theorem clean_never_again:
  assumes "controller_wf c" and "handle_packet now l a pod c = (c', gs)"
  shows "(Clean \<in> set gs \<longleftrightarrow> now < nextClean c) \<and>
    (nextClean c \<le> now \<and> (\<forall>(t, _, _) \<in> set ps. now \<le> t) \<longrightarrow> Clean \<notin> set (snd (handle_packets l ps c')))"
proof -
  note h = handle_packet_wf [OF assms]
  have "Clean \<notin> set (snd (handle_packets l ps c'))" if "nextClean c \<le> now" "\<forall>(t, _, _) \<in> set ps. now \<le> t"
  proof -
    have "\<forall>(t, _, _) \<in> set ps. nextClean c' \<le> t" using that h(3) by fastforce
    then show ?thesis using handle_packets_no_clean [OF h(1)] by blast
  qed
  with h(2) show ?thesis by blast
qed

text \<open>
  C13: in every interleaving of packets, goroutines and changes of the world the map of the
  controller has one entry for a remote address, each entry points to the object of that address,
  and so does every update that is still to be run.
\<close>

theorem tunnel_reachable:
  assumes "(tunnel_step nl clk visit l)\<^sup>*\<^sup>* (NewController cfg now, [], w0) (c, gs, w)"
  shows "distinct (map fst (kubeApiservers c)) \<and>
    (\<forall>(k, p) \<in> set (kubeApiservers c). p < length (objects c) \<and> ip_string (remoteAddr (objects c ! p)) = k) \<and>
    (\<forall>p pod. Update p pod \<in> set gs \<longrightarrow> p < length (objects c))"
proof -
  have "tunnel_inv (NewController cfg now, [], w0)"
    by (simp add: tunnel_inv_def NewController_wf)
  with assms have "tunnel_inv (c, gs, w)"
    by (induction rule: rtranclp_induct) (auto intro: tunnel_inv_step)
  then show ?thesis
    by (auto simp: tunnel_inv_def controller_wf_def list_all_iff pointer_ok_def split: goroutine.splits)
qed


section \<open>Witnesses\<close>

definition example_host :: host where
  "example_host = \<lparr>devices = [], host_up = {}, host_master = (\<lambda>_. None), host_addresses = (\<lambda>_. []),
     host_routes = (\<lambda>_. None)\<rparr>"

definition example_data :: kubeApiserverData where
  "example_data = \<lparr>podIP = ''10.1.2.3'', localAddr = replicate 15 0 @ [1], remoteAddr = replicate 14 0 @ [0, 5],
     lastSeen = 0, creationComplete = False, lastCreationFailed = None, creationFailedCount = 0, lastError = None\<rparr>"

lemmas update_eval = update_def DeleteLinkByName_def CreateTunnel_def ReplaceRoute_def routeForNetwork_def
  host_netlink_def host_link_def new_index_def NewLinkAttrs_def name_of_def setFailed_def data_ready_def Let_def

lemma example_update:
  "data_ready (fst (update host_netlink (\<lambda>_. 0) ''10.1.2.3'' example_data example_host))"
  by (simp add: update_eval example_host_def net_eval)

theorem update_installs_route_witness:
  "\<exists>i w. links (host_kernel w) (linkName example_data) =
     Some (Ip6tnl (NewLinkAttrs (linkName example_data)\<lparr>Index := i\<rparr>) (localAddr example_data)
       (remoteAddr example_data) 0 True)"
proof -
  obtain d' w' where u: "update host_netlink (\<lambda>_. 0) ''10.1.2.3'' example_data example_host = (d', w')"
    by fastforce
  with example_update have "data_ready d'" by simp
  from update_installs_route [OF host.netlink_laws_axioms u this] show ?thesis by blast
qed

theorem packet_installs_route_witness:
  "\<exists>c1 c3 w' i. run_goroutine host_netlink (\<lambda>_. 0) rev (Update 0 ''10.1.2.3'') (c1, example_host) = (c3, w') \<and>
     data_ready (objects c3 ! 0) \<and> routes (host_kernel w') (host_net [10, 1, 2, 3]) = Some i"
proof -
  let ?l = "replicate 15 0 @ [1] :: ip" and ?a = "replicate 14 0 @ [0, 5] :: ip" and ?new = "NewController DefaultTunnelControllerConfig 0"
  obtain c1 gs where h: "handle_packet 0 ?l ?a ''10.1.2.3'' ?new = (c1, gs)" by fastforce
  then have c1: "objects c1 = [example_data]" and up: "Update 0 ''10.1.2.3'' \<in> set gs"
    by (auto simp: handle_packet_def find_or_create_def NewController_def needsUpdate_def setLastSeen_def example_data_def
        cleanUpPeriod_def second_def Let_def)
  obtain c3 w' where run: "run_goroutine host_netlink (\<lambda>_. 0) rev (Update 0 ''10.1.2.3'') (c1, example_host) = (c3, w')"
    by fastforce
  have "objects c3 ! 0 = fst (update host_netlink (\<lambda>_. 0) ''10.1.2.3'' example_data example_host)"
    using run c1 by (auto split: prod.splits)
  then have ready: "data_ready (objects c3 ! 0)" using example_update by simp
  obtain i x where "parse_ip ''10.1.2.3'' = Some x" "routes (host_kernel w') (host_net (norm_ip x)) = Some i"
    using packet_installs_route [OF host.netlink_laws_axioms rtranclp.rtrancl_refl h up rtranclp.rtrancl_refl run ready] by blast
  moreover have "norm_ip x = [10, 1, 2, 3]" if "parse_ip ''10.1.2.3'' = Some x" for x
    using that by (auto simp: net_eval norm_ip_def)
  ultimately have "routes (host_kernel w') (host_net [10, 1, 2, 3]) = Some i" by simp
  then show ?thesis using run ready by (intro exI [of _ c1] exI [of _ c3] exI [of _ w'] exI [of _ i]) simp
qed

theorem update_retry_witness:
  "\<exists>d'. \<not> needsUpdate d' ''10.1.2.3'' 7 \<and> needsUpdate d' ''10.1.2.4'' 7"
proof -
  obtain d' w' where u: "update host_netlink (\<lambda>_. 0) ''10.1.2.3'' example_data example_host = (d', w')"
    by fastforce
  with example_update have "data_ready d'" by simp
  with update_retry [OF u, of "''10.1.2.3''" 7] update_retry [OF u, of "''10.1.2.4''" 7] show ?thesis
    by auto
qed

text \<open>A pod IP that cannot be parsed, after the tunnel has been complete.\<close>

theorem update_failure_sticks_witness:
  "\<exists>d'. podIP d' = ''bad'' \<and> \<not> needsUpdate d' ''bad'' 900000000000 \<and> \<not> data_ready d'"
proof -
  obtain d' w' where u: "update host_netlink (\<lambda>_. 0) ''bad'' (example_data\<lparr>creationComplete := True\<rparr>) example_host = (d', w')"
    by fastforce
  have "\<not> data_ready (fst (update host_netlink (\<lambda>_. 0) ''bad'' (example_data\<lparr>creationComplete := True\<rparr>) example_host))"
    by (simp add: update_eval example_host_def parse_ip_def parse_addr_def)
  with u have bad: "\<not> data_ready d'" by simp
  have "creationComplete (example_data\<lparr>creationComplete := True\<rparr>)" by simp
  from update_failure_sticks [OF u this bad, of 900000000000] bad show ?thesis
    using update_podIP [of host_netlink "\<lambda>_. 0" "''bad''"] u by (intro exI [of _ d']) (metis fst_conv)
qed

theorem IsReady_iff_witness:
  "IsReady rev (NewController DefaultTunnelControllerConfig 0) \<noteq> None"
  using IsReady_iff [OF reverse_order.go_range_axioms, of "NewController DefaultTunnelControllerConfig 0"]
  by (simp add: NewController_def)

theorem clean_never_again_witness:
  "\<exists>c gs. handle_packet 1000000000000 [] [1, 2, 3, 4] ''10.1.2.3'' (NewController DefaultTunnelControllerConfig 0) = (c, gs) \<and>
     Clean \<notin> set gs \<and> Clean \<notin> set (snd (handle_packets [] [(2000000000000, [1, 2, 3, 4], ''10.1.2.3'')] c))"
proof -
  obtain c gs where h: "handle_packet 1000000000000 [] [1, 2, 3, 4] ''10.1.2.3'' (NewController DefaultTunnelControllerConfig 0) = (c, gs)"
    by fastforce
  from clean_never_again [OF NewController_wf h, of "[(2000000000000, [1, 2, 3, 4], ''10.1.2.3'')]"] h
  show ?thesis by (auto simp: NewController_def cleanUpPeriod_def second_def)
qed

theorem tunnel_reachable_witness:
  "\<exists>c gs. handle_packet 5 [] [1, 2, 3, 4] ''10.1.2.3'' (NewController DefaultTunnelControllerConfig 0) = (c, gs) \<and>
     distinct (map fst (kubeApiservers c))"
proof -
  obtain c gs where h: "handle_packet 5 [] [1, 2, 3, 4] ''10.1.2.3'' (NewController DefaultTunnelControllerConfig 0) = (c, gs)"
    by fastforce
  have "tunnel_step host_netlink (\<lambda>_. 5) rev [] (NewController DefaultTunnelControllerConfig 0, [], example_host) (c, [] @ gs, example_host)"
    using h by (rule tunnel_step.packet)
  then have "(tunnel_step host_netlink (\<lambda>_. 5) rev [])\<^sup>*\<^sup>* (NewController DefaultTunnelControllerConfig 0, [], example_host) (c, [] @ gs, example_host)"
    by (rule r_into_rtranclp)
  from tunnel_reachable [OF this] h show ?thesis by blast
qed


end
