(* ===== verification/Path_Controller.thy ===== *)
theory Path_Controller
  imports Netmap Tunnel
begin

text \<open>
  \<^verbatim>\<open>cmd/vpn_client/app/pathcontroller\<close>: the controller on the seed side of a highly available VPN
  that pings the shoot clients through the bonding device (\<^verbatim>\<open>ping.go\<close>) and sends the traffic to the
  shoot networks over the tunnel of one client that answers (\<^verbatim>\<open>client_router.go\<close>,
  \<^verbatim>\<open>pathcontroller.go\<close>).

  \<open>'w\<close> is the state of the world, in which sockets and the kernel live.
\<close>

section \<open>Ping\<close>

text \<open>
  The library \<^verbatim>\<open>icmp\<close>: messages with a body that is an echo or another one, and its socket
  functions.  The type numbers are those of ICMPv6 and constants of that library.
\<close>

record Echo =
  EchoID :: int
  Seq :: int
  Data :: string

datatype Body = EchoBody Echo | OtherBody string

record Message =
  Type :: int
  Code :: int
  MsgBody :: Body

record 'w icmp =
  ListenPacket :: "string \<Rightarrow> string \<Rightarrow> 'w \<Rightarrow> (go_error + nat) \<times> 'w"
  SetReadDeadline :: "nat \<Rightarrow> int \<Rightarrow> 'w \<Rightarrow> go_error option \<times> 'w"
  Marshal :: "Message \<Rightarrow> go_error + string"
  WriteTo :: "nat \<Rightarrow> string \<Rightarrow> ip \<Rightarrow> 'w \<Rightarrow> go_error option \<times> 'w"
  ReadFrom :: "nat \<Rightarrow> nat \<Rightarrow> 'w \<Rightarrow> (go_error + string) \<times> 'w"
  ParseMessage :: "int \<Rightarrow> string \<Rightarrow> go_error + Message"
  CloseConn :: "nat \<Rightarrow> 'w \<Rightarrow> 'w"
  Getpid :: int

definition ICMPTypeEchoRequest :: int where "ICMPTypeEchoRequest = 128"
definition ICMPTypeEchoReply :: int where "ICMPTypeEchoReply = 129"
definition ProtocolIPv6ICMP :: int where "ProtocolIPv6ICMP = 58"

text \<open>The counter is an \<^verbatim>\<open>atomic.Int32\<close>.\<close>

record icmpPinger =
  timeout :: int
  retries :: int
  lastSeq :: "32 word"

definition echoPayload :: string where "echoPayload = ''HELLO-R-U-THERE''"

text \<open>The \<^verbatim>\<open>switch\<close> on the parsed response; \<^verbatim>\<open>err\<close> is nil in its default branch.\<close>

definition check_response :: "int \<Rightarrow> Message \<Rightarrow> go_error option" where
  "check_response seq rm =
     (if Type rm = ICMPTypeEchoReply
      then (case MsgBody rm of
              OtherBody _ \<Rightarrow> Some (Errorf ''error parsing response as ICMPTypeEchoReply'' [])
            | EchoBody echo \<Rightarrow>
                if Seq echo \<noteq> seq
                then Some (Errorf ''unexpected sequence number: %d != %d'' [int_string (Seq echo), int_string seq])
                else if Data echo \<noteq> echoPayload
                then Some (Errorf ''payload mismatch: %s'' [Data echo])
                else None)
      else None)"

definition exchange :: "'w icmp \<Rightarrow> nat \<Rightarrow> int \<Rightarrow> ip \<Rightarrow> 'w \<Rightarrow> go_error option \<times> 'w" where
  "exchange ic c seq client w =
     (case Marshal ic \<lparr>Type = ICMPTypeEchoRequest, Code = 0,
              MsgBody = EchoBody \<lparr>EchoID = Getpid ic mod 2 ^ 16, Seq = seq, Data = echoPayload\<rparr>\<rparr> of
        Inl e \<Rightarrow> (Some (Wrapf ''error marshaling msg: %w'' [] e), w)
      | Inr marshaledMsg \<Rightarrow>
     (case WriteTo ic c marshaledMsg client w of
        (Some e, w1) \<Rightarrow> (Some (Wrapf ''error writing to client: %w'' [] e), w1)
      | (None, w1) \<Rightarrow>
     (case ReadFrom ic c 1500 w1 of
        (Inl e, w2) \<Rightarrow> (Some (Wrapf ''error reading response: %w'' [] e), w2)
      | (Inr rb, w2) \<Rightarrow>
     (case ParseMessage ic ProtocolIPv6ICMP rb of
        Inl e \<Rightarrow> (Some (Wrapf ''error parsing response: %w'' [] e), w2)
      | Inr rm \<Rightarrow> (check_response seq rm, w2)))))"

definition ping ::
  "'w icmp \<Rightarrow> ('w \<Rightarrow> int) \<Rightarrow> ip \<Rightarrow> icmpPinger \<times> 'w \<Rightarrow> go_error option \<times> icmpPinger \<times> 'w"
where
  "ping ic clk client s =
     (let (p, w) = s
      in case ListenPacket ic ''udp6'' '''' w of
           (Inl e, w1) \<Rightarrow> (Some (Wrapf ''error listening for packets: %w'' [] e), p, w1)
         | (Inr c, w1) \<Rightarrow>
             (case SetReadDeadline ic c (clk w1 + timeout p) w1 of
                (Some e, w2) \<Rightarrow> (Some (Wrapf ''error setting deadline: %w'' [] e), p, CloseConn ic c w2)
              | (None, w2) \<Rightarrow>
                  (let p' = p\<lparr>lastSeq := lastSeq p + 1\<rparr>;
                       seq = uint (lastSeq p' AND 0xffff);
                       (err, w3) = exchange ic c seq client w2
                   in (err, p', CloseConn ic c w3))))"

text \<open>\<open>isTimeout\<close> tells the errors that are a \<^verbatim>\<open>net.Error\<close> whose \<^verbatim>\<open>Timeout\<close> is true.\<close>

definition pingWithTimer ::
  "'w icmp \<Rightarrow> ('w \<Rightarrow> int) \<Rightarrow> (go_error \<Rightarrow> bool) \<Rightarrow> ip \<Rightarrow> icmpPinger \<times> 'w
   \<Rightarrow> go_error option \<times> icmpPinger \<times> 'w"
where
  "pingWithTimer ic clk isTimeout client s =
     (let timer = clk (snd s); (err, p, w1) = ping ic clk client s; d = clk w1 - timer
      in if d > 100000000
         then (case err of
                 None \<Rightarrow> (None, p, w1)
               | Some e \<Rightarrow> if isTimeout e
                           then (Some (Errorf ''i/o timeout after %dms'' [int_string (d div 1000000)]), p, w1)
                           else (err, p, w1))
         else (err, p, w1))"

fun ping_tries ::
  "(icmpPinger \<times> 'w \<Rightarrow> go_error option \<times> icmpPinger \<times> 'w) \<Rightarrow> nat \<Rightarrow> go_error option
   \<Rightarrow> icmpPinger \<times> 'w \<Rightarrow> go_error option \<times> icmpPinger \<times> 'w"
where
  "ping_tries try 0 err s = (err, s)"
| "ping_tries try (Suc n) err s =
     (let (err', s') = try s
      in if err' = None then (None, s') else ping_tries try n err' s')"

definition Ping ::
  "'w icmp \<Rightarrow> ('w \<Rightarrow> int) \<Rightarrow> (go_error \<Rightarrow> bool) \<Rightarrow> ip \<Rightarrow> icmpPinger \<times> 'w
   \<Rightarrow> go_error option \<times> icmpPinger \<times> 'w"
where
  "Ping ic clk isTimeout client s =
     (let tries = retries (fst s) + 1
      in ping_tries (pingWithTimer ic clk isTimeout client) (nat tries) None s)"

section \<open>The router of the clients\<close>

text \<open>The nil address is the empty one; it prints as \<^verbatim>\<open><nil>\<close>.\<close>

record clientRouter =
  kubeAPIServerPodIP :: string
  checkedNet :: ipnet
  primary :: ip
  goodIPs :: "(string \<times> unit) list"

text \<open>
  The first entry of the map that \<^verbatim>\<open>range\<close> visits; \<^verbatim>\<open>net.ParseIP\<close> returns nil for text that is
  no address.
\<close>

definition selectNewPrimaryShootClient ::
  "((string \<times> unit) list \<Rightarrow> (string \<times> unit) list) \<Rightarrow> clientRouter \<Rightarrow> go_error + ip"
where
  "selectNewPrimaryShootClient visit r =
     (case visit (goodIPs r) of
        [] \<Rightarrow> Inl (Errorf ''no more good ips in pool'' [])
      | (a, _) # _ \<Rightarrow> Inr (case parse_ip a of None \<Rightarrow> [] | Some b \<Rightarrow> b))"

definition determinePrimaryShootClient ::
  "((string \<times> unit) list \<Rightarrow> (string \<times> unit) list) \<Rightarrow> (ip \<Rightarrow> 'w \<Rightarrow> go_error option \<times> 'w)
   \<Rightarrow> clientRouter \<Rightarrow> 'w \<Rightarrow> go_error option \<times> clientRouter \<times> 'w"
where
  "determinePrimaryShootClient visit updateRouting r w =
     (case map_of (goodIPs r) (ip_string (primary r)) of
        Some _ \<Rightarrow> (None, r, w)
      | None \<Rightarrow>
          (case selectNewPrimaryShootClient visit r of
             Inl e \<Rightarrow> (Some (Wrapf ''error selecting a new shoot client: %w'' [] e), r, w)
           | Inr newIP \<Rightarrow>
               (case updateRouting newIP w of
                  (Some e, w1) \<Rightarrow> (Some e, r, w1)
                | (None, w1) \<Rightarrow> (None, r\<lparr>primary := newIP\<rparr>, w1))))"

text \<open>
  The goroutines of \<^verbatim>\<open>pingAllShootClients\<close>: two for every client.  A ping touches only the world
  and the counter of the pinger, and its result is recorded under the mutex, so that a goroutine is
  one step at the time its result is recorded.  \<open>sched\<close> is the order of these steps.
\<close>

datatype ping_job = PingClient ip | SendIP ip

definition ping_jobs :: "ip list \<Rightarrow> ping_job list" where
  "ping_jobs clients = concat (map (\<lambda>c. [PingClient c, SendIP c]) clients)"

definition record_ping :: "ip \<Rightarrow> go_error option \<Rightarrow> clientRouter \<Rightarrow> clientRouter" where
  "record_ping client err r =
     (if err \<noteq> None then r\<lparr>goodIPs := AList.delete (ip_string client) (goodIPs r)\<rparr>
      else r\<lparr>goodIPs := AList.update (ip_string client) () (goodIPs r)\<rparr>)"

fun run_job ::
  "(ip \<Rightarrow> 'w \<Rightarrow> go_error option \<times> 'w) \<Rightarrow> (ip \<Rightarrow> string \<Rightarrow> 'w \<Rightarrow> go_error option \<times> 'w) \<Rightarrow> ping_job
   \<Rightarrow> clientRouter \<times> 'w \<Rightarrow> clientRouter \<times> 'w"
where
  "run_job pinger send (PingClient client) (r, w) =
     (let (err, w1) = pinger client w in (record_ping client err r, w1))"
| "run_job pinger send (SendIP client) (r, w) =
     (let (_, w1) = send client (kubeAPIServerPodIP r) w in (r, w1))"

definition pingAllShootClients ::
  "(ip \<Rightarrow> 'w \<Rightarrow> go_error option \<times> 'w) \<Rightarrow> (ip \<Rightarrow> string \<Rightarrow> 'w \<Rightarrow> go_error option \<times> 'w)
   \<Rightarrow> (ping_job list \<Rightarrow> ping_job list) \<Rightarrow> ip list \<Rightarrow> clientRouter \<times> 'w \<Rightarrow> clientRouter \<times> 'w"
where
  "pingAllShootClients pinger send sched clients s = fold (run_job pinger send) (sched (ping_jobs clients)) s"

text \<open>What happens at a tick of \<^verbatim>\<open>Run\<close>, and the router after \<open>n\<close> ticks.\<close>

definition tick ::
  "(ip \<Rightarrow> 'w \<Rightarrow> go_error option \<times> 'w) \<Rightarrow> (ip \<Rightarrow> string \<Rightarrow> 'w \<Rightarrow> go_error option \<times> 'w)
   \<Rightarrow> (ping_job list \<Rightarrow> ping_job list) \<Rightarrow> ((string \<times> unit) list \<Rightarrow> (string \<times> unit) list)
   \<Rightarrow> (ip \<Rightarrow> 'w \<Rightarrow> go_error option \<times> 'w) \<Rightarrow> ip list \<Rightarrow> clientRouter \<times> 'w
   \<Rightarrow> go_error option \<times> clientRouter \<times> 'w"
where
  "tick pinger send sched visit updateRouting clients s =
     (let (r, w) = pingAllShootClients pinger send sched clients s
      in determinePrimaryShootClient visit updateRouting r w)"

fun Run_ticks :: "(clientRouter \<times> 'w \<Rightarrow> go_error option \<times> clientRouter \<times> 'w) \<Rightarrow> nat \<Rightarrow> clientRouter \<times> 'w \<Rightarrow> clientRouter \<times> 'w"
where
  "Run_ticks step 0 s = s"
| "Run_ticks step (Suc n) s = Run_ticks step n (snd (step s))"

section \<open>Routing\<close>

record netlinkRouter =
  shootPodNetworks :: "CIDR list"
  shootServiceNetworks :: "CIDR list"
  shootNodeNetworks :: "CIDR list"
  seedPodNetwork :: CIDR

definition path_routeForNetwork :: "ipnet \<Rightarrow> Link \<Rightarrow> Route" where
  "path_routeForNetwork n tunnelLink = \<lparr>Dst = Some n, LinkIndex = Index (Attrs tunnelLink)\<rparr>"

fun routed_networks :: "bool \<Rightarrow> string \<Rightarrow> CIDR list \<Rightarrow> CIDR list" where
  "routed_networks overlap mapped [] = []"
| "routed_networks overlap mapped (n # ns) =
     (if to4 (net_ip n) \<noteq> None \<and> overlap then ParseIPNetIgnoreError mapped else n)
       # routed_networks overlap mapped ns"

fun replace_routes :: "'w netlink \<Rightarrow> Link \<Rightarrow> CIDR list \<Rightarrow> 'w \<Rightarrow> go_error option \<times> 'w" where
  "replace_routes nl tunnelLink [] w = (None, w)"
| "replace_routes nl tunnelLink (n # ns) w =
     (case RouteReplace nl (path_routeForNetwork (CIDR_ToIPNet n) tunnelLink) w of
        (Some e, w1) \<Rightarrow> (Some (Wrapf ''error replacing route for %s: %w'' [CIDR_String n] e), w1)
      | (None, w1) \<Rightarrow> replace_routes nl tunnelLink ns w1)"

definition router_networks :: "mapped_ranges \<Rightarrow> netlinkRouter \<Rightarrow> CIDR list" where
  "router_networks rng r =
     (let overlap = OverLapAny (seedPodNetwork r)
            (shootPodNetworks r @ shootServiceNetworks r @ shootNodeNetworks r)
      in routed_networks overlap (ShootServiceNetworkMapped rng) (shootServiceNetworks r) @
         routed_networks overlap (ShootPodNetworkMapped rng) (shootPodNetworks r) @
         routed_networks overlap (ShootNodeNetworkMapped rng) (shootNodeNetworks r))"

definition updateRouting ::
  "'w netlink \<Rightarrow> mapped_ranges \<Rightarrow> ((srcInfo \<Rightarrow> int) \<Rightarrow> srcInfo list \<Rightarrow> srcInfo list)
   \<Rightarrow> ((string \<times> string) list \<Rightarrow> (string \<times> string) list) \<Rightarrow> netlinkRouter \<Rightarrow> ip \<Rightarrow> 'w
   \<Rightarrow> go_error option \<times> 'w"
where
  "updateRouting nl rng sorter visit r newIP w =
     (case ClientIndexFromBondingShootClientIP newIP of
        Inl e \<Rightarrow> (Some (NetError e), w)
      | Inr clientIndex \<Rightarrow>
     (case LinkByName nl (BondIP6TunnelLinkName clientIndex) w of
        (Inl e, w1) \<Rightarrow> (Some (as_error e), w1)
      | (Inr tunnelLink, w1) \<Rightarrow>
     (case ShootNetworksForNetmap rng sorter visit (shootPodNetworks r) (shootServiceNetworks r)
              (shootNodeNetworks r) of
        Inl e \<Rightarrow> (Some (NetError e), w1)
      | Inr _ \<Rightarrow> replace_routes nl tunnelLink (router_networks rng r) w1)))"

section \<open>The command\<close>

definition path_networks :: "PathController \<Rightarrow> netlinkRouter" where
  "path_networks cfg =
     \<lparr>shootPodNetworks = path_ShootPodNetworks cfg, shootServiceNetworks = path_ShootServiceNetworks cfg,
      shootNodeNetworks = (if path_ShootNodeNetworks cfg \<noteq> [] then path_ShootNodeNetworks cfg else []),
      seedPodNetwork = path_SeedPodNetwork cfg\<rparr>"

text \<open>The pod IP as the shoot side sees it.\<close>

definition path_pod_ip :: "mapped_ranges \<Rightarrow> PathController \<Rightarrow> string \<Rightarrow> net_error + string" where
  "path_pod_ip rng cfg pod_ip =
     (let overlap = OverLapAny (path_SeedPodNetwork cfg)
            (path_ShootPodNetworks cfg @ path_ShootServiceNetworks cfg @ path_ShootNodeNetworks cfg)
      in if Option.bind (parse_ip pod_ip) to4 \<noteq> None \<and> overlap
         then NetmapIP pod_ip (SeedPodNetworkMapped rng)
         else Inr pod_ip)"

text \<open>
  \<^verbatim>\<open>run\<close> up to the call of \<^verbatim>\<open>router.Run\<close>: the pinger, the router of the networks, the router of
  the clients and the addresses to ping.  \<open>env\<close> is the value of \<^verbatim>\<open>POD_IP\<close>, empty when it is
  not set.
\<close>

definition path_run ::
  "mapped_ranges \<Rightarrow> CIDR \<Rightarrow> go_error + PathController \<Rightarrow> string
   \<Rightarrow> go_error + icmpPinger \<times> netlinkRouter \<times> clientRouter \<times> ip list"
where
  "path_run rng defaultNet parsed env =
     bind_r (GetPathControllerConfig defaultNet parsed) (\<lambda>cfg.
       (let checkNetworks = (if path_ShootNodeNetworks cfg = [] then path_ShootServiceNetworks cfg
                             else path_ShootNodeNetworks cfg)
        in case checkNetworks of
             [] \<Rightarrow> Inl (Errorf ''network to check is undefined'' [])
           | checkNetwork # _ \<Rightarrow>
               if env = '''' then Inl (Errorf ''POD_IP environment variable not set'' [])
               else bind_r (net_result (path_pod_ip rng cfg env)) (\<lambda>pod_ip.
                    bind_r (net_result (AllBondingShootClientIPs (CIDR_ToIPNet (path_VPNNetwork cfg))
                              (path_HAVPNClients cfg))) (\<lambda>clientIPs.
                      Inr (\<lparr>timeout = 1 * second, retries = 9, lastSeq = 0\<rparr>,
                           path_networks cfg,
                           \<lparr>kubeAPIServerPodIP = pod_ip, checkedNet = CIDR_ToIPNet checkNetwork,
                            primary = [], goodIPs = []\<rparr>,
                           clientIPs)))))"

end
