(* ===== verification/Go_Net_V6.thy ===== *)
theory Go_Net_V6
  imports Net_Types
begin

text \<open>
  Printing an IPv6 address and parsing the text gives the address again: a fact of Go's standard
  library, on which the components rely that keep addresses as strings.
\<close>

section \<open>Groups\<close>

definition is_hex :: "char \<Rightarrow> bool" where
  "is_hex c \<longleftrightarrow> hex_val c \<noteq> None \<and> c \<noteq> CHR '':'' \<and> c \<noteq> CHR ''.'' \<and> c \<noteq> CHR ''%''"

lemma less_16_cases: "(n::nat) < 16 \<Longrightarrow> n \<in> {0, 1, 2, 3, 4, 5, 6, 7, 8, 9, 10, 11, 12, 13, 14, 15}"
  by (simp add: eval_nat_numeral less_Suc_eq)

lemma hex_val_digit: "n < 16 \<Longrightarrow> hex_val (digit_char n) = Some n"
  using less_16_cases [of n] by (auto simp: hex_val_def digit_char_def less_eq_char_def)

lemma is_hex_digit: "n < 16 \<Longrightarrow> is_hex (digit_char n)"
  using less_16_cases [of n] by (auto simp: is_hex_def hex_val_def digit_char_def less_eq_char_def)

lemma hex_digits_append:
  "hex_digits n (s @ t) = (case hex_digits n s of None \<Rightarrow> None | Some m \<Rightarrow> hex_digits m t)"
  by (induction n s rule: hex_digits.induct) (auto split: option.splits)

lemma hex_digits_string: "hex_digits 0 (hex_string n) = Some n"
proof (induction n rule: hex_string.induct)
  case (1 n)
  show ?case
    using 1 by (subst hex_string.simps) (auto simp: hex_digits_append hex_val_digit)
qed

lemma hex_string_chars: "list_all is_hex (hex_string n)"
proof (induction n rule: hex_string.induct)
  case (1 n)
  show ?case using 1 by (subst hex_string.simps) (auto simp: is_hex_digit)
qed

lemma hex_string_nonempty [simp]: "hex_string n \<noteq> []"
  by (subst hex_string.simps) simp

lemma hex_string_length: "n < 16 ^ k \<Longrightarrow> 0 < k \<Longrightarrow> length (hex_string n) \<le> k"
proof (induction n arbitrary: k rule: hex_string.induct)
  case (1 n)
  show ?case
  proof (cases "n < 16")
    case True
    with 1(3) show ?thesis by (subst hex_string.simps) simp
  next
    case False
    then obtain j where k: "k = Suc j" "0 < j"
      using 1(2,3) by (cases k; cases "k - 1") auto
    have "n div 16 < 16 ^ j" using 1(2) k by (simp add: less_mult_imp_div_less mult.commute)
    with 1(1) [OF False] k have "length (hex_string (n div 16)) \<le> j" by blast
    with False k show ?thesis by (subst hex_string.simps) simp
  qed
qed

lemma parse_group_string:
  assumes "n < 65536"
  shows "parse_group (hex_string n) = Some [of_nat (n div 256), of_nat (n mod 256)]"
  using hex_string_length [of n 4] assms by (simp add: parse_group_def hex_digits_string)

definition group_bytes :: "nat \<Rightarrow> ip" where
  "group_bytes n = [of_nat (n div 256), of_nat (n mod 256)]"

lemma hex_no_dot: "CHR ''.'' \<notin> set (hex_string n)" "CHR '':'' \<notin> set (hex_string n)" "CHR ''%'' \<notin> set (hex_string n)"
  using hex_string_chars [of n] by (auto simp: list_all_iff is_hex_def)

lemma parse_groups_strings:
  "\<forall>g \<in> set gs. g < 65536 \<Longrightarrow> parse_groups v (map hex_string gs) = Some (concat (map group_bytes gs))"
  by (induction gs) (auto simp: hex_no_dot parse_group_string group_bytes_def)

lemma groups_of_bytes:
  assumes "length a = 16"
  shows "length (ip6_groups a) = 8" and "\<forall>g \<in> set (ip6_groups a). g < 65536"
    and "concat (map group_bytes (ip6_groups a)) = a"
proof -
  have group: "256 * unat x + unat y < 65536" "group_bytes (256 * unat x + unat y) = [x, y]" for x y :: byte
  proof -
    have u: "unat z < 2 ^ LENGTH(8)" for z :: byte by (rule unsigned_less)
    from u [of x] u [of y] show "256 * unat x + unat y < 65536" by simp
    have "(256 * unat x + unat y) div 256 = unat x" "(256 * unat x + unat y) mod 256 = unat y"
      using u [of y] by simp_all
    then show "group_bytes (256 * unat x + unat y) = [x, y]"
      by (simp add: group_bytes_def)
  qed
  have "length (ip6_groups b) = k \<and> (\<forall>g \<in> set (ip6_groups b). g < 65536) \<and> concat (map group_bytes (ip6_groups b)) = b"
    if len: "length b = 2 * k" for b k
    using len by (induction k arbitrary: b) (auto simp: length_Suc_conv group numeral_2_eq_2)
  from this [of a 8] show "length (ip6_groups a) = 8" "\<forall>g \<in> set (ip6_groups a). g < 65536"
    "concat (map group_bytes (ip6_groups a)) = a"
    using assms by simp_all
qed

section \<open>The run of zeros\<close>

lemma zero_run_zeros: "i < zero_run gs \<Longrightarrow> gs ! i = 0"
  unfolding zero_run_def using nth_mem [of i "takeWhile (\<lambda>g. g = 0) gs"]
  by (metis set_takeWhileD takeWhile_nth)

lemma zero_run_length: "zero_run gs \<le> length gs"
  by (simp add: zero_run_def length_takeWhile_le)

definition zeros_at :: "nat list \<Rightarrow> nat \<times> nat \<Rightarrow> bool" where
  "zeros_at gs r \<longleftrightarrow> fst r + snd r \<le> length gs \<and> (\<forall>i < snd r. gs ! (fst r + i) = 0) \<and> snd r \<noteq> 1"

lemma best_run_zeros:
  assumes "zeros_at all_gs r" and "drop i all_gs = gs"
  shows "zeros_at all_gs (best_run i r gs)"
  using assms
proof (induction i r gs rule: best_run.induct)
  case (2 i s l g gs)
  let ?k = "zero_run (g # gs)"
  have len: "i + length (g # gs) = length all_gs"
    using arg_cong [OF 2(3), of length] by (cases "i \<le> length all_gs") auto
  have at: "all_gs ! (i + j) = (g # gs) ! j" if "j < length (g # gs)" for j
    using that len by (simp flip: 2(3))
  have "zeros_at all_gs (i, ?k)" if "2 \<le> ?k"
    using that len at zero_run_zeros [of _ "g # gs"] zero_run_length [of "g # gs"]
    by (auto simp: zeros_at_def)
  moreover have "drop (Suc i) all_gs = gs"
    using 2(3) by (metis drop_Suc list.sel(3) tl_drop)
  ultimately show ?case
    using 2(1) [OF refl] 2(2) by (auto simp: Let_def)
qed simp

section \<open>Round trip\<close>

text \<open>Fields are non-empty and hold no colon.\<close>

definition fields :: "string list \<Rightarrow> bool" where
  "fields fs \<longleftrightarrow> (\<forall>f \<in> set fs. f \<noteq> [] \<and> CHR '':'' \<notin> set f)"

lemma split_ellipsis_chars:
  "CHR '':'' \<notin> set f \<Longrightarrow> f \<noteq> [] \<Longrightarrow>
    split_ellipsis (f @ r) =
      (if r = [] then None
       else map_option (\<lambda>(a, b). (f @ a, b)) (split_ellipsis r))"
proof (induction f)
  case (Cons x f)
  show ?case
  proof (cases f)
    case Nil
    then show ?thesis using Cons.prems by (cases r) (auto split: prod.splits)
  next
    case (Cons y g)
    then show ?thesis
      using Cons.prems Cons.IH by (cases "split_ellipsis r") (auto split: if_splits)
  qed
qed simp

lemma split_ellipsis_colon:
  "f \<noteq> [] \<Longrightarrow> CHR '':'' \<notin> set f \<Longrightarrow>
    split_ellipsis (CHR '':'' # f @ r) = map_option (\<lambda>(a, b). (CHR '':'' # a, b)) (split_ellipsis (f @ r))"
  by (cases f) auto

lemma split_ellipsis_none: "fields fs \<Longrightarrow> split_ellipsis (join_with '':'' fs) = None"
proof (induction "'':''" fs rule: join_with.induct)
  case (2 x)
  then show ?case using split_ellipsis_chars [of x "[]"] by (simp add: fields_def)
next
  case (3 x y ys)
  then have "split_ellipsis (join_with '':'' (y # ys)) = None" by (simp add: fields_def)
  moreover have "\<exists>r. join_with '':'' (y # ys) = y @ r"
    by (cases ys) auto
  ultimately show ?case
    using 3(2) by (auto simp: fields_def split_ellipsis_chars split_ellipsis_colon)
qed simp

lemma split_ellipsis_some:
  "fields fs \<Longrightarrow> split_ellipsis (join_with '':'' fs @ '':'' @ CHR '':'' # t) = Some (join_with '':'' fs, t)"
proof (induction "'':''" fs rule: join_with.induct)
  case (2 x)
  then show ?case using split_ellipsis_chars [of x "'':'' @ CHR '':'' # t"] by (simp add: fields_def)
next
  case (3 x y ys)
  then have "split_ellipsis (join_with '':'' (y # ys) @ '':'' @ CHR '':'' # t) = Some (join_with '':'' (y # ys), t)"
    by (simp add: fields_def)
  moreover have "\<exists>r. join_with '':'' (y # ys) = y @ r"
    by (cases ys) auto
  ultimately show ?case
    using 3(2) by (auto simp: fields_def split_ellipsis_chars split_ellipsis_colon)
qed simp

lemma fields_hex: "fields (map hex_string gs)"
  by (auto simp: fields_def hex_no_dot)

lemma side_fields_join: "fields fs \<Longrightarrow> side_fields (join_with '':'' fs) = fs"
proof (cases fs)
  case (Cons f gs)
  assume fs: "fields fs"
  then have "join_with '':'' fs \<noteq> []" using Cons by (cases gs) (auto simp: fields_def)
  moreover have "split_on CHR '':'' (join_with '':'' fs) = fs"
    using fs Cons by (intro split_on_join) (auto simp: fields_def)
  ultimately show ?thesis by (simp add: side_fields_def)
qed (simp add: side_fields_def)

lemma group_bytes_length: "length (concat (map group_bytes gs)) = 2 * length gs"
  by (induction gs) (auto simp: group_bytes_def)

lemma group_bytes_zeros: "concat (map group_bytes (replicate n 0)) = replicate (2 * n) 0"
  by (induction n) (auto simp: group_bytes_def)

lemma zeros_at_split:
  assumes "zeros_at gs (s, l)"
  shows "gs = take s gs @ replicate l 0 @ drop (s + l) gs"
proof -
  have "take l (drop s gs) = replicate l 0"
    using assms by (intro nth_equalityI) (auto simp: zeros_at_def)
  then show ?thesis
    by (metis add.commute append_take_drop_id drop_drop)
qed

lemma parse_ip6_string:
  assumes "length a = 16"
  shows "parse_ip6 (ip6_string a) = Some a"
proof -
  let ?gs = "ip6_groups a"
  obtain s l where r: "best_run 0 (0, 0) ?gs = (s, l)" by (cases "best_run 0 (0, 0) ?gs")
  have z: "zeros_at ?gs (s, l)"
    using best_run_zeros [of ?gs "(0, 0)" 0 ?gs] by (simp add: zeros_at_def r)
  note g = groups_of_bytes [OF assms]
  show ?thesis
  proof (cases "l = 0")
    case True
    have "split_on CHR '':'' (join_with '':'' (map hex_string ?gs)) = map hex_string ?gs"
      using g(1) by (intro split_on_join) (auto simp: hex_no_dot)
    with True r g assms show ?thesis
      by (simp add: ip6_string_def parse_ip6_def split_ellipsis_none fields_hex parse_groups_strings)
  next
    case False
    let ?l = "take s ?gs" and ?r = "drop (s + l) ?gs"
    have lr: "\<forall>g \<in> set ?l. g < 65536" "\<forall>g \<in> set ?r. g < 65536"
      using g(2) by (auto dest: in_set_takeD in_set_dropD)
    have l2: "2 \<le> l" "s + l \<le> 8" using z False g(1) by (auto simp: zeros_at_def)
    have "a = concat (map group_bytes ?l) @ replicate (2 * l) 0 @ concat (map group_bytes ?r)"
      using arg_cong [OF zeros_at_split [OF z], of "\<lambda>x. concat (map group_bytes x)"]
      by (simp add: g(3) group_bytes_zeros del: map_replicate)
    moreover have "16 - 2 * s - 2 * (8 - (s + l)) = 2 * l" using l2 by simp
    ultimately show ?thesis
      using False r l2 g(1)
      by (simp add: ip6_string_def parse_ip6_def Let_def split_ellipsis_some [simplified] fields_hex
          side_fields_join parse_groups_strings [OF lr(1)] parse_groups_strings [OF lr(2)]
          group_bytes_length min_def)
  qed
qed

lemma ip6_string_colon:
  assumes "length a = 16"
  obtains h r where "ip6_string a = h @ CHR '':'' # r" "CHR ''.'' \<notin> set h" "CHR ''%'' \<notin> set h"
proof -
  have first: "\<exists>h r. join_with '':'' (map hex_string gs) @ t = h @ CHR '':'' # r \<and> CHR ''.'' \<notin> set h \<and> CHR ''%'' \<notin> set h"
    if "2 \<le> length gs \<or> (\<exists>u. t = CHR '':'' # u)" for gs t
  proof (cases "2 \<le> length gs")
    case True
    then obtain g g' gs' where "gs = g # g' # gs'"
      by (metis Suc_le_length_iff numeral_2_eq_2)
    then show ?thesis
      by (intro exI [of _ "hex_string g"] exI) (simp add: hex_no_dot)
  next
    case False
    with that obtain u where t: "t = CHR '':'' # u" by blast
    from False consider "gs = []" | g where "gs = [g]"
      by (cases gs; cases "tl gs") auto
    then show ?thesis
    proof cases
      case 1
      with t show ?thesis by (intro exI [of _ "[]"] exI [of _ u]) simp
    next
      case (2 g)
      with t show ?thesis by (intro exI [of _ "hex_string g"] exI [of _ u]) (simp add: hex_no_dot)
    qed
  qed
  obtain s l where r: "best_run 0 (0, 0) (ip6_groups a) = (s, l)" by (cases "best_run 0 (0, 0) (ip6_groups a)")
  have "\<exists>h r. ip6_string a = h @ CHR '':'' # r \<and> CHR ''.'' \<notin> set h \<and> CHR ''%'' \<notin> set h"
    using first [of "ip6_groups a" "[]"] first [of "take s (ip6_groups a)" "''::'' @ join_with '':'' (map hex_string (drop (s + l) (ip6_groups a)))"]
      groups_of_bytes(1) [OF assms]
    by (simp add: ip6_string_def Let_def r)
  then show thesis using that by blast
qed

lemma join_chars: "c \<notin> set sep \<Longrightarrow> \<forall>f \<in> set fs. c \<notin> set f \<Longrightarrow> c \<notin> set (join_with sep fs)"
  by (induction sep fs rule: join_with.induct) auto

lemma join_hex: "CHR ''%'' \<notin> set (join_with '':'' (map hex_string gs))"
  by (rule join_chars) (auto simp: hex_no_dot)

lemma ip6_string_no_zone: "CHR ''%'' \<notin> set (ip6_string a)"
  by (simp add: ip6_string_def Let_def join_hex split: prod.split)

lemma parse_addr_v6:
  assumes "length a = 16"
  shows "parse_addr (ip6_string a) = Some a"
proof -
  obtain h r where h: "ip6_string a = h @ CHR '':'' # r" "CHR ''.'' \<notin> set h" "CHR ''%'' \<notin> set h"
    using assms by (rule ip6_string_colon)
  have "\<exists>t. dropWhile (\<lambda>c. c \<noteq> CHR ''.'' \<and> c \<noteq> CHR '':'' \<and> c \<noteq> CHR ''%'') (ip6_string a) = CHR '':'' # t"
    unfolding h(1) using h(2,3) by (induction h) auto
  then show ?thesis
    using parse_ip6_string [OF assms] ip6_string_no_zone [of a]
    by (fastforce simp: parse_addr_def)
qed

theorem parse_ip_string:
  assumes "length a = 16"
  shows "parse_ip (ip_string a) = Some a"
proof (cases "to4 a")
  case None
  with assms have "ip_string a = ip6_string a" by (auto simp: ip_string_def)
  with assms show ?thesis by (simp add: parse_ip_def parse_addr_v6 to16_def)
next
  case (Some p)
  with assms have "take 12 a = v4_in_v6_prefix" "p = drop 12 a"
    by (auto simp: to4_def split: if_splits)
  then have "a = v4_in_v6_prefix @ p"
    using append_take_drop_id [of 12 a] by simp
  moreover have "ip_string a = ip4_string p"
    using assms Some by (auto simp: ip_string_def)
  moreover have "length p = 4" using Some by (rule to4_length)
  ultimately show ?thesis by (simp add: parse_ip_def parse_addr_ip4_string to16_def)
qed

lemma ip_string_inj:
  "length a = 16 \<Longrightarrow> length b = 16 \<Longrightarrow> ip_string a = ip_string b \<longleftrightarrow> a = b"
  by (metis option.inject parse_ip_string)

end
