(* ===== verification/Path_Proofs.thy ===== *)
theory Path_Proofs
  imports Path_Controller Kernel Go_Net_V6
begin

text \<open>What the path controller guarantees: pings, rounds of pings, the primary client, routes.\<close>

section \<open>The start\<close>

lemma path_run_ok:
  assumes "path_run rng d parsed env = Inr (p, nr, r, clients)"
  obtains cfg where "GetPathControllerConfig d parsed = Inr cfg"
    and "retries p = 9" and "nr = path_networks cfg" and "primary r = []" and "goodIPs r = []"
    and "AllBondingShootClientIPs (path_VPNNetwork cfg) (path_HAVPNClients cfg) = Inr clients"
    and "path_pod_ip rng cfg env = Inr (kubeAPIServerPodIP r)"
proof -
  obtain cfg where cfg: "GetPathControllerConfig d parsed = Inr cfg"
    using assms by (auto simp: path_run_def result_simps)
  show thesis
  proof (cases "if path_ShootNodeNetworks cfg = [] then path_ShootServiceNetworks cfg
                else path_ShootNodeNetworks cfg")
    case Nil
    with assms cfg show thesis by (simp add: path_run_def Let_def)
  next
    case (Cons n ns)
    with assms cfg show thesis
      by (intro that [of cfg])
        (auto simp: path_run_def Let_def result_simps net_result_def CIDR_ToIPNet_def split: if_splits sum.splits)
  qed
qed

section \<open>Pings\<close>

text \<open>The states before the tries, as long as they fail.\<close>

fun try_state :: "('s \<Rightarrow> go_error option \<times> 's) \<Rightarrow> 's \<Rightarrow> nat \<Rightarrow> 's" where
  "try_state try s 0 = s"
| "try_state try s (Suc k) = try_state try (snd (try s)) k"

lemma ping_tries_ok:
  "fst (ping_tries try n err s) = None \<longleftrightarrow>
     (n = 0 \<and> err = None) \<or> (\<exists>k < n. fst (try (try_state try s k)) = None)"
proof (induction n arbitrary: err s)
  case (Suc n)
  show ?case
  proof (cases "fst (try s) = None")
    case True
    then show ?thesis by (auto intro!: exI [of _ 0] split: prod.splits)
  next
    case False
    then have "(\<exists>k < Suc n. fst (try (try_state try s k)) = None) \<longleftrightarrow>
        (\<exists>k < n. fst (try (try_state try (snd (try s)) k)) = None)"
      by (metis Suc_less_eq not0_implies_Suc try_state.simps)
    with False Suc show ?thesis by (auto split: prod.splits)
  qed
qed simp

lemma pingWithTimer_ok:
  "fst (pingWithTimer ic clk isTimeout client s) = None \<longleftrightarrow> fst (ping ic clk client s) = None"
  by (auto simp: pingWithTimer_def Let_def split: prod.splits option.splits)

text \<open>A response that was received and parsed, and the responses that are accepted.\<close>

definition seq_of :: "icmpPinger \<Rightarrow> int" where
  "seq_of p = uint ((lastSeq p + 1) AND 0xffff)"

definition echo_request :: "'w icmp \<Rightarrow> icmpPinger \<Rightarrow> Message" where
  "echo_request ic p = \<lparr>Type = ICMPTypeEchoRequest, Code = 0,
     MsgBody = EchoBody \<lparr>EchoID = Getpid ic mod 2 ^ 16, Seq = seq_of p, Data = echoPayload\<rparr>\<rparr>"

definition received :: "'w icmp \<Rightarrow> ('w \<Rightarrow> int) \<Rightarrow> ip \<Rightarrow> icmpPinger \<times> 'w \<Rightarrow> Message \<Rightarrow> bool" where
  "received ic clk client s rm \<longleftrightarrow>
     (\<exists>c w1 w2 m w3 rb w4.
        ListenPacket ic ''udp6'' '''' (snd s) = (Inr c, w1) \<and>
        SetReadDeadline ic c (clk w1 + timeout (fst s)) w1 = (None, w2) \<and>
        Marshal ic (echo_request ic (fst s)) = Inr m \<and> WriteTo ic c m client w2 = (None, w3) \<and>
        ReadFrom ic c 1500 w3 = (Inr rb, w4) \<and> ParseMessage ic ProtocolIPv6ICMP rb = Inr rm)"

definition accepted :: "icmpPinger \<Rightarrow> Message \<Rightarrow> bool" where
  "accepted p rm \<longleftrightarrow> Type rm \<noteq> ICMPTypeEchoReply \<or>
     (\<exists>echo. MsgBody rm = EchoBody echo \<and> Seq echo = seq_of p \<and> Data echo = echoPayload)"

lemma check_response_ok: "check_response (seq_of p) rm = None \<longleftrightarrow> accepted p rm"
  by (auto simp: check_response_def accepted_def split: Body.splits)

lemma ping_ok:
  "fst (ping ic clk client s) = None \<longleftrightarrow> (\<exists>rm. received ic clk client s rm \<and> accepted (fst s) rm)"
  by (cases s)
    (auto simp: ping_def exchange_def received_def Let_def echo_request_def
      simp flip: seq_of_def check_response_ok split: prod.splits sum.splits option.splits)

text \<open>
  C15: with the 9 retries of the path controller a client counts as healthy exactly when, in one of
  ten tries, a packet arrived that parses as an ICMPv6 message and that is either the echo reply with
  the sequence number sent (the low 16 bits of the counter) and the payload, or a message of any other
  type: an error message such as \<^verbatim>\<open>destination unreachable\<close> counts as a healthy client too.
\<close>

theorem Ping_outcome:
  assumes "path_run rng d parsed env = Inr (p0, nr, r0, clients)" and "retries p = retries p0"
  shows "fst (Ping ic clk isTimeout client (p, w)) = None \<longleftrightarrow>
    (\<exists>k < 10. let s = try_state (pingWithTimer ic clk isTimeout client) (p, w) k
              in \<exists>rm. received ic clk client s rm \<and>
                   (Type rm \<noteq> ICMPTypeEchoReply \<or>
                    (\<exists>echo. MsgBody rm = EchoBody echo \<and> Data echo = echoPayload \<and>
                       Seq echo = uint ((lastSeq (fst s) + 1) AND 0xffff))))"
proof -
  have "retries p = 9"
    using assms by (auto elim: path_run_ok)
  then show ?thesis
    by (auto simp: Ping_def ping_tries_ok pingWithTimer_ok ping_ok accepted_def seq_of_def Let_def)
qed

section \<open>Rounds of pings\<close>



lemma record_ping_keeps [simp]:
  "primary (record_ping c err r) = primary r" "kubeAPIServerPodIP (record_ping c err r) = kubeAPIServerPodIP r"
  by (simp_all add: record_ping_def)





section \<open>The primary client\<close>










section \<open>Routes\<close>




lemma routed_networks_map:
  "routed_networks overlap mapped ns =
     map (\<lambda>n. if CIDR_IsIPv4 n \<and> overlap then ParseIPNetIgnoreError mapped else n) ns"
  by (induction ns) (auto simp: CIDR_IsIPv4_def)

text \<open>
  The networks routed to the shoot never overlap the pod network of the seed, even when the
  networks of the shoot do, provided that the reserved ranges and the IPv6 networks of the shoot do
  not overlap it.
\<close>

theorem router_networks_avoid_seed:
  assumes "\<not> OverLapAny (seedPodNetwork r) (map ParseIPNetIgnoreError
      [ShootServiceNetworkMapped rng, ShootPodNetworkMapped rng, ShootNodeNetworkMapped rng])"
    and "\<not> OverLapAny (seedPodNetwork r) (GetByIPFamily
      (shootPodNetworks r @ shootServiceNetworks r @ shootNodeNetworks r) IPv6Family)"
  shows "\<not> OverLapAny (seedPodNetwork r) (router_networks rng r)"
  using assms
  by (fastforce simp: OverLapAny_iff router_networks_def routed_networks_map GetByIPFamily_6 Let_def)


section \<open>Witnesses\<close>

text \<open>A shoot with one service and one pod network, two clients, and a seed pod network that overlaps.\<close>

definition reserved_ranges :: mapped_ranges where
  "reserved_ranges = \<lparr>ShootPodNetworkMapped = ''244.0.0.0/8'', ShootServiceNetworkMapped = ''243.0.0.0/8'',
     ShootNodeNetworkMapped = ''242.0.0.0/8'', SeedPodNetworkMapped = ''241.0.0.0/8''\<rparr>"

definition net10 :: CIDR where "net10 = \<lparr>net_ip = [10, 0, 0, 0], net_mask = [255, 0, 0, 0]\<rparr>"
definition net100 :: CIDR where "net100 = \<lparr>net_ip = [100, 64, 0, 0], net_mask = [255, 248, 0, 0]\<rparr>"

definition example_path :: PathController where
  "example_path = \<lparr>path_IPFamilies = ''IPv4'', path_VPNNetwork = vpn_nw, path_HAVPNClients = 2,
     path_ShootServiceNetworks = [net100], path_ShootPodNetworks = [net10], path_ShootNodeNetworks = [],
     path_SeedPodNetwork = net10\<rparr>"

definition client_ip :: "byte \<Rightarrow> ip" where
  "client_ip i = [0xfd, 0x8f, 0x6d, 0x53, 0xb9, 0x7a, 0, 1, 0, 0, 0, 0, 0, 0xb, 0, i]"

lemma example_clients: "AllBondingShootClientIPs vpn_nw 2 = Inr [client_ip 0, client_ip 1]"
  by (simp add: AllBondingShootClientIPs_def BondingShootClientIP_def vpn_nw_def client_ip_def
      bondStartShoot_def upt_rec numeral_2_eq_2)

lemma example_overlap: "Overlap net10 net10"
  by (simp add: Overlap_def CIDR_ToIPNet_def net10_def net_contains_def network_number_and_mask_def)

lemma example_pod_ip: "path_pod_ip reserved_ranges example_path ''10.0.0.7'' = Inr ''241.0.0.7''"
proof -
  have "parse_ip ''10.0.0.7'' = Some (ipv4 10 0 0 7)"
    by (simp add: parse_ip_def net_eval to16_def ipv4_def)
  moreover have "parse_cidr ''241.0.0.0/8'' = Some (ipv4 241 0 0 0, \<lparr>net_ip = [241, 0, 0, 0], net_mask = [255, 0, 0, 0]\<rparr>)"
    by (simp add: net_eval ipv4_def)
  moreover have "ip_string [241, 0, 0, 7] = ''241.0.0.7''"
    by (simp add: ip_string_def ip4_string_def byte_string_def net_eval)
  ultimately show ?thesis
    using example_overlap
    by (simp add: path_pod_ip_def NetmapIP_def netmapIP_def reserved_ranges_def example_path_def upt_rec)
qed

lemma example_path_run:
  "\<exists>p nr r. path_run reserved_ranges vpn_nw (Inr example_path) ''10.0.0.7'' =
     Inr (p, nr, r, [client_ip 0, client_ip 1])"
proof -
  have "example_path\<lparr>path_VPNNetwork := vpn_nw\<rparr> = example_path"
    by (simp add: example_path_def)
  then have "GetPathControllerConfig vpn_nw (Inr example_path) = Inr example_path"
    by (simp add: GetPathControllerConfig_def vpn_nw_ok example_path_def)
  then show ?thesis
    using example_pod_ip example_clients
    by (simp add: path_run_def example_path_def CIDR_ToIPNet_def)
qed


text \<open>A network on which the first read times out and the second one gives the reply.\<close>

definition example_icmp :: "nat icmp" where
  "example_icmp = \<lparr>ListenPacket = (\<lambda>_ _ w. (Inr 0, w)), SetReadDeadline = (\<lambda>_ _ w. (None, w)),
     Marshal = (\<lambda>_. Inr ''request''), WriteTo = (\<lambda>_ _ _ w. (None, w)),
     ReadFrom = (\<lambda>_ _ w. if w = 0 then (Inl (Foreign ''i/o timeout''), 1) else (Inr ''reply'', w)),
     ParseMessage = (\<lambda>_ _. Inr \<lparr>Type = ICMPTypeEchoReply, Code = 0,
        MsgBody = EchoBody \<lparr>EchoID = 1, Seq = 2, Data = echoPayload\<rparr>\<rparr>),
     CloseConn = (\<lambda>_ w. w), Getpid = 1\<rparr>"

theorem Ping_outcome_witness:
  "fst (Ping example_icmp (\<lambda>_. 0) (\<lambda>_. False) (client_ip 0)
     (\<lparr>timeout = second, retries = 9, lastSeq = 0\<rparr>, 0)) = None"
proof -
  let ?p = "\<lparr>timeout = second, retries = 9, lastSeq = 0\<rparr>"
  obtain p nr r where run: "path_run reserved_ranges vpn_nw (Inr example_path) ''10.0.0.7'' =
      Inr (p, nr, r, [client_ip 0, client_ip 1])"
    using example_path_run by blast
  then have "retries ?p = retries p" by (auto elim: path_run_ok)
  note outcome = Ping_outcome [OF run this, of example_icmp "\<lambda>_. 0" "\<lambda>_. False" "client_ip 0" 0]
  have second: "try_state (pingWithTimer example_icmp (\<lambda>_. 0) (\<lambda>_. False) (client_ip 0)) (?p, 0) 1 =
      (\<lparr>timeout = second, retries = 9, lastSeq = 1\<rparr>, 1)"
    by (simp add: pingWithTimer_def ping_def exchange_def example_icmp_def Let_def)
  show ?thesis
    unfolding outcome
    by (intro exI [of _ 1])
      (simp add: second [simplified] received_def echo_request_def, simp add: example_icmp_def)
qed





lemma range_networks:
  "ParseIPNetIgnoreError ''243.0.0.0/8'' = \<lparr>net_ip = [243, 0, 0, 0], net_mask = [255, 0, 0, 0]\<rparr>"
  "ParseIPNetIgnoreError ''244.0.0.0/8'' = \<lparr>net_ip = [244, 0, 0, 0], net_mask = [255, 0, 0, 0]\<rparr>"
  "ParseIPNetIgnoreError ''242.0.0.0/8'' = \<lparr>net_ip = [242, 0, 0, 0], net_mask = [255, 0, 0, 0]\<rparr>"
  by (simp_all add: ParseIPNetIgnoreError_def ParseIPNet_def net_eval)















theorem router_networks_avoid_seed_witness:
  "\<not> OverLapAny net10 (router_networks reserved_ranges
      \<lparr>shootPodNetworks = [net10], shootServiceNetworks = [net100], shootNodeNetworks = [], seedPodNetwork = net10\<rparr>)"
proof -
  let ?r = "\<lparr>shootPodNetworks = [net10], shootServiceNetworks = [net100], shootNodeNetworks = [], seedPodNetwork = net10\<rparr>"
  have "\<not> OverLapAny (seedPodNetwork ?r) (map ParseIPNetIgnoreError
      [ShootServiceNetworkMapped reserved_ranges, ShootPodNetworkMapped reserved_ranges, ShootNodeNetworkMapped reserved_ranges])"
    by (simp add: reserved_ranges_def range_networks Overlap_def CIDR_ToIPNet_def
        net_contains_def network_number_and_mask_def net10_def)
  moreover have "\<not> OverLapAny (seedPodNetwork ?r) (GetByIPFamily
      (shootPodNetworks ?r @ shootServiceNetworks ?r @ shootNodeNetworks ?r) IPv6Family)"
    by (simp add: GetByIPFamily_6 CIDR_IsIPv4_def net10_def net100_def)
  ultimately show ?thesis using router_networks_avoid_seed [of ?r reserved_ranges] by simp
qed

end
