(* ===== verification/Effects.thy ===== *)
theory Effects
  imports Net_Types
begin

text \<open>
  Effects: operations on a state \<open>'w\<close> of the world that return an error or \<^term>\<open>None\<close>, the two
  ways in which the code composes them (one after the other, and in a loop, both up to the first
  error), and the functions of Go's package \<^verbatim>\<open>os\<close> that several components call.
\<close>

type_synonym ('e, 'w) effect = "'w \<Rightarrow> 'e option \<times> 'w"

section \<open>Composition\<close>

definition and_then :: "('e, 'w) effect \<Rightarrow> ('e, 'w) effect \<Rightarrow> ('e, 'w) effect" where
  "and_then f g w = (case f w of (Some e, w1) \<Rightarrow> (Some e, w1) | (None, w1) \<Rightarrow> g w1)"

definition skip :: "('e, 'w) effect" where
  "skip w = (None, w)"

definition fail :: "'e \<Rightarrow> ('e, 'w) effect" where
  "fail e w = (Some e, w)"

text \<open>A call whose error is wrapped.\<close>

definition wrapping :: "('e \<Rightarrow> 'e) \<Rightarrow> ('e, 'w) effect \<Rightarrow> ('e, 'w) effect" where
  "wrapping f g w = (case g w of (Some e, w1) \<Rightarrow> (Some (f e), w1) | (None, w1) \<Rightarrow> (None, w1))"

text \<open>A call with a result, which what follows uses.\<close>

definition with_result :: "('w \<Rightarrow> ('e + 'a) \<times> 'w) \<Rightarrow> ('a \<Rightarrow> ('e, 'w) effect) \<Rightarrow> ('e, 'w) effect" where
  "with_result f g w = (case f w of (Inl e, w1) \<Rightarrow> (Some e, w1) | (Inr x, w1) \<Rightarrow> g x w1)"

fun each :: "('a \<Rightarrow> ('e, 'w) effect) \<Rightarrow> 'a list \<Rightarrow> ('e, 'w) effect" where
  "each f [] w = (None, w)"
| "each f (x # xs) w = and_then (f x) (each f xs) w"

section \<open>Facts\<close>

named_theorems effect_ok \<open>what the success of a composed effect says\<close>

lemma and_then_ok [effect_ok]:
  "and_then f g w = (None, w') \<longleftrightarrow> (\<exists>w1. f w = (None, w1) \<and> g w1 = (None, w'))"
  by (auto simp: and_then_def split: prod.splits option.splits)

lemma skip_ok [effect_ok]: "skip w = (None, w') \<longleftrightarrow> w' = w"
  by (auto simp: skip_def)

lemma fail_ok [effect_ok]: "\<not> fail e w = (None, w')"
  by (simp add: fail_def)

lemma wrapping_ok [effect_ok]: "wrapping f g w = (None, w') \<longleftrightarrow> g w = (None, w')"
  by (auto simp: wrapping_def split: prod.splits option.splits)

lemma with_result_ok [effect_ok]:
  "with_result f g w = (None, w') \<longleftrightarrow> (\<exists>x w1. f w = (Inr x, w1) \<and> g x w1 = (None, w'))"
  by (auto simp: with_result_def split: prod.splits sum.splits)

lemma each_append: "each f (xs @ ys) = and_then (each f xs) (each f ys)"
  by (induction xs) (auto simp: and_then_def fun_eq_iff split: prod.splits option.splits)

lemma each_Cons_ok [effect_ok]:
  "each f (x # xs) w = (None, w') \<longleftrightarrow> (\<exists>w1. f x w = (None, w1) \<and> each f xs w1 = (None, w'))"
  by (simp add: effect_ok)

text \<open>A loop whose steps change an abstraction of the state by a function.\<close>

lemma each_view:
  assumes "\<And>x w w'. x \<in> set xs \<Longrightarrow> f x w = (None, w') \<Longrightarrow> view w' = h x (view w)"
  shows "each f xs w = (None, w') \<Longrightarrow> view w' = fold h xs (view w)"
  using assms
proof (induction xs arbitrary: w)
  case (Cons x xs)
  from Cons.prems(1) obtain w1 where w1: "f x w = (None, w1)" "each f xs w1 = (None, w')" by (auto simp: effect_ok)
  have "view w' = fold h xs (view w1)" using w1(2) Cons.prems(2) by (rule Cons.IH) simp_all
  moreover have "view w1 = h x (view w)" using w1(1) by (intro Cons.prems(2)) simp_all
  ultimately show ?case by (simp only: fold_simps)
qed simp

lemma each_keeps:
  assumes "\<And>x w w'. x \<in> set xs \<Longrightarrow> f x w = (None, w') \<Longrightarrow> view w' = view w" and "each f xs w = (None, w')"
  shows "view w' = view w"
proof -
  have "fold (\<lambda>_ c. c) xs (view w) = view w" by (induction xs) auto
  then show ?thesis using each_view [of xs f view "\<lambda>_ c. c", OF _ assms(2)] assms(1) by simp
qed

lemma each_step: "each f xs w = (None, w') \<Longrightarrow> x \<in> set xs \<Longrightarrow> \<exists>u u'. f x u = (None, u')"
  by (induction xs arbitrary: w) (auto simp: effect_ok)

lemma fold_if_filter: "fold (\<lambda>x c. if P x then g c else c) xs c = fold (\<lambda>_. g) (filter P xs) c"
  by (induction xs arbitrary: c) auto

text \<open>Effects that succeed in every state.\<close>

definition runs :: "('e, 'w) effect \<Rightarrow> bool" where
  "runs f \<longleftrightarrow> (\<forall>w. fst (f w) = None)"

named_theorems runs_intro \<open>when a composed effect succeeds in every state\<close>

lemma runsD: "runs f \<Longrightarrow> \<exists>u. f w = (None, u)"
  by (cases "f w") (auto simp: runs_def dest!: spec [of _ w])

lemma runs_and_then [runs_intro]: "runs f \<Longrightarrow> runs g \<Longrightarrow> runs (and_then f g)"
  by (auto simp: runs_def and_then_def split: prod.splits option.splits) (metis fst_conv option.distinct(1))+

lemma runs_skip [runs_intro]: "runs skip"
  by (simp add: runs_def skip_def)

lemma runs_each [runs_intro]: "(\<And>x. x \<in> set xs \<Longrightarrow> runs (f x)) \<Longrightarrow> runs (each f xs)"
proof (induction xs)
  case (Cons x xs)
  then have "runs (and_then (f x) (each f xs))" by (intro runs_and_then) auto
  then show ?case by (simp add: runs_def)
qed (simp add: runs_def)

lemma runs_with_result [runs_intro]:
  assumes "\<And>w. \<exists>x u. f w = (Inr x, u)" and "\<And>x. runs (g x)"
  shows "runs (with_result f g)"
  unfolding runs_def
proof
  fix w
  obtain x u where "f w = (Inr x, u)" using assms(1) by blast
  then show "fst (with_result f g w) = None" using assms(2) by (simp add: with_result_def runs_def)
qed

lemma runs_wrapping [runs_intro]: "runs g \<Longrightarrow> runs (wrapping f g)"
  by (auto simp: runs_def wrapping_def split: prod.splits option.splits) (metis fst_conv option.distinct(1))

lemma runs_if [runs_intro]: "(b \<Longrightarrow> runs f) \<Longrightarrow> (\<not> b \<Longrightarrow> runs g) \<Longrightarrow> runs (if b then f else g)"
  by simp

section \<open>The operating system\<close>

record 'w os =
  Setenv :: "string \<Rightarrow> string \<Rightarrow> (go_error, 'w) effect"
  Succeeds :: "string \<Rightarrow> string list \<Rightarrow> 'w \<Rightarrow> bool \<times> 'w"
  WriteFile :: "string \<Rightarrow> string \<Rightarrow> nat \<Rightarrow> (go_error, 'w) effect"
  Mkdir :: "string \<Rightarrow> nat \<Rightarrow> (go_error, 'w) effect"
  ReadFile :: "string \<Rightarrow> 'w \<Rightarrow> (go_error + string) \<times> 'w"
  IsExist :: "go_error \<Rightarrow> bool"
  IsNotExist :: "go_error \<Rightarrow> bool"

text \<open>
  \<open>Succeeds path args\<close> runs a command and tells whether \<^verbatim>\<open>Run\<close> returned nil; \<open>ReadFile\<close> is a
  file opened with \<^verbatim>\<open>os.OpenInRoot\<close> and read to its end.
\<close>

end
