(* ===== verification/Iptables.thy ===== *)
theory Iptables
  imports Effects Netmap Config Net_Link
begin

text \<open>
  The firewall and address translation rules: \<^verbatim>\<open>pkg/network/iptables.go\<close>,
  \<^verbatim>\<open>pkg/vpn_server/iptables.go\<close>, \<^verbatim>\<open>pkg/vpn_client/iptables.go\<close> and
  \<^verbatim>\<open>cmd/vpn_server/app/firewall.go\<close>.  The library \<^verbatim>\<open>go-iptables\<close>, through which they reach
  the kernel, is a parameter.
\<close>

section \<open>The library\<close>

datatype Protocol = ProtocolIPv4 | ProtocolIPv6

record IPTables =
  ipt_proto :: Protocol
  ipt_path :: string

text \<open>The operations take a table, a chain and the arguments of a rule.\<close>

record 'w iptables =
  NewTables :: "Protocol \<Rightarrow> string \<Rightarrow> 'w \<Rightarrow> (go_error + IPTables) \<times> 'w"
  Append :: "IPTables \<Rightarrow> string \<Rightarrow> string \<Rightarrow> string list \<Rightarrow> (go_error, 'w) effect"
  AppendUnique :: "IPTables \<Rightarrow> string \<Rightarrow> string \<Rightarrow> string list \<Rightarrow> (go_error, 'w) effect"
  DeleteIfExists :: "IPTables \<Rightarrow> string \<Rightarrow> string \<Rightarrow> string list \<Rightarrow> (go_error, 'w) effect"

section \<open>The backend (\<^verbatim>\<open>pkg/network/iptables.go\<close>)\<close>

text \<open>\<^verbatim>\<open>strings.ReplaceAll\<close> for a non-empty text to replace.\<close>

function ReplaceAll :: "string \<Rightarrow> string \<Rightarrow> string \<Rightarrow> string" where
  "ReplaceAll [] from to = []"
| "ReplaceAll (c # s) from to =
     (if from \<noteq> [] \<and> has_prefix (c # s) from
      then to @ ReplaceAll (drop (length from) (c # s)) from to
      else c # ReplaceAll s from to)"
  by pat_completeness auto
termination by (relation "measure (\<lambda>(s, _, _). length s)") auto

definition adjustPath :: "string \<Rightarrow> Protocol \<Rightarrow> string" where
  "adjustPath path proto =
     (if proto = ProtocolIPv6 then ReplaceAll path ''iptables-'' ''ip6tables-'' else path)"

definition iptablesWorks :: "'w os \<Rightarrow> string \<Rightarrow> 'w \<Rightarrow> bool \<times> 'w" where
  "iptablesWorks sys path w =
     (case Succeeds sys path [''-L''] w of
        (False, w1) \<Rightarrow> (False, w1)
      | (True, w1) \<Rightarrow> Succeeds sys (adjustPath path ProtocolIPv6) [''-L''] w1)"

fun try_backends ::
  "'w os \<Rightarrow> 'w iptables \<Rightarrow> Protocol \<Rightarrow> string list \<Rightarrow> 'w \<Rightarrow> (go_error + IPTables) \<times> 'w"
where
  "try_backends sys ipt proto [] w = (Inl (Errorf ''could not find iptables backend'' []), w)"
| "try_backends sys ipt proto (suffix # rest) w =
     (let path = ''/usr/sbin/iptables-'' @ suffix
      in case iptablesWorks sys path w of
           (True, w1) \<Rightarrow> NewTables ipt proto (adjustPath path proto) w1
         | (False, w1) \<Rightarrow> try_backends sys ipt proto rest w1)"

definition NewIPTables :: "'w os \<Rightarrow> 'w iptables \<Rightarrow> Protocol \<Rightarrow> 'w \<Rightarrow> (go_error + IPTables) \<times> 'w" where
  "NewIPTables sys ipt proto w = try_backends sys ipt proto [''legacy'', ''nft''] w"

section \<open>The server (\<^verbatim>\<open>pkg/vpn_server/iptables.go\<close>)\<close>

text \<open>
  \<open>gid\<close> is the group of the Envoy proxy, a constant of another repository.  The entries of a Go
  map are visited in the order \<open>order\<close>.
\<close>

definition output_spec :: "int \<Rightarrow> CIDR \<times> CIDR \<Rightarrow> string list" where
  "output_spec gid m = [''-m'', ''owner'', ''--gid-owner'', int_string gid, ''-d'', CIDR_String (fst m),
     ''-j'', ''NETMAP'', ''--to'', CIDR_String (snd m)]"

definition output_rules :: "'w iptables \<Rightarrow> IPTables \<Rightarrow> int \<Rightarrow> (CIDR \<times> CIDR) list \<Rightarrow> (go_error, 'w) effect" where
  "output_rules ipt t gid mappings = each (\<lambda>m. AppendUnique ipt t ''nat'' ''OUTPUT'' (output_spec gid m)) mappings"

definition server_SetIPTableRules ::
  "'w os \<Rightarrow> 'w iptables \<Rightarrow> mapped_ranges \<Rightarrow> ((srcInfo \<Rightarrow> int) \<Rightarrow> srcInfo list \<Rightarrow> srcInfo list)
   \<Rightarrow> ((string \<times> string) list \<Rightarrow> (string \<times> string) list) \<Rightarrow> ((CIDR \<times> CIDR) list \<Rightarrow> (CIDR \<times> CIDR) list)
   \<Rightarrow> int \<Rightarrow> VPNServer \<Rightarrow> (go_error, 'w) effect"
where
  "server_SetIPTableRules sys ipt rng sorter visit order gid cfg =
     (if \<not> srv_IsHA cfg
      then with_result (NewIPTables sys ipt ProtocolIPv4) (\<lambda>ipTable.
             (case ShootNetworksForNetmap rng sorter visit (srv_ShootPodNetworks cfg)
                     (srv_ShootServiceNetworks cfg) (srv_ShootNodeNetworks cfg) of
                Inl e \<Rightarrow> fail (NetError e)
              | Inr (podMappings, serviceMappings, nodeMappings) \<Rightarrow>
                  and_then (output_rules ipt ipTable gid (order podMappings))
                 (and_then (output_rules ipt ipTable gid (order serviceMappings))
                           (output_rules ipt ipTable gid (order nodeMappings)))))
      else skip)"

section \<open>The client (\<^verbatim>\<open>pkg/vpn_client/iptables.go\<close>)\<close>

definition TunnelDevice :: string where "TunnelDevice = ''tun0''"

definition forwardDevice :: "VPNClient \<Rightarrow> string" where
  "forwardDevice cfg = (if VPNServerIndex cfg \<noteq> '''' then BondDevice @ ''+'' else TunnelDevice)"

definition client_overlap :: "VPNClient \<Rightarrow> bool" where
  "client_overlap cfg = OverLapAny (SeedPodNetwork cfg)
     (ShootPodNetworks cfg @ ShootServiceNetworks cfg @ ShootNodeNetworks cfg)"

definition prerouting_spec :: "string \<Rightarrow> string \<Rightarrow> string \<Rightarrow> string list" where
  "prerouting_spec dev dst to = [''--in-interface'', dev, ''-d'', dst, ''-j'', ''NETMAP'', ''--to'', to]"

definition postrouting_spec :: "string \<Rightarrow> string \<Rightarrow> string \<Rightarrow> string list" where
  "postrouting_spec dev src to = [''--out-interface'', dev, ''-s'', src, ''-j'', ''NETMAP'', ''--to'', to]"

definition shoot_netmap_rules ::
  "'w iptables \<Rightarrow> IPTables \<Rightarrow> string \<Rightarrow> (CIDR \<times> CIDR) list \<Rightarrow> (go_error, 'w) effect"
where
  "shoot_netmap_rules ipt t dev mappings =
     each (\<lambda>(src, dst).
         and_then (AppendUnique ipt t ''nat'' ''PREROUTING'' (prerouting_spec dev (CIDR_String dst) (CIDR_String src)))
                  (AppendUnique ipt t ''nat'' ''POSTROUTING'' (postrouting_spec dev (CIDR_String src) (CIDR_String dst))))
       mappings"

definition client_mappings ::
  "mapped_ranges \<Rightarrow> ((srcInfo \<Rightarrow> int) \<Rightarrow> srcInfo list \<Rightarrow> srcInfo list)
   \<Rightarrow> ((string \<times> string) list \<Rightarrow> (string \<times> string) list) \<Rightarrow> VPNClient \<Rightarrow> net_error + netmappings"
where
  "client_mappings rng sorter visit cfg =
     ShootNetworksForNetmap rng sorter visit (ShootPodNetworks cfg) (ShootServiceNetworks cfg) (ShootNodeNetworks cfg)"

text \<open>The rules of a shoot client for one IP family.\<close>

definition shoot_rules ::
  "'w iptables \<Rightarrow> mapped_ranges \<Rightarrow> ((srcInfo \<Rightarrow> int) \<Rightarrow> srcInfo list \<Rightarrow> srcInfo list)
   \<Rightarrow> ((string \<times> string) list \<Rightarrow> (string \<times> string) list) \<Rightarrow> ((CIDR \<times> CIDR) list \<Rightarrow> (CIDR \<times> CIDR) list)
   \<Rightarrow> VPNClient \<Rightarrow> Protocol \<Rightarrow> IPTables \<Rightarrow> (go_error, 'w) effect"
where
  "shoot_rules ipt rng sorter visit order cfg protocol t =
     (let dev = forwardDevice cfg
      in and_then
          (if protocol = ProtocolIPv4
           then and_then (AppendUnique ipt t ''filter'' ''FORWARD'' [''--in-interface'', dev, ''-j'', ''ACCEPT''])
                 (if \<not> IsHA cfg \<or> IsHA cfg \<and> client_overlap cfg
                  then (case client_mappings rng sorter visit cfg of
                          Inl e \<Rightarrow> fail (NetError e)
                        | Inr (podMappings, serviceMappings, nodeMappings) \<Rightarrow>
                            and_then (shoot_netmap_rules ipt t dev (order podMappings))
                           (and_then (shoot_netmap_rules ipt t dev (order serviceMappings))
                                     (shoot_netmap_rules ipt t dev (order nodeMappings))))
                  else skip)
           else skip)
         (and_then (AppendUnique ipt t ''mangle'' ''POSTROUTING''
                      [''-p'', ''tcp'', ''--tcp-flags'', ''SYN,RST'', ''SYN'', ''-j'', ''TCPMSS'', ''--clamp-mss-to-pmtu''])
                   (AppendUnique ipt t ''nat'' ''POSTROUTING'' [''--out-interface'', ''eth0'', ''-j'', ''MASQUERADE''])))"

text \<open>The rules of a seed client for one IP family.\<close>

definition seed_nat_rules ::
  "'w os \<Rightarrow> 'w iptables \<Rightarrow> mapped_ranges \<Rightarrow> ((srcInfo \<Rightarrow> int) \<Rightarrow> srcInfo list \<Rightarrow> srcInfo list)
   \<Rightarrow> ((string \<times> string) list \<Rightarrow> (string \<times> string) list) \<Rightarrow> ((CIDR \<times> CIDR) list \<Rightarrow> (CIDR \<times> CIDR) list)
   \<Rightarrow> int \<Rightarrow> VPNClient \<Rightarrow> (go_error, 'w) effect"
where
  "seed_nat_rules sys ipt rng sorter visit order gid cfg =
     with_result (NewIPTables sys ipt ProtocolIPv4) (\<lambda>t.
       (let dev = forwardDevice cfg
        in case client_mappings rng sorter visit cfg of
             Inl e \<Rightarrow> fail (NetError e)
           | Inr (podMappings, serviceMappings, nodeMappings) \<Rightarrow>
               and_then (output_rules ipt t gid (order podMappings))
              (and_then (output_rules ipt t gid (order serviceMappings))
              (and_then (output_rules ipt t gid (order nodeMappings))
                (if CIDR_IsIPv4 (SeedPodNetwork cfg)
                 then and_then
                   (AppendUnique ipt t ''nat'' ''PREROUTING''
                      (prerouting_spec dev (SeedPodNetworkMapped rng) (CIDR_String (SeedPodNetwork cfg))))
                   (AppendUnique ipt t ''nat'' ''POSTROUTING''
                      (postrouting_spec dev (CIDR_String (SeedPodNetwork cfg)) (SeedPodNetworkMapped rng)))
                 else skip)))))"

definition seed_rules ::
  "'w os \<Rightarrow> 'w iptables \<Rightarrow> mapped_ranges \<Rightarrow> ((srcInfo \<Rightarrow> int) \<Rightarrow> srcInfo list \<Rightarrow> srcInfo list)
   \<Rightarrow> ((string \<times> string) list \<Rightarrow> (string \<times> string) list) \<Rightarrow> ((CIDR \<times> CIDR) list \<Rightarrow> (CIDR \<times> CIDR) list)
   \<Rightarrow> int \<Rightarrow> VPNClient \<Rightarrow> Protocol \<Rightarrow> IPTables \<Rightarrow> (go_error, 'w) effect"
where
  "seed_rules sys ipt rng sorter visit order gid cfg protocol t =
     (let dev = forwardDevice cfg
      in and_then
          (if protocol = ProtocolIPv4 \<and> client_overlap cfg
           then seed_nat_rules sys ipt rng sorter visit order gid cfg else skip)
         (and_then
          (if protocol = ProtocolIPv6
           then AppendUnique ipt t ''filter'' ''INPUT'' [''-i'', dev, ''-p'', ''icmpv6'', ''-j'', ''ACCEPT'']
           else skip)
         (and_then
          (AppendUnique ipt t ''filter'' ''INPUT''
             [''-m'', ''state'', ''--state'', ''RELATED,ESTABLISHED'', ''-i'', dev, ''-j'', ''ACCEPT''])
          (AppendUnique ipt t ''filter'' ''INPUT'' [''-i'', dev, ''-j'', ''DROP'']))))"

definition client_SetIPTableRules ::
  "'w os \<Rightarrow> 'w iptables \<Rightarrow> mapped_ranges \<Rightarrow> ((srcInfo \<Rightarrow> int) \<Rightarrow> srcInfo list \<Rightarrow> srcInfo list)
   \<Rightarrow> ((string \<times> string) list \<Rightarrow> (string \<times> string) list) \<Rightarrow> ((CIDR \<times> CIDR) list \<Rightarrow> (CIDR \<times> CIDR) list)
   \<Rightarrow> int \<Rightarrow> VPNClient \<Rightarrow> (go_error, 'w) effect"
where
  "client_SetIPTableRules sys ipt rng sorter visit order gid cfg =
     each (\<lambda>family.
         (let protocol = (if family = IPv6Family then ProtocolIPv6 else ProtocolIPv4)
          in with_result (NewIPTables sys ipt protocol) (\<lambda>ipTable.
               if IsShootClient cfg then shoot_rules ipt rng sorter visit order cfg protocol ipTable
               else seed_rules sys ipt rng sorter visit order gid cfg protocol ipTable)))
       (IPFamilies cfg)"

section \<open>The firewall command (\<^verbatim>\<open>cmd/vpn_server/app/firewall.go\<close>)\<close>

text \<open>The two rules of the INPUT chain.\<close>

definition firewall_specs :: "string \<Rightarrow> string list list" where
  "firewall_specs device =
     [[''-m'', ''state'', ''--state'', ''RELATED,ESTABLISHED'', ''-i'', device, ''-j'', ''ACCEPT''],
      [''-i'', device, ''-j'', ''DROP'']]"

text \<open>The choice of the operation by \<^verbatim>\<open>mode\<close>.\<close>

definition firewall_op ::
  "'w iptables \<Rightarrow> string \<Rightarrow> (IPTables \<Rightarrow> string \<Rightarrow> string \<Rightarrow> string list \<Rightarrow> (go_error, 'w) effect) option"
where
  "firewall_op ipt mode =
     (if mode = ''up'' then Some (Append ipt) else if mode = ''down'' then Some (DeleteIfExists ipt) else None)"

definition firewall_nat ::
  "mapped_ranges \<Rightarrow> (string \<Rightarrow> string \<Rightarrow> string list \<Rightarrow> (go_error, 'w) effect) \<Rightarrow> string \<Rightarrow> string
   \<Rightarrow> (go_error, 'w) effect"
where
  "firewall_nat rng op4 device seed_pod_network =
     (if device = TunnelDevice
      then (case ParseIPNet seed_pod_network of
              Inl _ \<Rightarrow> skip
            | Inr cidr \<Rightarrow>
                if CIDR_IsIPv4 cidr
                then and_then
                  (op4 ''nat'' ''PREROUTING'' (prerouting_spec device (SeedPodNetworkMapped rng) seed_pod_network))
                  (op4 ''nat'' ''POSTROUTING'' (postrouting_spec device seed_pod_network (SeedPodNetworkMapped rng)))
                else skip)
      else skip)"

definition firewall_routes :: "'w netlink \<Rightarrow> string \<Rightarrow> string list \<Rightarrow> (go_error, 'w) effect" where
  "firewall_routes nl device networks =
     with_result (\<lambda>w. case LinkByName nl device w of (Inl e, w1) \<Rightarrow> (Inl (as_error e), w1) | (Inr l, w1) \<Rightarrow> (Inr l, w1))
       (\<lambda>dev. each (\<lambda>nw. (case parse_cidr nw of
                None \<Rightarrow> fail (Errorf ''parsing network %s failed: %s'' [nw, ''invalid CIDR address''])
              | Some (_, ipnet) \<Rightarrow> ReplaceRoute nl ipnet dev)) networks)"

definition runFirewallCommand ::
  "'w os \<Rightarrow> 'w iptables \<Rightarrow> 'w netlink \<Rightarrow> mapped_ranges \<Rightarrow> string \<Rightarrow> string \<Rightarrow> string list \<Rightarrow> string
   \<Rightarrow> (go_error, 'w) effect"
where
  "runFirewallCommand sys ipt nl rng device mode networks seed_pod_network =
     and_then (wrapping (Wrapf ''setting PATH environment variable failed: %w'' []) (Setenv sys ''PATH'' ''/sbin''))
    (with_result (NewIPTables sys ipt ProtocolIPv4) (\<lambda>iptable4.
     with_result (NewIPTables sys ipt ProtocolIPv6) (\<lambda>iptable6.
       (case firewall_op ipt mode of
          None \<Rightarrow> fail (Errorf ''mode flag must be down or up'' [])
        | Some op \<Rightarrow>
            and_then (each (\<lambda>spec. and_then (op iptable4 ''filter'' ''INPUT'' spec)
                                             (op iptable6 ''filter'' ''INPUT'' spec)) (firewall_specs device))
           (and_then (firewall_nat rng (op iptable4) device seed_pod_network)
                     (if mode = ''up'' then firewall_routes nl device networks else skip))))))"

end
