(* ===== verification/Iptables_Laws.thy ===== *)
theory Iptables_Laws
  imports Iptables
begin

text \<open>
  What \<^verbatim>\<open>iptables\<close> promises the calls that succeed: a contract over the chains of rules, and a
  model that keeps it; and what the NETMAP rules of a chain do to an address.
\<close>

section \<open>The contract\<close>

type_synonym chains = "Protocol \<times> string \<times> string \<Rightarrow> string list list"

definition add_unique :: "'a \<Rightarrow> 'a list \<Rightarrow> 'a list" where
  "add_unique x xs = (if x \<in> set xs then xs else xs @ [x])"

locale iptables_laws =
  fixes sys :: "'w os" and ipt :: "'w iptables" and chains :: "'w \<Rightarrow> chains"
  assumes probe: "Succeeds sys path args w = (r, w') \<Longrightarrow> chains w' = chains w"
    and setenv: "Setenv sys k v w = (r2, w') \<Longrightarrow> chains w' = chains w"
    and new: "NewTables ipt p path w = (r3, w') \<Longrightarrow> chains w' = chains w"
    and new_proto: "NewTables ipt p path w = (Inr t, w') \<Longrightarrow> ipt_proto t = p"
    and append: "Append ipt t tab ch spec w = (None, w') \<Longrightarrow>
      chains w' = (chains w)((ipt_proto t, tab, ch) := chains w (ipt_proto t, tab, ch) @ [spec])"
    and append_unique: "AppendUnique ipt t tab ch spec w = (None, w') \<Longrightarrow>
      chains w' = (chains w)((ipt_proto t, tab, ch) := add_unique spec (chains w (ipt_proto t, tab, ch)))"
    and delete: "DeleteIfExists ipt t tab ch spec w = (None, w') \<Longrightarrow>
      chains w' = (chains w)((ipt_proto t, tab, ch) := remove1 spec (chains w (ipt_proto t, tab, ch)))"
begin

lemma iptablesWorks_keeps: "iptablesWorks sys path w = (r, w') \<Longrightarrow> chains w' = chains w"
  by (cases "Succeeds sys path [''-L''] w") (auto simp: iptablesWorks_def split: bool.splits dest!: probe)

text \<open>
  The path is that of the IPv6 binary for IPv6, and the handle is for the protocol asked for.
\<close>

lemma try_backends_ok:
  "try_backends sys ipt' p sfxs w = (Inr t, w') \<Longrightarrow> ipt' = ipt \<Longrightarrow> ipt_proto t = p \<and> chains w' = chains w"
proof (induction sfxs arbitrary: w)
  case (Cons s ss)
  obtain b w1 where b: "iptablesWorks sys (''/usr/sbin/iptables-'' @ s) w = (b, w1)" by fastforce
  show ?case
  proof (cases b)
    case True
    with b Cons.prems have "NewTables ipt p (adjustPath (''/usr/sbin/iptables-'' @ s) p) w1 = (Inr t, w')"
      by simp
    then show ?thesis using new new_proto iptablesWorks_keeps [OF b] by simp
  next
    case False
    with b Cons.prems have "try_backends sys ipt' p ss w1 = (Inr t, w')" by simp
    then show ?thesis using Cons.IH Cons.prems(2) iptablesWorks_keeps [OF b] by metis
  qed
qed simp

lemma NewIPTables_ok:
  "NewIPTables sys ipt p w = (Inr t, w') \<Longrightarrow> ipt_proto t = p \<and> chains w' = chains w"
  unfolding NewIPTables_def using try_backends_ok by blast

lemma append_unique_at:
  "AppendUnique ipt t tab ch spec w = (None, w') \<Longrightarrow>
    chains w' c = (if c = (ipt_proto t, tab, ch) then add_unique spec (chains w c) else chains w c)"
  by (simp add: append_unique)

lemma output_rules_ok:
  assumes "output_rules ipt t gid ms w = (None, w')"
  shows "chains w' c = (if c = (ipt_proto t, ''nat'', ''OUTPUT'')
           then fold add_unique (map (output_spec gid) ms) (chains w c) else chains w c)"
proof -
  let ?c = "(ipt_proto t, ''nat'', ''OUTPUT'')"
  have "chains w' c = fold (\<lambda>m x. if c = ?c then add_unique (output_spec gid m) x else x) ms (chains w c)"
    using assms unfolding output_rules_def by (rule each_view [rotated]) (rule append_unique_at)
  moreover have "fold (\<lambda>m x. if c = ?c then add_unique (output_spec gid m) x else x) ms y =
      (if c = ?c then fold add_unique (map (output_spec gid) ms) y else y)" for y
    by (induction ms arbitrary: y) auto
  ultimately show ?thesis by simp
qed

lemma shoot_netmap_rules_ok:
  assumes "shoot_netmap_rules ipt t dev ms w = (None, w')"
  shows "chains w' c =
    (if c = (ipt_proto t, ''nat'', ''PREROUTING'')
     then fold add_unique (map (\<lambda>m. prerouting_spec dev (CIDR_String (snd m)) (CIDR_String (fst m))) ms) (chains w c)
     else if c = (ipt_proto t, ''nat'', ''POSTROUTING'')
     then fold add_unique (map (\<lambda>m. postrouting_spec dev (CIDR_String (fst m)) (CIDR_String (snd m))) ms) (chains w c)
     else chains w c)"
proof -
  let ?pre = "(ipt_proto t, ''nat'', ''PREROUTING'')" and ?post = "(ipt_proto t, ''nat'', ''POSTROUTING'')"
  let ?h = "\<lambda>m x. if c = ?pre then add_unique (prerouting_spec dev (CIDR_String (snd m)) (CIDR_String (fst m))) x
     else if c = ?post then add_unique (postrouting_spec dev (CIDR_String (fst m)) (CIDR_String (snd m))) x else x"
  have "chains w' c = fold ?h ms (chains w c)"
    using assms unfolding shoot_netmap_rules_def
    by (rule each_view [rotated]) (auto simp: effect_ok append_unique_at)
  moreover have "fold ?h ms y =
      (if c = ?pre then fold add_unique (map (\<lambda>m. prerouting_spec dev (CIDR_String (snd m)) (CIDR_String (fst m))) ms) y
       else if c = ?post then fold add_unique (map (\<lambda>m. postrouting_spec dev (CIDR_String (fst m)) (CIDR_String (snd m))) ms) y
       else y)" for y
    by (induction ms arbitrary: y) auto
  ultimately show ?thesis by simp
qed

end

section \<open>A model\<close>

text \<open>A host is its chains; every call succeeds.\<close>

definition tables_os :: "chains os" where
  "tables_os = \<lparr>Setenv = (\<lambda>_ _ w. (None, w)), Succeeds = (\<lambda>_ _ w. (True, w)), WriteFile = (\<lambda>_ _ _ w. (None, w)),
     Mkdir = (\<lambda>_ _ w. (None, w)), ReadFile = (\<lambda>_ w. (Inl (Foreign ''no such file''), w)),
     IsExist = (\<lambda>_. False), IsNotExist = (\<lambda>_. True)\<rparr>"

definition tables_ipt :: "chains iptables" where
  "tables_ipt = \<lparr>NewTables = (\<lambda>p path w. (Inr \<lparr>ipt_proto = p, ipt_path = path\<rparr>, w)),
     Append = (\<lambda>t tab ch spec w. (None, w((ipt_proto t, tab, ch) := w (ipt_proto t, tab, ch) @ [spec]))),
     AppendUnique = (\<lambda>t tab ch spec w. (None, w((ipt_proto t, tab, ch) := add_unique spec (w (ipt_proto t, tab, ch))))),
     DeleteIfExists = (\<lambda>t tab ch spec w. (None, w((ipt_proto t, tab, ch) := remove1 spec (w (ipt_proto t, tab, ch)))))\<rparr>"

interpretation tables: iptables_laws tables_os tables_ipt "\<lambda>w. w"
  by unfold_locales (auto simp: tables_os_def tables_ipt_def)

lemma tables_run [runs_intro]:
  "runs (Append tables_ipt t tab ch spec)" "runs (AppendUnique tables_ipt t tab ch spec)"
  "runs (DeleteIfExists tables_ipt t tab ch spec)"
  by (simp_all add: runs_def tables_ipt_def)

lemma tables_new [runs_intro]: "\<exists>t u. NewIPTables tables_os tables_ipt p w = (Inr t, u)"
  by (simp add: NewIPTables_def iptablesWorks_def tables_os_def tables_ipt_def)

section \<open>The IP families of a client\<close>

lemma distinct_single: "distinct xs \<Longrightarrow> set xs = {a} \<Longrightarrow> xs = [a]"
  by (cases xs; cases "tl xs") auto

definition families_ok :: "string list \<Rightarrow> bool" where
  "families_ok fams \<longleftrightarrow> distinct fams \<and> set fams \<subseteq> {IPv4Family, IPv6Family} \<and> fams \<noteq> []"

lemma GetVPNClientConfig_families: "GetVPNClientConfig d parsed = Inr cfg \<Longrightarrow> families_ok (IPFamilies cfg)"
  by (auto simp: GetVPNClientConfig_def result_simps Let_def families_ok_def split: option.splits if_splits
      dest!: remdups_adj_families)

text \<open>One step per IP family, of which a single one changes the view.\<close>

lemma families_view:
  assumes each: "each step fams w = (None, w')" and fams: "families_ok fams" "fam \<in> set fams"
    and own: "\<And>u u'. step fam u = (None, u') \<Longrightarrow> view u' = add (view u)"
    and other: "\<And>f u u'. f \<in> set fams \<Longrightarrow> f \<noteq> fam \<Longrightarrow> step f u = (None, u') \<Longrightarrow> view u' = view u"
  shows "view w' = add (view w)"
proof -
  have "view w' = fold (\<lambda>f c. if f = fam then add c else c) fams (view w)"
    by (rule each_view [OF _ each]) (use own other in auto)
  moreover have "filter (\<lambda>f. f = fam) fams = [fam]"
    by (rule distinct_single) (use fams in \<open>auto simp: families_ok_def\<close>)
  ultimately show ?thesis by (simp add: fold_if_filter)
qed

lemma families_other:
  "families_ok fams \<Longrightarrow> f \<in> set fams \<Longrightarrow> f \<noteq> IPv4Family \<Longrightarrow> f = IPv6Family"
  "families_ok fams \<Longrightarrow> f \<in> set fams \<Longrightarrow> f \<noteq> IPv6Family \<Longrightarrow> f = IPv4Family"
  by (auto simp: families_ok_def)

section \<open>What NETMAP rules do\<close>

text \<open>
  The value of an option in the arguments of a rule, which are pairs of an option and its value, and the network and the target of a NETMAP
  rule.  The other criteria of the rules (the device, the group of the sender) are taken as met.
\<close>

fun option_value :: "string \<Rightarrow> string list \<Rightarrow> string option" where
  "option_value opt (a # b # rest) = (if a = opt then Some b else option_value opt rest)"
| "option_value opt _ = None"

definition netmap_rule :: "string \<Rightarrow> string list \<Rightarrow> (ipnet \<times> ipnet) option" where
  "netmap_rule opt spec =
     (case (option_value opt spec, option_value ''--to'' spec) of
        (Some s, Some t) \<Rightarrow>
          (case (ParseIPNet s, ParseIPNet t) of
             (Inr n, Inr m) \<Rightarrow> if option_value ''-j'' spec = Some ''NETMAP'' then Some (n, m) else None
           | _ \<Rightarrow> None)
      | _ \<Rightarrow> None)"

text \<open>
  The first rule whose network contains the address maps it: its network bits become those of the
  target, which is what \<^const>\<open>netmapIP\<close> computes.
\<close>

fun translate :: "string \<Rightarrow> string list list \<Rightarrow> ip \<Rightarrow> ip" where
  "translate opt [] a = a"
| "translate opt (spec # rest) a =
     (case netmap_rule opt spec of
        Some (n, m) \<Rightarrow>
          if net_contains n a then (case netmapIP a m of Inr b \<Rightarrow> b | Inl _ \<Rightarrow> a) else translate opt rest a
      | None \<Rightarrow> translate opt rest a)"

text \<open>Adding a rule that the chain has already changes nothing.\<close>

lemma translate_append_dup: "spec \<in> set chain \<Longrightarrow> translate opt (chain @ [spec] @ rest) a = translate opt (chain @ rest) a"
proof (induction chain)
  case (Cons s chain)
  show ?case
  proof (cases "spec \<in> set chain")
    case True
    then show ?thesis using Cons by (auto split: option.splits prod.splits)
  next
    case False
    with Cons.prems have s: "s = spec" by simp
    show ?thesis
    proof (cases "netmap_rule opt spec")
      case None
      have "translate opt (chain @ [spec] @ rest) a = translate opt (chain @ rest) a" for chain
        by (induction chain) (use None in \<open>auto split: option.splits prod.splits\<close>)
      with s None show ?thesis by simp
    next
      case (Some nm)
      obtain n m where nm: "netmap_rule opt spec = Some (n, m)" using Some by (cases nm) simp
      have "\<not> net_contains n a \<Longrightarrow> translate opt (chain @ [spec] @ rest) a = translate opt (chain @ rest) a" for chain
        by (induction chain) (use nm in \<open>auto split: option.splits prod.splits\<close>)
      with s nm show ?thesis by simp
    qed
  qed
qed simp

lemma translate_add_unique:
  "translate opt (fold add_unique specs chain) a = translate opt (chain @ specs) a"
proof (induction specs arbitrary: chain)
  case (Cons s specs)
  then show ?case using translate_append_dup [of s chain opt specs a] by (simp add: add_unique_def)
qed simp

end
