(* ===== verification/Double_NAT.thy ===== *)
theory Double_NAT
  imports Iptables_Laws Netmap_NAT
begin

text \<open>
  The double translation of addresses end to end: what the NETMAP rules of one side do to an address
  of the shoot, the rules of the other side undo.
\<close>

section \<open>Mappings\<close>

lemma map_r_set: "map_r f es = Inr ys \<Longrightarrow> set ys = {y. \<exists>e \<in> set es. f e = Inr y}"
proof (induction es arbitrary: ys)
  case (Cons e es)
  then obtain y zs where "f e = Inr y" "map_r f es = Inr zs" "ys = y # zs" by (auto simp: result_simps)
  with Cons.IH show ?case by auto
qed simp

text \<open>The order in which a map is visited changes only the order of the result.\<close>

lemma NetmapCIDRs_visit:
  assumes "go_range visit" and "go_range visit'"
    and "NetmapCIDRs sorter visit srcs D = Inr ms" and "NetmapCIDRs sorter visit' srcs D = Inr ms'"
  shows "set ms' = set ms"
proof -
  obtain m where "NetmapSubnets sorter (map CIDR_String srcs) (CIDR_String D) = Inr m"
    "map_r parse_mapping (visit m) = Inr ms" "map_r parse_mapping (visit' m) = Inr ms'"
    using assms(3,4) by (auto simp: NetmapCIDRs_def Let_def split: sum.splits)
  then show ?thesis
    using go_range.visit_set [OF assms(1), of m] go_range.visit_set [OF assms(2), of m] by (simp add: map_r_set)
qed

definition all_mappings :: "netmappings \<Rightarrow> (CIDR \<times> CIDR) set" where
  "all_mappings ms = (case ms of (mp, mserv, mn) \<Rightarrow> set mp \<union> set mserv \<union> set mn)"

lemma ShootNetworks_visit:
  assumes "go_range visit" and "go_range visit'"
    and "ShootNetworksForNetmap rng sorter visit pods services nodes = Inr ms"
    and "ShootNetworksForNetmap rng sorter visit' pods services nodes = Inr ms'"
  shows "all_mappings ms' = all_mappings ms"
proof -
  obtain mp mserv mn mp' mserv' mn' where ms: "ms = (mp, mserv, mn)" "ms' = (mp', mserv', mn')"
    by (cases ms; cases ms')
  note parts = ShootNetworksForNetmap_parts [OF assms(3) [unfolded ms(1)]]
    ShootNetworksForNetmap_parts [OF assms(4) [unfolded ms(2)]]
  show ?thesis
    using NetmapCIDRs_visit [OF assms(1,2) parts(1,4)] NetmapCIDRs_visit [OF assms(1,2) parts(2,5)]
      NetmapCIDRs_visit [OF assms(1,2) parts(3,6)]
    by (simp add: all_mappings_def ms)
qed

text \<open>Which networks a list of networks of the shoot may be.\<close>

locale shoot_networks =
  fixes rng :: mapped_ranges and pods services nodes :: "CIDR list"
    and sorter :: "(srcInfo \<Rightarrow> int) \<Rightarrow> srcInfo list \<Rightarrow> srcInfo list"
  assumes sorter: "go_sort sorter" and ranges: "ranges_ok rng"
    and config: "\<forall>n \<in> set (pods @ services @ nodes). config_net n"
begin

lemma mapping_parts:
  assumes "go_range visit" and "ShootNetworksForNetmap rng sorter visit pods services nodes = Inr (mp, mserv, mn)"
  shows "good_mapping (filter CIDR_IsIPv4 pods) (ParseIPNetIgnoreError (ShootPodNetworkMapped rng)) mp"
    and "good_mapping (filter CIDR_IsIPv4 services) (ParseIPNetIgnoreError (ShootServiceNetworkMapped rng)) mserv"
    and "good_mapping (filter CIDR_IsIPv4 nodes) (ParseIPNetIgnoreError (ShootNodeNetworkMapped rng)) mn"
  using ranges config ShootNetworksForNetmap_parts [OF assms(2)]
  by (auto simp: ranges_ok_def intro!: NetmapCIDRs_range [OF sorter assms(1)])

lemma ranges_apart:
  "prefix_net (ParseIPNetIgnoreError (ShootPodNetworkMapped rng))"
  "prefix_net (ParseIPNetIgnoreError (ShootServiceNetworkMapped rng))"
  "prefix_net (ParseIPNetIgnoreError (ShootNodeNetworkMapped rng))"
  "\<not> Overlap (ParseIPNetIgnoreError (ShootPodNetworkMapped rng)) (ParseIPNetIgnoreError (ShootServiceNetworkMapped rng))"
  "\<not> Overlap (ParseIPNetIgnoreError (ShootPodNetworkMapped rng)) (ParseIPNetIgnoreError (ShootNodeNetworkMapped rng))"
  "\<not> Overlap (ParseIPNetIgnoreError (ShootServiceNetworkMapped rng)) (ParseIPNetIgnoreError (ShootNodeNetworkMapped rng))"
  using ranges by (auto simp: ranges_ok_def range_ok_prefix_net)

text \<open>An address lies in the networks mapped for one source only.\<close>

lemma mapped_source_unique:
  assumes "go_range visit" and ms: "ShootNetworksForNetmap rng sorter visit pods services nodes = Inr ms"
    and "(s, t) \<in> all_mappings ms" and "(s', t') \<in> all_mappings ms"
    and "net_contains t y" and "net_contains t' y"
  shows "s = s'"
proof (rule ccontr)
  assume ne: "s \<noteq> s'"
  obtain mp mserv mn where m: "ms = (mp, mserv, mn)" by (cases ms)
  note good = mapping_parts [OF assms(1) ms [unfolded m]]
  have within: "\<not> Overlap t t'" if "good_mapping srcs D l" "(s, t) \<in> set l" "(s', t') \<in> set l" for srcs D l
    using that ne by (auto simp: good_mapping_def)
  have "\<not> Overlap t t'"
    using assms(3,4) good within ranges_apart
      good_mapping_apart [OF good(1,2), of s t s' t'] good_mapping_apart [OF good(1,3), of s t s' t']
      good_mapping_apart [OF good(2,3), of s t s' t'] good_mapping_apart [OF good(1,2), of s' t' s t]
      good_mapping_apart [OF good(1,3), of s' t' s t] good_mapping_apart [OF good(2,3), of s' t' s t]
    by (auto simp: all_mappings_def m Overlap_sym [of t' t])
  moreover have "prefix_net t" "prefix_net t'"
    using assms(3,4) good by (auto simp: all_mappings_def m good_mapping_def)
  ultimately show False using assms(5,6) by (auto simp: Overlap_shared)
qed

text \<open>Every entry is a pair of IPv4 networks with the same mask, the source one of the shoot's networks.\<close>

lemma mapping_from:
  assumes "go_range visit" and ms: "ShootNetworksForNetmap rng sorter visit pods services nodes = Inr ms"
    and "(s, t) \<in> all_mappings ms"
  obtains srcs r l where "set srcs \<subseteq> set (pods @ services @ nodes)"
    and "r \<in> {ShootPodNetworkMapped rng, ShootServiceNetworkMapped rng, ShootNodeNetworkMapped rng}"
    and "NetmapCIDRs sorter visit (GetByIPFamily srcs IPv4Family) (ParseIPNetIgnoreError r) = Inr l"
    and "good_mapping (filter CIDR_IsIPv4 srcs) (ParseIPNetIgnoreError r) l" and "(s, t) \<in> set l"
proof -
  obtain mp mserv mn where m: "ms = (mp, mserv, mn)" by (cases ms)
  note good = mapping_parts [OF assms(1) ms [unfolded m]] and parts = ShootNetworksForNetmap_parts [OF ms [unfolded m]]
  from assms(3) consider "(s, t) \<in> set mp" | "(s, t) \<in> set mserv" | "(s, t) \<in> set mn"
    by (auto simp: all_mappings_def m)
  then show thesis
  proof cases
    case 1
    have "set pods \<subseteq> set (pods @ services @ nodes)" by auto
    with 1 show ?thesis using that [of pods "ShootPodNetworkMapped rng" mp] parts(1) good(1) by blast
  next
    case 2
    have "set services \<subseteq> set (pods @ services @ nodes)" by auto
    with 2 show ?thesis using that [of services "ShootServiceNetworkMapped rng" mserv] parts(2) good(2) by blast
  next
    case 3
    have "set nodes \<subseteq> set (pods @ services @ nodes)" by auto
    with 3 show ?thesis using that [of nodes "ShootNodeNetworkMapped rng" mn] parts(3) good(3) by blast
  qed
qed

lemma mapping_entry:
  assumes "go_range visit" and ms: "ShootNetworksForNetmap rng sorter visit pods services nodes = Inr ms"
    and "(s, t) \<in> all_mappings ms"
  shows "v4net s" and "v4net t" and "net_mask t = net_mask s"
    and "net_contains t y \<Longrightarrow> \<exists>r \<in> {ShootPodNetworkMapped rng, ShootServiceNetworkMapped rng, ShootNodeNetworkMapped rng}.
          net_contains (ParseIPNetIgnoreError r) y"
proof -
  from assms obtain srcs r l where srcs: "set srcs \<subseteq> set (pods @ services @ nodes)"
    and r: "r \<in> {ShootPodNetworkMapped rng, ShootServiceNetworkMapped rng, ShootNodeNetworkMapped rng}"
    and run: "NetmapCIDRs sorter visit (GetByIPFamily srcs IPv4Family) (ParseIPNetIgnoreError r) = Inr l"
    and good: "good_mapping (filter CIDR_IsIPv4 srcs) (ParseIPNetIgnoreError r) l" and st: "(s, t) \<in> set l"
    by (rule mapping_from)
  have "s \<in> set (map fst l)" using st by force
  then have "s \<in> set (pods @ services @ nodes)" "CIDR_IsIPv4 s"
    using good srcs by (auto simp: good_mapping_def)
  then show s: "v4net s" using config config_net_v4 by blast
  have props: "net_mask t = net_mask s \<and> (\<forall>x. net_contains t x \<longrightarrow> net_contains (ParseIPNetIgnoreError r) x)"
    using good st by (auto simp: good_mapping_def)
  then show mask: "net_mask t = net_mask s" by blast
  show "net_contains t y \<Longrightarrow> \<exists>r \<in> {ShootPodNetworkMapped rng, ShootServiceNetworkMapped rng, ShootNodeNetworkMapped rng}.
          net_contains (ParseIPNetIgnoreError r) y"
    using props r by blast
  have "\<exists>es. map_r parse_mapping es = Inr l"
    using run by (fastforce simp: NetmapCIDRs_def Let_def split: sum.splits)
  then obtain es where "map_r parse_mapping es = Inr l" by blast
  then obtain k where "ParseIPNet k = Inr t" using st by (metis map_r_mapping_entry)
  moreover have "snd (mask_size (net_mask t)) = 32"
    using v4net_mask_size [OF s] mask by simp
  ultimately show "v4net t" by (metis prod.collapse v4netI)
qed

lemma mapping_covers:
  assumes "go_range visit" and ms: "ShootNetworksForNetmap rng sorter visit pods services nodes = Inr ms"
    and "n \<in> set (pods @ services @ nodes)" and "CIDR_IsIPv4 n"
  obtains t where "(n, t) \<in> all_mappings ms"
proof -
  obtain mp mserv mn where m: "ms = (mp, mserv, mn)" by (cases ms)
  have "n \<in> set (map fst mp) \<union> set (map fst mserv) \<union> set (map fst mn)"
    using assms(3,4) mapping_parts [OF assms(1) ms [unfolded m]] by (auto simp: good_mapping_def)
  then have "\<exists>t. (n, t) \<in> all_mappings ms" by (auto simp: all_mappings_def m)
  then show thesis using that by blast
qed

end

section \<open>Chains of NETMAP rules\<close>

lemma output_rule:
  "v4net (fst m) \<Longrightarrow> v4net (snd m) \<Longrightarrow> netmap_rule ''-d'' (output_spec gid m) = Some m"
  by (cases m) (simp add: netmap_rule_def output_spec_def v4net_parse)

lemma prerouting_rule:
  "v4net (fst m) \<Longrightarrow> v4net (snd m) \<Longrightarrow>
    netmap_rule ''-d'' (prerouting_spec dev (CIDR_String (snd m)) (CIDR_String (fst m))) = Some (snd m, fst m)"
  by (simp add: netmap_rule_def prerouting_spec_def v4net_parse)

lemma translate_rules:
  assumes "\<forall>m \<in> set ms. netmap_rule opt (spec m) = Some (f m, g m)"
  shows "translate opt (map spec ms) a =
    (case find (\<lambda>m. net_contains (f m) a) ms of
       None \<Rightarrow> a | Some m \<Rightarrow> (case netmapIP a (g m) of Inr b \<Rightarrow> b | Inl _ \<Rightarrow> a))"
  using assms by (induction ms) auto

lemma find_ex: "\<exists>x \<in> set xs. P x \<Longrightarrow> \<exists>x. find P xs = Some x \<and> x \<in> set xs \<and> P x"
  by (induction xs) auto

context shoot_networks
begin

text \<open>
  The heart of the matter: the chain built from the mappings of one side, then the chain built from
  those of the other side in any other order.
\<close>

lemma there_and_back:
  assumes "go_range visit" and "go_range visit'"
    and ms: "ShootNetworksForNetmap rng sorter visit pods services nodes = Inr ms"
    and ms': "ShootNetworksForNetmap rng sorter visit' pods services nodes = Inr ms'"
    and l: "set l = all_mappings ms" and l': "set l' = all_mappings ms'"
    and n: "n \<in> set (pods @ services @ nodes)" "CIDR_IsIPv4 n" and a: "length a = 4" "net_contains n a"
  shows "\<exists>b. translate ''-d'' (map (output_spec gid) l) a = b \<and>
    (\<exists>r \<in> {ShootPodNetworkMapped rng, ShootServiceNetworkMapped rng, ShootNodeNetworkMapped rng}.
       net_contains (ParseIPNetIgnoreError r) b) \<and>
    translate ''-d'' (map (\<lambda>m. prerouting_spec dev (CIDR_String (snd m)) (CIDR_String (fst m))) l') b = a"
proof -
  have same: "all_mappings ms' = all_mappings ms"
    using ShootNetworks_visit [OF assms(1,2) ms ms'] .
  have v4: "v4net (fst m) \<and> v4net (snd m) \<and> net_mask (snd m) = net_mask (fst m)" if "m \<in> all_mappings ms" for m
    using mapping_entry [OF assms(1) ms, of "fst m" "snd m"] that by simp
  obtain t where "(n, t) \<in> set l" using mapping_covers [OF assms(1) ms n] l by auto
  then obtain m where m: "find (\<lambda>m. net_contains (fst m) a) l = Some m" "m \<in> set l" "net_contains (fst m) a"
    using find_ex [of l "\<lambda>m. net_contains (fst m) a"] a by force
  obtain s t where st: "m = (s, t)" by (cases m)
  have s: "v4net s" and t: "v4net t" and mask: "net_mask t = net_mask s"
    using v4 m(2) l st by auto
  from netmapIP_roundtrip_bytes [OF s t _ to4_4 [OF a(1)]] m(3) st mask submask_refl [of "net_mask s"]
  obtain b where b: "netmapIP a t = Inr b" "net_contains t b" "netmapIP b s = Inr a" by auto
  have out: "translate ''-d'' (map (output_spec gid) l) a = b"
    using translate_rules [of l "''-d''" "output_spec gid" fst snd a] v4 l m(1) st b(1) by (simp add: output_rule)
  have "\<exists>m' \<in> set l'. net_contains (snd m') b"
    using m(2) l l' same st b(2) by force
  then obtain m' where m': "find (\<lambda>m. net_contains (snd m) b) l' = Some m'" "m' \<in> set l'" "net_contains (snd m') b"
    using find_ex [of l' "\<lambda>m. net_contains (snd m) b"] by blast
  have "fst m' = s"
    using mapped_source_unique [OF assms(1) ms, of "fst m'" "snd m'" s t b] m'(2,3) m(2) l l' same st b(2) by simp
  then have "translate ''-d'' (map (\<lambda>m. prerouting_spec dev (CIDR_String (snd m)) (CIDR_String (fst m))) l') b = a"
    using translate_rules [of l' "''-d''" "\<lambda>m. prerouting_spec dev (CIDR_String (snd m)) (CIDR_String (fst m))" snd fst b]
      v4 l' same m'(1) b(3) by (simp add: prerouting_rule)
  moreover have "\<exists>r \<in> {ShootPodNetworkMapped rng, ShootServiceNetworkMapped rng, ShootNodeNetworkMapped rng}.
      net_contains (ParseIPNetIgnoreError r) b"
    using mapping_entry(4) [OF assms(1) ms, of s t b] m(2) l st b(2) by simp
  ultimately show ?thesis using out by blast
qed

end

section \<open>The chains of the two sides\<close>

context iptables_laws
begin

lemma server_chain:
  assumes "server_SetIPTableRules sys ipt rng sorter visit order gid cfg w = (None, w')" and "\<not> srv_IsHA cfg"
  obtains mp mserv mn where "ShootNetworksForNetmap rng sorter visit (srv_ShootPodNetworks cfg)
        (srv_ShootServiceNetworks cfg) (srv_ShootNodeNetworks cfg) = Inr (mp, mserv, mn)"
    and "chains w' (ProtocolIPv4, ''nat'', ''OUTPUT'') =
      fold add_unique (map (output_spec gid) (order mp @ order mserv @ order mn)) (chains w (ProtocolIPv4, ''nat'', ''OUTPUT''))"
proof -
  let ?res = "ShootNetworksForNetmap rng sorter visit (srv_ShootPodNetworks cfg) (srv_ShootServiceNetworks cfg)
    (srv_ShootNodeNetworks cfg)"
  obtain mp mserv mn where ms: "?res = Inr (mp, mserv, mn)"
    using assms by (cases ?res) (auto simp: server_SetIPTableRules_def effect_ok)
  then obtain t w1 w2 w3 where new: "NewIPTables sys ipt ProtocolIPv4 w = (Inr t, w1)"
    and run: "output_rules ipt t gid (order mp) w1 = (None, w2)" "output_rules ipt t gid (order mserv) w2 = (None, w3)"
      "output_rules ipt t gid (order mn) w3 = (None, w')"
    using assms by (auto simp: server_SetIPTableRules_def effect_ok)
  show thesis
    using that [OF ms] NewIPTables_ok [OF new] output_rules_ok [OF run(1)] output_rules_ok [OF run(2)] output_rules_ok [OF run(3)]
    by simp
qed

lemma shoot_chain:
  assumes "shoot_rules ipt rng sorter visit order cfg p t w = (None, w')" and "ipt_proto t = p"
    and "p = ProtocolIPv4" and "\<not> IsHA cfg \<or> client_overlap cfg"
  obtains mp mserv mn where "client_mappings rng sorter visit cfg = Inr (mp, mserv, mn)"
    and "chains w' (ProtocolIPv4, ''nat'', ''PREROUTING'') =
      fold add_unique (map (\<lambda>m. prerouting_spec (forwardDevice cfg) (CIDR_String (snd m)) (CIDR_String (fst m)))
        (order mp @ order mserv @ order mn)) (chains w (ProtocolIPv4, ''nat'', ''PREROUTING''))"
proof -
  let ?d = "forwardDevice cfg"
  from assms obtain w1 mp mserv mn w2 w3 w4 w5 where
    a: "AppendUnique ipt t ''filter'' ''FORWARD'' [''--in-interface'', ?d, ''-j'', ''ACCEPT''] w = (None, w1)"
    and ms: "client_mappings rng sorter visit cfg = Inr (mp, mserv, mn)"
    and run: "shoot_netmap_rules ipt t ?d (order mp) w1 = (None, w2)" "shoot_netmap_rules ipt t ?d (order mserv) w2 = (None, w3)"
      "shoot_netmap_rules ipt t ?d (order mn) w3 = (None, w4)"
    and b: "AppendUnique ipt t ''mangle'' ''POSTROUTING''
        [''-p'', ''tcp'', ''--tcp-flags'', ''SYN,RST'', ''SYN'', ''-j'', ''TCPMSS'', ''--clamp-mss-to-pmtu''] w4 = (None, w5)"
      "AppendUnique ipt t ''nat'' ''POSTROUTING'' [''--out-interface'', ''eth0'', ''-j'', ''MASQUERADE''] w5 = (None, w')"
    by (auto simp: shoot_rules_def Let_def effect_ok split: sum.splits if_splits)
  show thesis
    using that [OF ms] assms(2,3) append_unique_at [OF a] append_unique_at [OF b(1)] append_unique_at [OF b(2)]
      shoot_netmap_rules_ok [OF run(1)] shoot_netmap_rules_ok [OF run(2)] shoot_netmap_rules_ok [OF run(3)]
    by simp
qed

end

section \<open>The whole configuration of a client\<close>

context iptables_laws
begin

lemma shoot_rules_v6:
  assumes "shoot_rules ipt rng sorter visit order cfg ProtocolIPv6 t w = (None, w')" and "ipt_proto t = ProtocolIPv6"
  shows "chains w' (ProtocolIPv4, tab, ch) = chains w (ProtocolIPv4, tab, ch)"
  using assms by (auto simp: shoot_rules_def Let_def effect_ok append_unique_at)

lemma seed_rules_v6:
  assumes "seed_rules sys ipt rng sorter visit order gid cfg ProtocolIPv6 t w = (None, w')" and "ipt_proto t = ProtocolIPv6"
  shows "chains w' (ProtocolIPv4, tab, ch) = chains w (ProtocolIPv4, tab, ch)"
  using assms by (auto simp: seed_rules_def Let_def effect_ok append_unique_at)

end

text \<open>What a seed client adds to a chain of the nat table.\<close>

definition seed_nat_specs :: "mapped_ranges \<Rightarrow> int \<Rightarrow> VPNClient \<Rightarrow> (CIDR \<times> CIDR) list \<Rightarrow> string \<Rightarrow> string list list" where
  "seed_nat_specs rng gid cfg ms ch =
     (let seed = CIDR_String (SeedPodNetwork cfg); mapped = SeedPodNetworkMapped rng; dev = forwardDevice cfg
      in if ch = ''OUTPUT'' then map (output_spec gid) ms
         else if \<not> CIDR_IsIPv4 (SeedPodNetwork cfg) then []
         else if ch = ''PREROUTING'' then [prerouting_spec dev mapped seed]
         else if ch = ''POSTROUTING'' then [postrouting_spec dev seed mapped] else [])"

lemma seed_nat_specs_output: "seed_nat_specs rng gid cfg ms ''OUTPUT'' = map (output_spec gid) ms"
  by (simp add: seed_nat_specs_def Let_def)

definition shoot_chain_of :: "VPNClient \<Rightarrow> (CIDR \<times> CIDR) list \<Rightarrow> string list list" where
  "shoot_chain_of cfg ms = map (\<lambda>m. prerouting_spec (forwardDevice cfg) (CIDR_String (snd m)) (CIDR_String (fst m))) ms"

context iptables_laws
begin

lemma shoot_client_chain:
  assumes run: "client_SetIPTableRules sys ipt rng sorter visit order gid cfg w = (None, w')"
    and shoot: "IsShootClient cfg" "\<not> IsHA cfg \<or> client_overlap cfg"
    and fams: "families_ok (IPFamilies cfg)" "IPv4Family \<in> set (IPFamilies cfg)"
  obtains mp mserv mn where "client_mappings rng sorter visit cfg = Inr (mp, mserv, mn)"
    and "chains w' (ProtocolIPv4, ''nat'', ''PREROUTING'') =
      fold add_unique (shoot_chain_of cfg (order mp @ order mserv @ order mn)) (chains w (ProtocolIPv4, ''nat'', ''PREROUTING''))"
proof -
  let ?c = "(ProtocolIPv4, ''nat'', ''PREROUTING'')"
  let ?step = "\<lambda>family. let protocol = (if family = IPv6Family then ProtocolIPv6 else ProtocolIPv4)
     in with_result (NewIPTables sys ipt protocol) (\<lambda>ipTable. shoot_rules ipt rng sorter visit order cfg protocol ipTable)"
  have each: "each ?step (IPFamilies cfg) w = (None, w')"
    using run shoot(1) by (simp add: client_SetIPTableRules_def)
  have v4: "\<exists>mp mserv mn. client_mappings rng sorter visit cfg = Inr (mp, mserv, mn) \<and>
      chains u' ?c = fold add_unique (shoot_chain_of cfg (order mp @ order mserv @ order mn)) (chains u ?c)"
    if st: "?step IPv4Family u = (None, u')" for u u'
  proof -
    obtain t u1 where new: "NewIPTables sys ipt ProtocolIPv4 u = (Inr t, u1)"
      and rules: "shoot_rules ipt rng sorter visit order cfg ProtocolIPv4 t u1 = (None, u')"
      using st by (auto simp: Let_def effect_ok IPv4Family_def IPv6Family_def)
    from rules show ?thesis
      by (rule shoot_chain) (use NewIPTables_ok [OF new] shoot in \<open>auto simp: shoot_chain_of_def\<close>)
  qed
  obtain u u' where "?step IPv4Family u = (None, u')" using each_step [OF each fams(2)] by blast
  then obtain mp mserv mn where ms: "client_mappings rng sorter visit cfg = Inr (mp, mserv, mn)"
    using v4 [of u u'] by auto
  have v6: "chains v' ?c = chains v ?c" if st: "?step IPv6Family v = (None, v')" for v v'
  proof -
    from st obtain t v1 where "NewIPTables sys ipt ProtocolIPv6 v = (Inr t, v1)"
      "shoot_rules ipt rng sorter visit order cfg ProtocolIPv6 t v1 = (None, v')"
      by (auto simp: Let_def effect_ok)
    then show ?thesis using shoot_rules_v6 [of _ _ _ _ _ t v1 v'] NewIPTables_ok by simp
  qed
  show thesis
    by (rule that [OF ms], rule families_view [OF each fams, of "\<lambda>w. chains w ?c"])
      (use v4 v6 ms in \<open>auto dest!: families_other [OF fams(1)]\<close>)
qed

lemma seed_chain:
  assumes "seed_rules sys ipt rng sorter visit order gid cfg ProtocolIPv4 t w = (None, w')" and "client_overlap cfg"
  obtains mp mserv mn where "client_mappings rng sorter visit cfg = Inr (mp, mserv, mn)"
    and "chains w' (ProtocolIPv4, ''nat'', ch) =
      fold add_unique (seed_nat_specs rng gid cfg (order mp @ order mserv @ order mn) ch) (chains w (ProtocolIPv4, ''nat'', ch))"
proof -
  let ?c = "(ProtocolIPv4, ''nat'', ch)"
  from assms obtain w1 where nat: "seed_nat_rules sys ipt rng sorter visit order gid cfg w = (None, w1)"
    and later: "chains w' ?c = chains w1 ?c"
    by (auto simp: seed_rules_def Let_def effect_ok append_unique_at)
  from nat obtain t1 u where new: "NewIPTables sys ipt ProtocolIPv4 w = (Inr t1, u)"
    by (auto simp: seed_nat_rules_def effect_ok)
  from nat obtain mp mserv mn where ms: "client_mappings rng sorter visit cfg = Inr (mp, mserv, mn)"
    by (cases "client_mappings rng sorter visit cfg") (auto simp: seed_nat_rules_def Let_def effect_ok)
  from nat ms new obtain w2 w3 w4 where
    run: "output_rules ipt t1 gid (order mp) u = (None, w2)" "output_rules ipt t1 gid (order mserv) w2 = (None, w3)"
      "output_rules ipt t1 gid (order mn) w3 = (None, w4)"
    and rest: "chains w1 ?c = (if ch = ''OUTPUT'' then chains w4 ?c
        else fold add_unique (seed_nat_specs rng gid cfg [] ch) (chains w4 ?c))"
    using NewIPTables_ok [OF new]
    by (auto simp: seed_nat_rules_def seed_nat_specs_def Let_def effect_ok append_unique_at split: if_splits)
  show thesis
    using that [OF ms] later rest NewIPTables_ok [OF new] output_rules_ok [OF run(1)] output_rules_ok [OF run(2)]
      output_rules_ok [OF run(3)] by (simp add: seed_nat_specs_def Let_def split: if_splits)
qed

lemma seed_client_chain:
  assumes run: "client_SetIPTableRules sys ipt rng sorter visit order gid cfg w = (None, w')"
    and seed: "\<not> IsShootClient cfg" "client_overlap cfg"
    and fams: "families_ok (IPFamilies cfg)" "IPv4Family \<in> set (IPFamilies cfg)"
  obtains mp mserv mn where "client_mappings rng sorter visit cfg = Inr (mp, mserv, mn)"
    and "chains w' (ProtocolIPv4, ''nat'', ch) =
      fold add_unique (seed_nat_specs rng gid cfg (order mp @ order mserv @ order mn) ch) (chains w (ProtocolIPv4, ''nat'', ch))"
proof -
  let ?c = "(ProtocolIPv4, ''nat'', ch)"
  let ?step = "\<lambda>family. let protocol = (if family = IPv6Family then ProtocolIPv6 else ProtocolIPv4)
     in with_result (NewIPTables sys ipt protocol) (\<lambda>t. seed_rules sys ipt rng sorter visit order gid cfg protocol t)"
  have each: "each ?step (IPFamilies cfg) w = (None, w')"
    using run seed(1) by (simp add: client_SetIPTableRules_def)
  have v4: "\<exists>mp mserv mn. client_mappings rng sorter visit cfg = Inr (mp, mserv, mn) \<and>
      chains u' ?c = fold add_unique (seed_nat_specs rng gid cfg (order mp @ order mserv @ order mn) ch) (chains u ?c)"
    if st: "?step IPv4Family u = (None, u')" for u u'
  proof -
    obtain t u1 where new: "NewIPTables sys ipt ProtocolIPv4 u = (Inr t, u1)"
      and rules: "seed_rules sys ipt rng sorter visit order gid cfg ProtocolIPv4 t u1 = (None, u')"
      using st by (auto simp: Let_def effect_ok IPv4Family_def IPv6Family_def)
    from rules seed(2) show ?thesis
      by (rule seed_chain) (use NewIPTables_ok [OF new] in auto)
  qed
  obtain u u' where "?step IPv4Family u = (None, u')" using each_step [OF each fams(2)] by blast
  then obtain mp mserv mn where ms: "client_mappings rng sorter visit cfg = Inr (mp, mserv, mn)"
    using v4 [of u u'] by auto
  have v6: "chains v' ?c = chains v ?c" if st: "?step IPv6Family v = (None, v')" for v v'
  proof -
    from st obtain t v1 where "NewIPTables sys ipt ProtocolIPv6 v = (Inr t, v1)"
      "seed_rules sys ipt rng sorter visit order gid cfg ProtocolIPv6 t v1 = (None, v')"
      by (auto simp: Let_def effect_ok)
    then show ?thesis using seed_rules_v6 [of _ _ _ _ _ _ t v1 v'] NewIPTables_ok by simp
  qed
  show thesis
    by (rule that [OF ms], rule families_view [OF each fams, of "\<lambda>w. chains w ?c"])
      (use v4 v6 ms in \<open>auto dest!: families_other [OF fams(1)]\<close>)
qed

end

section \<open>End to end\<close>

text \<open>The two chains, whatever the order in which either side visits the maps.\<close>

lemma chains_there_and_back:
  assumes "go_sort sorter" and "ranges_ok rng" and "\<forall>n \<in> set (pods @ services @ nodes). config_net n"
    and visits: "go_range visit" "go_range visit'" and orders: "go_range order" "go_range order'"
    and ms: "ShootNetworksForNetmap rng sorter visit pods services nodes = Inr (mp, mserv, mn)"
    and ms': "ShootNetworksForNetmap rng sorter visit' pods services nodes = Inr (mp', mserv', mn')"
    and out: "out = fold add_unique (map (output_spec gid) (order mp @ order mserv @ order mn)) []"
    and pre: "pre = fold add_unique (shoot_chain_of cfg (order' mp' @ order' mserv' @ order' mn')) []"
    and n: "n \<in> set (pods @ services @ nodes)" "CIDR_IsIPv4 n" and a: "length a = 4" "net_contains n a"
  shows "\<exists>b. translate ''-d'' out a = b \<and>
    (\<exists>r \<in> {ShootPodNetworkMapped rng, ShootServiceNetworkMapped rng, ShootNodeNetworkMapped rng}.
       net_contains (ParseIPNetIgnoreError r) b) \<and> translate ''-d'' pre b = a"
proof -
  have nets: "shoot_networks rng pods services nodes sorter"
    using assms(1-3) by (intro shoot_networks.intro)
  have "set (order mp @ order mserv @ order mn) = all_mappings (mp, mserv, mn)"
    "set (order' mp' @ order' mserv' @ order' mn') = all_mappings (mp', mserv', mn')"
    using orders by (simp_all add: all_mappings_def go_range.visit_set Un_assoc)
  from shoot_networks.there_and_back [OF nets visits ms ms' this n a, of gid "forwardDevice cfg"]
  show ?thesis by (simp only: out pre shoot_chain_of_def translate_add_unique append_Nil)
qed

text \<open>
  C19: without high availability, on hosts that keep the contract of \<^verbatim>\<open>iptables\<close> and with empty
  chains before, when the server and the shoot client have set their rules for the same networks, a
  packet to any IPv4 address of the shoot leaves the server with an address of a reserved range, and
  the shoot client turns that address back into the one it was sent to.
\<close>

theorem double_nat_delivers:
  assumes "iptables_laws sys ipt tabs" and "iptables_laws sys' ipt' tabs'"
    and "go_sort sorter" and "go_range visit" and "go_range visit'" and "go_range order" and "go_range order'"
    and "ranges_ok rng"
    and "\<forall>n \<in> set (ShootPodNetworks cfg @ ShootServiceNetworks cfg @ ShootNodeNetworks cfg). config_net n"
    and "srv_ShootPodNetworks srv = ShootPodNetworks cfg" and "srv_ShootServiceNetworks srv = ShootServiceNetworks cfg"
    and "srv_ShootNodeNetworks srv = ShootNodeNetworks cfg"
    and "\<not> srv_IsHA srv" and "\<not> IsHA cfg" and "IsShootClient cfg"
    and "GetVPNClientConfig defaultNet parsed = Inr cfg" and "IPv4Family \<in> set (IPFamilies cfg)"
    and "server_SetIPTableRules sys ipt rng sorter visit order gid srv u = (None, u')"
    and "client_SetIPTableRules sys' ipt' rng sorter visit' order' gid' cfg w = (None, w')"
    and "tabs u (ProtocolIPv4, ''nat'', ''OUTPUT'') = []" and "tabs' w (ProtocolIPv4, ''nat'', ''PREROUTING'') = []"
    and "n \<in> set (ShootPodNetworks cfg @ ShootServiceNetworks cfg @ ShootNodeNetworks cfg)" and "CIDR_IsIPv4 n"
    and "length a = 4" and "net_contains n a"
  shows "\<exists>b. translate ''-d'' (tabs u' (ProtocolIPv4, ''nat'', ''OUTPUT'')) a = b \<and>
    (\<exists>r \<in> {ShootPodNetworkMapped rng, ShootServiceNetworkMapped rng, ShootNodeNetworkMapped rng}.
       net_contains (ParseIPNetIgnoreError r) b) \<and>
    translate ''-d'' (tabs' w' (ProtocolIPv4, ''nat'', ''PREROUTING'')) b = a"
proof -
  have overlap: "\<not> IsHA cfg \<or> client_overlap cfg" using assms(14) by simp
  obtain mp mserv mn where s: "ShootNetworksForNetmap rng sorter visit (ShootPodNetworks cfg)
        (ShootServiceNetworks cfg) (ShootNodeNetworks cfg) = Inr (mp, mserv, mn)"
      "tabs u' (ProtocolIPv4, ''nat'', ''OUTPUT'') =
        fold add_unique (map (output_spec gid) (order mp @ order mserv @ order mn)) []"
    using iptables_laws.server_chain [OF assms(1,18,13)] assms(10-12,20) by metis
  obtain mp' mserv' mn' where c: "client_mappings rng sorter visit' cfg = Inr (mp', mserv', mn')"
      "tabs' w' (ProtocolIPv4, ''nat'', ''PREROUTING'') =
        fold add_unique (shoot_chain_of cfg (order' mp' @ order' mserv' @ order' mn')) []"
    using iptables_laws.shoot_client_chain [OF assms(2,19,15) overlap GetVPNClientConfig_families [OF assms(16)] assms(17)]
      assms(21) by metis
  show ?thesis
    by (rule chains_there_and_back [OF assms(3,8,9,4-7) s(1) c(1) [unfolded client_mappings_def] s(2) c(2) assms(22-25)])
qed

text \<open>
  C20: with high availability and a seed pod network that overlaps the shoot, the seed client takes
  the part of the server: what its OUTPUT chain does to an IPv4 address of the shoot, the PREROUTING
  chain of the shoot client undoes.
\<close>

theorem double_nat_delivers_ha:
  assumes "iptables_laws sys ipt tabs" and "iptables_laws sys' ipt' tabs'"
    and "go_sort sorter" and "go_range visit" and "go_range visit'" and "go_range order" and "go_range order'"
    and "ranges_ok rng"
    and "\<forall>n \<in> set (ShootPodNetworks cfg @ ShootServiceNetworks cfg @ ShootNodeNetworks cfg). config_net n"
    and "ShootPodNetworks seed = ShootPodNetworks cfg" and "ShootServiceNetworks seed = ShootServiceNetworks cfg"
    and "ShootNodeNetworks seed = ShootNodeNetworks cfg" and "SeedPodNetwork seed = SeedPodNetwork cfg"
    and "client_overlap cfg" and "\<not> IsShootClient seed" and "IsShootClient cfg"
    and "GetVPNClientConfig defaultNet parsed = Inr cfg" and "IPv4Family \<in> set (IPFamilies cfg)"
    and "GetVPNClientConfig defaultNet parsed' = Inr seed" and "IPv4Family \<in> set (IPFamilies seed)"
    and "client_SetIPTableRules sys ipt rng sorter visit order gid seed u = (None, u')"
    and "client_SetIPTableRules sys' ipt' rng sorter visit' order' gid' cfg w = (None, w')"
    and "tabs u (ProtocolIPv4, ''nat'', ''OUTPUT'') = []" and "tabs' w (ProtocolIPv4, ''nat'', ''PREROUTING'') = []"
    and "n \<in> set (ShootPodNetworks cfg @ ShootServiceNetworks cfg @ ShootNodeNetworks cfg)" and "CIDR_IsIPv4 n"
    and "length a = 4" and "net_contains n a"
  shows "\<exists>b. translate ''-d'' (tabs u' (ProtocolIPv4, ''nat'', ''OUTPUT'')) a = b \<and>
    (\<exists>r \<in> {ShootPodNetworkMapped rng, ShootServiceNetworkMapped rng, ShootNodeNetworkMapped rng}.
       net_contains (ParseIPNetIgnoreError r) b) \<and>
    translate ''-d'' (tabs' w' (ProtocolIPv4, ''nat'', ''PREROUTING'')) b = a"
proof -
  have overlap: "\<not> IsHA cfg \<or> client_overlap cfg" using assms(14) by simp
  have seed: "client_overlap seed" using assms(10-14) by (simp add: client_overlap_def)
  obtain mp mserv mn where s: "ShootNetworksForNetmap rng sorter visit (ShootPodNetworks cfg)
        (ShootServiceNetworks cfg) (ShootNodeNetworks cfg) = Inr (mp, mserv, mn)"
      "tabs u' (ProtocolIPv4, ''nat'', ''OUTPUT'') =
        fold add_unique (map (output_spec gid) (order mp @ order mserv @ order mn)) []"
    using iptables_laws.seed_client_chain [OF assms(1,21,15) seed GetVPNClientConfig_families [OF assms(19)] assms(20)]
      assms(10-12,23) seed_nat_specs_output unfolding client_mappings_def by metis
  obtain mp' mserv' mn' where c: "client_mappings rng sorter visit' cfg = Inr (mp', mserv', mn')"
      "tabs' w' (ProtocolIPv4, ''nat'', ''PREROUTING'') =
        fold add_unique (shoot_chain_of cfg (order' mp' @ order' mserv' @ order' mn')) []"
    using iptables_laws.shoot_client_chain [OF assms(2,22,16) overlap GetVPNClientConfig_families [OF assms(17)] assms(18)]
      assms(24) by metis
  show ?thesis
    by (rule chains_there_and_back [OF assms(3,8,9,4-7) s(1) c(1) [unfolded client_mappings_def] s(2) c(2) assms(25-28)])
qed

section \<open>The default networks\<close>

text \<open>The networks that the configuration assumes when none are set, and the reserved ranges in use.\<close>

definition default_ranges :: mapped_ranges where
  "default_ranges = \<lparr>ShootPodNetworkMapped = ''244.0.0.0/8'', ShootServiceNetworkMapped = ''243.0.0.0/8'',
     ShootNodeNetworkMapped = ''242.0.0.0/8'', SeedPodNetworkMapped = ''241.0.0.0/8''\<rparr>"

definition net8 :: "byte \<Rightarrow> CIDR" where "net8 b = \<lparr>net_ip = [b, 0, 0, 0], net_mask = [255, 0, 0, 0]\<rparr>"
definition default_services :: CIDR where "default_services = \<lparr>net_ip = [100, 64, 0, 0], net_mask = [255, 248, 0, 0]\<rparr>"
definition default_pods :: CIDR where "default_pods = \<lparr>net_ip = [100, 96, 0, 0], net_mask = [255, 224, 0, 0]\<rparr>"

lemma default_parse:
  "ParseIPNet ''244.0.0.0/8'' = Inr (net8 244)" "ParseIPNet ''243.0.0.0/8'' = Inr (net8 243)"
  "ParseIPNet ''242.0.0.0/8'' = Inr (net8 242)" "ParseIPNet ''100.64.0.0/13'' = Inr default_services"
  "ParseIPNet ''100.96.0.0/11'' = Inr default_pods"
  by (simp_all add: ParseIPNet_def net_eval net8_def default_services_def default_pods_def)

lemma default_ranges_ok: "ranges_ok default_ranges"
  by (simp add: ranges_ok_def range_ok_def default_ranges_def ParseIPNetIgnoreError_def default_parse net8_def net_eval)
    (simp add: Overlap_def CIDR_ToIPNet_def net_contains_def network_number_and_mask_def net_eval)

lemma default_config: "config_net default_services" "config_net default_pods"
proof -
  note p = default_parse(4,5)
  show "config_net default_services" "config_net default_pods"
    using p by (auto simp: config_net_def default_services_def default_pods_def net_eval)
qed

interpretation default_nets: shoot_networks default_ranges "[default_pods]" "[default_services]" "[]" sort_key
  using default_config by (intro shoot_networks.intro insertion_sort.go_sort_axioms default_ranges_ok) auto

lemma default_mapping:
  "NetmapCIDRs sort_key (\<lambda>m. m) [default_services] (net8 243) = Inr [(default_services,
     \<lparr>net_ip = [243, 0, 0, 0], net_mask = [255, 248, 0, 0]\<rparr>)]"
  "NetmapCIDRs sort_key (\<lambda>m. m) [default_pods] (net8 244) = Inr [(default_pods,
     \<lparr>net_ip = [244, 0, 0, 0], net_mask = [255, 224, 0, 0]\<rparr>)]"
  "NetmapCIDRs sort_key (\<lambda>m. m) [] (net8 242) = Inr []"
  by (simp_all add: NetmapCIDRs_def default_services_def default_pods_def net8_def CIDR_String_def parse_mapping_def netmap_defs net_eval)

lemma default_networks:
  "ShootNetworksForNetmap default_ranges sort_key (\<lambda>m. m) [default_pods] [default_services] [] =
     Inr ([(default_pods, \<lparr>net_ip = [244, 0, 0, 0], net_mask = [255, 224, 0, 0]\<rparr>)],
          [(default_services, \<lparr>net_ip = [243, 0, 0, 0], net_mask = [255, 248, 0, 0]\<rparr>)], [])"
proof -
  have "GetByIPFamily [default_pods] IPv4Family = [default_pods]" "GetByIPFamily [default_services] IPv4Family = [default_services]"
    "GetByIPFamily [] IPv4Family = []"
    by (simp_all add: GetByIPFamily_4 CIDR_IsIPv4_def default_pods_def default_services_def)
  then show ?thesis
    by (simp add: ShootNetworksForNetmap_def default_ranges_def ParseIPNetIgnoreError_def default_parse default_mapping)
qed

definition default_server :: VPNServer where
  "default_server = \<lparr>srv_ShootServiceNetworks = [default_services], srv_ShootPodNetworks = [default_pods],
     srv_ShootNodeNetworks = [], srv_VPNNetwork = vpn_nw, srv_SeedPodNetwork = default_pods, srv_PodName = ''vpn-seed-server'',
     srv_StatusPath = ''/srv/status/openvpn.status'', srv_IsHA = False, srv_HAVPNClients = 0, srv_LocalNodeIP = ''255.255.255.255'',
     srv_AutoMTU = False\<rparr>"

text \<open>Clients of a seed whose pod network is that of the shoot.\<close>

definition default_client :: "bool \<Rightarrow> bool \<Rightarrow> VPNClient" where
  "default_client shoot ha = \<lparr>IPFamilies = [IPv4Family], Endpoint = ''vpn-seed-server'', OpenVPNPort = 1194, VPNNetwork = vpn_nw,
     SeedPodNetwork = default_pods, ShootServiceNetworks = [default_services], ShootPodNetworks = [default_pods],
     ShootNodeNetworks = [], IsShootClient = shoot, PodName = (if ha then ''vpn-shoot-1'' else ''''), Namespace = ''shoot'',
     VPNServerIndex = (if ha then ''0'' else ''''), VPNClientIndex = (if ha then 1 else -1), IsHA = ha, ReversedVPNHeader = '''',
     ReversedVPNHeaderKey = ''Reversed-VPN'', HAVPNClients = (if ha then 2 else 0), HAVPNServers = (if ha then 2 else 0),
     PodLabelSelector = '''', WaitTime = 0, BondingModeName = BondingModeActiveBackup, AutoMTU = False\<rparr>"

lemma default_client_config: "GetVPNClientConfig d (Inr (default_client shoot ha)) = Inr (default_client shoot ha)"
proof -
  have "pod_index ''vpn-shoot-1'' = 1"
    by (simp add: pod_index_def Atoi_def parse_dec_def Let_def net_eval)
  then show ?thesis
    by (simp add: GetVPNClientConfig_def default_client_def vpn_nw_ok check_ha_def check_families_def
        BondingModes_def IPv4Family_def Let_def result_simps) (simp add: pod_index_def)
qed

lemma default_overlap: "client_overlap (default_client shoot ha)"
proof -
  have "Overlap default_pods default_pods"
    by (simp add: Overlap_def CIDR_ToIPNet_def default_pods_def net_contains_def network_number_and_mask_def)
  then show ?thesis by (auto simp: client_overlap_def OverLapAny_iff default_client_def)
qed

text \<open>On hosts where every call succeeds, setting the rules does.\<close>

lemma default_client_mappings:
  "client_mappings default_ranges sort_key (\<lambda>m. m) (default_client shoot ha) =
     Inr ([(default_pods, \<lparr>net_ip = [244, 0, 0, 0], net_mask = [255, 224, 0, 0]\<rparr>)],
          [(default_services, \<lparr>net_ip = [243, 0, 0, 0], net_mask = [255, 248, 0, 0]\<rparr>)], [])"
  by (simp add: client_mappings_def default_client_def default_networks)

lemma default_rules_run_on:
  assumes "\<And>t tab ch spec. runs (Append ipt t tab ch spec)" "\<And>t tab ch spec. runs (AppendUnique ipt t tab ch spec)"
    and "\<And>p w. \<exists>t u. NewIPTables sys ipt p w = (Inr t, u)"
  shows "runs (server_SetIPTableRules sys ipt default_ranges sort_key (\<lambda>m. m) (\<lambda>m. m) gid default_server)"
    and "runs (client_SetIPTableRules sys ipt default_ranges sort_key (\<lambda>m. m) (\<lambda>m. m) gid (default_client shoot ha))"
proof -
  show "runs (server_SetIPTableRules sys ipt default_ranges sort_key (\<lambda>m. m) (\<lambda>m. m) gid default_server)"
    unfolding server_SetIPTableRules_def output_rules_def
    by (simp add: default_server_def default_networks) (intro runs_intro assms)
  show "runs (client_SetIPTableRules sys ipt default_ranges sort_key (\<lambda>m. m) (\<lambda>m. m) gid (default_client shoot ha))"
    unfolding client_SetIPTableRules_def shoot_rules_def seed_rules_def seed_nat_rules_def default_client_mappings
      shoot_netmap_rules_def output_rules_def Let_def sum.case prod.case split_def
    by (intro runs_intro assms)
qed

lemmas default_rules_run = default_rules_run_on [OF tables_run(1,2) tables_new]

theorem double_nat_delivers_witness:
  "\<exists>u w b. server_SetIPTableRules tables_os tables_ipt default_ranges sort_key (\<lambda>m. m) (\<lambda>m. m) 101 default_server (\<lambda>_. []) = (None, u) \<and>
     client_SetIPTableRules tables_os tables_ipt default_ranges sort_key (\<lambda>m. m) (\<lambda>m. m) 101 (default_client True False) (\<lambda>_. []) = (None, w) \<and>
     translate ''-d'' (u (ProtocolIPv4, ''nat'', ''OUTPUT'')) [100, 96, 0, 7] = b \<and>
     translate ''-d'' (w (ProtocolIPv4, ''nat'', ''PREROUTING'')) b = [100, 96, 0, 7]"
proof -
  have client: "ShootPodNetworks (default_client True False) = [default_pods]"
    "ShootServiceNetworks (default_client True False) = [default_services]" "ShootNodeNetworks (default_client True False) = []"
    "IsShootClient (default_client True False)" "\<not> IsHA (default_client True False)"
    "IPv4Family \<in> set (IPFamilies (default_client True False))"
    by (simp_all add: default_client_def)
  have server: "srv_ShootPodNetworks default_server = [default_pods]" "srv_ShootServiceNetworks default_server = [default_services]"
    "srv_ShootNodeNetworks default_server = []" "\<not> srv_IsHA default_server" by (simp_all add: default_server_def)
  have at: "CIDR_IsIPv4 default_pods" "net_contains default_pods [100, 96, 0, 7]" "length ([100, 96, 0, 7] :: ip) = 4"
    by (simp_all add: CIDR_IsIPv4_def default_pods_def net_contains_def network_number_and_mask_def net_eval)
  obtain u w where run:
    "server_SetIPTableRules tables_os tables_ipt default_ranges sort_key (\<lambda>m. m) (\<lambda>m. m) 101 default_server (\<lambda>_. []) = (None, u)"
    "client_SetIPTableRules tables_os tables_ipt default_ranges sort_key (\<lambda>m. m) (\<lambda>m. m) 101 (default_client True False) (\<lambda>_. []) = (None, w)"
    using runsD [OF default_rules_run(1)] runsD [OF default_rules_run(2)] by metis
  show ?thesis
    using double_nat_delivers [OF tables.iptables_laws_axioms tables.iptables_laws_axioms insertion_sort.go_sort_axioms
        insertion_order.go_range_axioms insertion_order.go_range_axioms insertion_order.go_range_axioms
        insertion_order.go_range_axioms default_ranges_ok _ _ _ _ server(4) client(5,4) default_client_config client(6) run, of default_pods "[100, 96, 0, 7]"]
      default_config client(1-3) server(1-3) at run by auto
qed

theorem double_nat_delivers_ha_witness:
  "\<exists>u w b. client_SetIPTableRules tables_os tables_ipt default_ranges sort_key (\<lambda>m. m) (\<lambda>m. m) 101 (default_client False True) (\<lambda>_. []) = (None, u) \<and>
     client_SetIPTableRules tables_os tables_ipt default_ranges sort_key (\<lambda>m. m) (\<lambda>m. m) 101 (default_client True True) (\<lambda>_. []) = (None, w) \<and>
     translate ''-d'' (u (ProtocolIPv4, ''nat'', ''OUTPUT'')) [100, 64, 0, 1] = b \<and>
     translate ''-d'' (w (ProtocolIPv4, ''nat'', ''PREROUTING'')) b = [100, 64, 0, 1]"
proof -
  have client: "ShootPodNetworks (default_client shoot ha) = [default_pods]"
    "ShootServiceNetworks (default_client shoot ha) = [default_services]" "ShootNodeNetworks (default_client shoot ha) = []"
    "SeedPodNetwork (default_client shoot ha) = default_pods" "IsShootClient (default_client shoot ha) = shoot"
    "IPv4Family \<in> set (IPFamilies (default_client shoot ha))" for shoot ha
    by (simp_all add: default_client_def)
  have at: "CIDR_IsIPv4 default_services" "net_contains default_services [100, 64, 0, 1]" "length ([100, 64, 0, 1] :: ip) = 4"
    by (simp_all add: CIDR_IsIPv4_def default_services_def net_contains_def network_number_and_mask_def net_eval)
  obtain u w where run:
    "client_SetIPTableRules tables_os tables_ipt default_ranges sort_key (\<lambda>m. m) (\<lambda>m. m) 101 (default_client False True) (\<lambda>_. []) = (None, u)"
    "client_SetIPTableRules tables_os tables_ipt default_ranges sort_key (\<lambda>m. m) (\<lambda>m. m) 101 (default_client True True) (\<lambda>_. []) = (None, w)"
    using runsD [OF default_rules_run(2)] by metis
  show ?thesis
    using double_nat_delivers_ha [OF tables.iptables_laws_axioms tables.iptables_laws_axioms insertion_sort.go_sort_axioms
        insertion_order.go_range_axioms insertion_order.go_range_axioms insertion_order.go_range_axioms
        insertion_order.go_range_axioms default_ranges_ok _ _ _ _ _ default_overlap _ _ default_client_config client(6)
        default_client_config client(6) run, of default_services "[100, 64, 0, 1]"]
      default_config client(1-5) at run by auto
qed

end
