(* ===== verification/Machine.thy ===== *)
theory Machine
  imports Iptables_Laws Kernel
begin

text \<open>
  A host as the programs see it: its network devices and routes, its chains of rules, its files and
  its kernel settings.  The libraries' contracts on it are those of the single parts, and the calls
  to one part leave the others alone.
\<close>

section \<open>Files and kernel settings\<close>

text \<open>The library \<^verbatim>\<open>sysctl\<close>.\<close>

record 'w sysctl =
  SysGet :: "string \<Rightarrow> 'w \<Rightarrow> (go_error + string) \<times> 'w"
  SysSet :: "string \<Rightarrow> string \<Rightarrow> (go_error, 'w) effect"

locale sysctl_laws =
  fixes ctl :: "'w sysctl" and settings :: "'w \<Rightarrow> string \<rightharpoonup> string"
  assumes sys_get: "SysGet ctl k w = (r, w') \<Longrightarrow> settings w' = settings w \<and> (\<forall>v. r = Inr v \<longrightarrow> settings w k = Some v)"
    and sys_set: "SysSet ctl k v w = (None, w') \<Longrightarrow> settings w' = (settings w)(k \<mapsto> v)"

locale file_laws =
  fixes sys :: "'w os" and files :: "'w \<Rightarrow> string \<rightharpoonup> string"
  assumes write_file: "WriteFile sys path content mode w = (None, w') \<Longrightarrow> files w' = (files w)(path \<mapsto> content)"
    and mkdir: "Mkdir sys path mode w = (r, w') \<Longrightarrow> files w' = files w"
begin

text \<open>A file written last is the one that is there.\<close>

lemma write_then:
  assumes "and_then (WriteFile sys p c m) g w = (None, w')" and "\<And>u u'. g u = (None, u') \<Longrightarrow> files u' p = files u p"
  shows "files w' p = Some c"
  using assms by (auto simp: effect_ok dest!: write_file)

end

section \<open>Rules and devices\<close>

locale firewall_host = iptables_laws sys ipt chains + netlink_laws nl kernel
  for sys :: "'w os" and ipt chains nl kernel +
  assumes link_chains: "LinkByName nl n w = (r, w') \<Longrightarrow> chains w' = chains w"
    and route_chains: "RouteReplace nl rt w = (r1, w') \<Longrightarrow> chains w' = chains w"
    and env_kernel: "Setenv sys k v w = (r1, w') \<Longrightarrow> kernel w' = kernel w"
    and probe_kernel: "Succeeds sys path args w = (b, w') \<Longrightarrow> kernel w' = kernel w"
    and new_kernel: "NewTables ipt p path w = (r2, w') \<Longrightarrow> kernel w' = kernel w"
    and append_kernel: "Append ipt t tab ch spec w = (r1, w') \<Longrightarrow> kernel w' = kernel w"
begin

lemma ReplaceRoute_chains: "ReplaceRoute nl n l w = (r, w') \<Longrightarrow> chains w' = chains w"
  by (auto simp: ReplaceRoute_def split: prod.splits option.splits dest: route_chains)

lemma iptablesWorks_kernel: "iptablesWorks sys path w = (r, w') \<Longrightarrow> kernel w' = kernel w"
  by (cases "Succeeds sys path [''-L''] w") (auto simp: iptablesWorks_def split: bool.splits dest!: probe_kernel)

lemma try_backends_kernel: "try_backends sys ipt p sfxs w = (r, w') \<Longrightarrow> kernel w' = kernel w"
proof (induction sfxs arbitrary: w)
  case (Cons s ss)
  obtain b w1 where b: "iptablesWorks sys (''/usr/sbin/iptables-'' @ s) w = (b, w1)" by fastforce
  then show ?case
    using Cons iptablesWorks_kernel [OF b] by (cases b) (auto dest: new_kernel)
qed simp

lemma NewIPTables_kernel: "NewIPTables sys ipt p w = (r, w') \<Longrightarrow> kernel w' = kernel w"
  unfolding NewIPTables_def by (rule try_backends_kernel)

end

section \<open>The machine\<close>

record machine =
  mach_host :: host
  mach_chains :: chains
  mach_files :: "string \<rightharpoonup> string"
  mach_ctl :: "string \<rightharpoonup> string"

definition on_host :: "(host \<Rightarrow> 'r \<times> host) \<Rightarrow> machine \<Rightarrow> 'r \<times> machine" where
  "on_host f m = (let (r, h) = f (mach_host m) in (r, m\<lparr>mach_host := h\<rparr>))"

definition on_chains :: "(chains \<Rightarrow> 'r \<times> chains) \<Rightarrow> machine \<Rightarrow> 'r \<times> machine" where
  "on_chains f m = (let (r, c) = f (mach_chains m) in (r, m\<lparr>mach_chains := c\<rparr>))"

lemma on_host_eq: "on_host f m = (r, m') \<longleftrightarrow> (\<exists>h. f (mach_host m) = (r, h) \<and> m' = m\<lparr>mach_host := h\<rparr>)"
  by (auto simp: on_host_def Let_def split: prod.splits)

lemma on_chains_eq: "on_chains f m = (r, m') \<longleftrightarrow> (\<exists>c. f (mach_chains m) = (r, c) \<and> m' = m\<lparr>mach_chains := c\<rparr>)"
  by (auto simp: on_chains_def Let_def split: prod.splits)

definition machine_netlink :: "machine netlink" where
  "machine_netlink = (let nl = host_netlink in
     \<lparr>LinkByName = (\<lambda>n. on_host (LinkByName nl n)), LinkByIndex = (\<lambda>i. on_host (LinkByIndex nl i)),
      LinkDel = (\<lambda>l. on_host (LinkDel nl l)), LinkAdd = (\<lambda>l. on_host (LinkAdd nl l)),
      LinkSetUp = (\<lambda>l. on_host (LinkSetUp nl l)), LinkSetDown = (\<lambda>l. on_host (LinkSetDown nl l)),
      LinkSetMTU = (\<lambda>l m. on_host (LinkSetMTU nl l m)), LinkSetMaster = (\<lambda>l b. on_host (LinkSetMaster nl l b)),
      AddrAdd = (\<lambda>l a. on_host (AddrAdd nl l a)), AddrDel = (\<lambda>l a. on_host (AddrDel nl l a)),
      AddrList = (\<lambda>l f. on_host (AddrList nl l f)), RouteList = on_host (RouteList nl),
      RouteReplace = (\<lambda>r. on_host (RouteReplace nl r))\<rparr>)"

definition machine_ipt :: "machine iptables" where
  "machine_ipt = \<lparr>NewTables = (\<lambda>p path. on_chains (NewTables tables_ipt p path)),
     Append = (\<lambda>t tab ch spec. on_chains (Append tables_ipt t tab ch spec)),
     AppendUnique = (\<lambda>t tab ch spec. on_chains (AppendUnique tables_ipt t tab ch spec)),
     DeleteIfExists = (\<lambda>t tab ch spec. on_chains (DeleteIfExists tables_ipt t tab ch spec))\<rparr>"

definition machine_os :: "machine os" where
  "machine_os = \<lparr>Setenv = (\<lambda>_ _ m. (None, m)), Succeeds = (\<lambda>_ _ m. (True, m)),
     WriteFile = (\<lambda>p c _ m. (None, m\<lparr>mach_files := (mach_files m)(p \<mapsto> c)\<rparr>)), Mkdir = (\<lambda>_ _ m. (None, m)),
     ReadFile = (\<lambda>p m. (case mach_files m p of None \<Rightarrow> Inl (Foreign ''no such file'') | Some c \<Rightarrow> Inr c, m)),
     IsExist = (\<lambda>_. False), IsNotExist = (\<lambda>e. e = Foreign ''no such file'')\<rparr>"

definition machine_sysctl :: "machine sysctl" where
  "machine_sysctl = \<lparr>SysGet = (\<lambda>k m. (case mach_ctl m k of None \<Rightarrow> Inl (Foreign ''no such setting'') | Some v \<Rightarrow> Inr v, m)),
     SysSet = (\<lambda>k v m. (None, m\<lparr>mach_ctl := (mach_ctl m)(k \<mapsto> v)\<rparr>))\<rparr>"

abbreviation machine_kernel :: "machine \<Rightarrow> kernel" where
  "machine_kernel m \<equiv> host_kernel (mach_host m)"

lemmas machine_sel = machine_netlink_def Let_def netlink.simps on_host_eq

interpretation machine_sys: sysctl_laws machine_sysctl mach_ctl
  by unfold_locales (auto simp: machine_sysctl_def split: option.splits)

interpretation machine_fs: file_laws machine_os mach_files
  by unfold_locales (auto simp: machine_os_def)

interpretation machine_net: netlink_laws machine_netlink machine_kernel
proof
  show "links (machine_kernel w) n = Some l" if "LinkByName machine_netlink n w = (Inr l, w')" for n w l w'
    using that host.by_name by (auto simp: machine_sel)
  show "links (machine_kernel w) n = None"
    if "LinkByName machine_netlink n w = (Inl (LinkNotFoundError e), w')" for n w e w'
    using that host.by_name_none by (auto simp: machine_sel)
  show "machine_kernel w' = machine_kernel w" if "LinkByName machine_netlink n w = (r, w')" for n w r w'
    using that host.by_name_keeps by (auto simp: machine_sel)
  show "name_of l = n" if "links (machine_kernel w) n = Some l" for w n l
    using that by (rule host.names)
  show "machine_kernel w' = del_link (name_of l) (machine_kernel w)" if "LinkDel machine_netlink l w = (None, w')" for l w w'
    using that host.del by (auto simp: machine_sel)
  show "links (machine_kernel w) (name_of l) = None \<and>
      (\<exists>i. (\<forall>n m. links (machine_kernel w) n = Some m \<longrightarrow> Index (Attrs m) \<noteq> i) \<and>
           machine_kernel w' = add_link l i (machine_kernel w))"
    if "LinkAdd machine_netlink l w = (None, w')" for l w w'
    using that host.add by (auto simp: machine_sel)
  show "machine_kernel w' = (machine_kernel w)\<lparr>up := insert (name_of l) (up (machine_kernel w))\<rparr>"
    if "LinkSetUp machine_netlink l w = (None, w')" for l w w'
    using that host.set_up by (auto simp: machine_sel)
  show "machine_kernel w' = set_mtu (name_of l) m (machine_kernel w)"
    if "LinkSetMTU machine_netlink l m w = (None, w')" for l m w w'
    using that host.set_mtu by (auto simp: machine_sel)
  show "machine_kernel w' = (machine_kernel w)\<lparr>master := (master (machine_kernel w))(name_of l \<mapsto> name_of b)\<rparr>"
    if "LinkSetMaster machine_netlink l b w = (None, w')" for l b w w'
    using that host.set_master by (auto simp: machine_sel)
  show "machine_kernel w' = (machine_kernel w)
      \<lparr>addresses := (addresses (machine_kernel w))(name_of l := a # addresses (machine_kernel w) (name_of l))\<rparr>"
    if "AddrAdd machine_netlink l a w = (None, w')" for l a w w'
    using that host.addr_add by (auto simp: machine_sel)
  show "machine_kernel w' = (machine_kernel w)\<lparr>routes := (routes (machine_kernel w))(d \<mapsto> LinkIndex rt)\<rparr>"
    if "RouteReplace machine_netlink rt w = (None, w')" "Dst rt = Some d" for rt w w' d
    using that host.route_replace by (auto simp: machine_sel)
qed

interpretation machine_addr: address_laws machine_netlink machine_kernel
  by unfold_locales (auto simp: machine_sel dest: host_addr.addr_list host_addr.addr_del host_addr.set_down)

interpretation machine_rules: firewall_host machine_os machine_ipt mach_chains machine_netlink machine_kernel
  by unfold_locales
    (auto simp: machine_os_def machine_ipt_def machine_sel on_chains_eq dest: tables.new tables.new_proto
      tables.append tables.append_unique tables.delete)

end
