(* ===== verification/Firewall.thy ===== *)
theory Firewall
  imports Machine Double_NAT
begin

text \<open>
  What the INPUT rules decide about a packet, for the firewall command of the server and for the
  seed client, and what the command leaves behind.
\<close>

section \<open>Verdicts\<close>

record packet =
  in_dev :: string
  established :: bool
  ip_proto :: string

text \<open>A device pattern that ends in \<^verbatim>\<open>+\<close> matches every device with that prefix.\<close>

definition device_matches :: "string \<Rightarrow> string \<Rightarrow> bool" where
  "device_matches pat dev =
     (if pat \<noteq> [] \<and> last pat = CHR ''+'' then has_prefix dev (butlast pat) else dev = pat)"

text \<open>The criteria of the INPUT rules: the device, the state of the connection, the protocol.\<close>

definition rule_matches :: "string list \<Rightarrow> packet \<Rightarrow> bool" where
  "rule_matches spec pkt \<longleftrightarrow>
     (case option_value ''-i'' spec of None \<Rightarrow> True | Some d \<Rightarrow> device_matches d (in_dev pkt)) \<and>
     (case option_value ''--state'' spec of None \<Rightarrow> True | Some s \<Rightarrow> s = ''RELATED,ESTABLISHED'' \<and> established pkt) \<and>
     (case option_value ''-p'' spec of None \<Rightarrow> True | Some p \<Rightarrow> ip_proto pkt = p)"

text \<open>The target of the first rule that matches; without one the chain's policy applies.\<close>

definition verdict :: "string list list \<Rightarrow> packet \<Rightarrow> string option" where
  "verdict chain pkt = (case find (\<lambda>spec. rule_matches spec pkt) chain of None \<Rightarrow> None | Some spec \<Rightarrow> option_value ''-j'' spec)"

lemma verdict_simps [simp]:
  "verdict [] pkt = None"
  "verdict (spec # chain) pkt = (if rule_matches spec pkt then option_value ''-j'' spec else verdict chain pkt)"
  by (simp_all add: verdict_def)

section \<open>The command\<close>

definition nat_mapped :: "string \<Rightarrow> string \<Rightarrow> bool" where
  "nat_mapped dev seed \<longleftrightarrow> dev = TunnelDevice \<and> (\<exists>cidr. ParseIPNet seed = Inr cidr \<and> CIDR_IsIPv4 cidr)"

definition nat_rule :: "mapped_ranges \<Rightarrow> string \<Rightarrow> string \<Rightarrow> string \<Rightarrow> string list" where
  "nat_rule rng dev seed chain =
     (if chain = ''PREROUTING'' then prerouting_spec dev (SeedPodNetworkMapped rng) seed
      else postrouting_spec dev seed (SeedPodNetworkMapped rng))"

context firewall_host
begin

lemma firewall_nat_up:
  assumes "firewall_nat rng (Append ipt t) dev seed w = (None, w')" and "ipt_proto t = ProtocolIPv4"
  shows "chains w' c = chains w c @
    (if nat_mapped dev seed \<and> c \<in> {(ProtocolIPv4, ''nat'', ''PREROUTING''), (ProtocolIPv4, ''nat'', ''POSTROUTING'')}
     then [nat_rule rng dev seed (snd (snd c))] else [])" and "kernel w' = kernel w"
  using assms
  by (auto simp: firewall_nat_def nat_mapped_def nat_rule_def effect_ok append append_kernel split: if_splits sum.splits)

lemma firewall_nat_none: "\<not> nat_mapped dev seed \<Longrightarrow> firewall_nat rng op dev seed w = (None, w)"
  by (auto simp: firewall_nat_def nat_mapped_def skip_def split: sum.splits)

lemma ReplaceRoute_ok:
  assumes "ReplaceRoute nl n l w = (None, w')"
  shows "kernel w' = (kernel w)\<lparr>routes := (routes (kernel w))(n \<mapsto> Index (Attrs l))\<rparr>"
  using assms route_replace [of "routeForNetwork n l" w w' n]
  by (auto simp: ReplaceRoute_def routeForNetwork_def split: prod.splits option.splits)

lemma firewall_routes_ok:
  assumes run: "firewall_routes nl dev nws w = (None, w')"
  obtains l where "links (kernel w) dev = Some l" and "chains w' = chains w"
    and "\<forall>nw \<in> set nws. \<exists>a n. parse_cidr nw = Some (a, n) \<and> routes (kernel w') n = Some (Index (Attrs l))"
proof -
  let ?step = "\<lambda>l nw. (case parse_cidr nw of
      None \<Rightarrow> fail (Errorf ''parsing network %s failed: %s'' [nw, ''invalid CIDR address''])
    | Some (_, ipnet) \<Rightarrow> ReplaceRoute nl ipnet l)"
  from run obtain l w1 where l: "LinkByName nl dev w = (Inr l, w1)" and each: "each (?step l) nws w1 = (None, w')"
    by (auto simp: firewall_routes_def effect_ok split: prod.splits sum.splits)
  have "chains w' = chains w1"
    by (rule each_keeps [OF _ each]) (auto simp: effect_ok split: option.splits dest: ReplaceRoute_chains)
  then have keep: "chains w' = chains w" using link_chains [OF l] by simp
  have "\<forall>nw \<in> set nws. \<exists>a n. parse_cidr nw = Some (a, n) \<and> routes (kernel w') n = Some (Index (Attrs l))"
    using each
  proof (induction nws arbitrary: w' rule: rev_induct)
    case (snoc nw nws)
    from snoc.prems obtain w2 where w2: "each (?step l) nws w1 = (None, w2)" "?step l nw w2 = (None, w')"
      by (auto simp: each_append effect_ok)
    then obtain a n where n: "parse_cidr nw = Some (a, n)" "ReplaceRoute nl n l w2 = (None, w')"
      by (auto simp: effect_ok split: option.splits prod.splits)
    show ?case
      using snoc.IH [OF w2(1)] ReplaceRoute_ok [OF n(2)] n(1) by (fastforce simp: fun_upd_def)
  qed simp
  then show thesis using that by_name [OF l] keep by blast
qed

text \<open>The state after each of the two modes.\<close>

lemma firewall_up_ok:
  assumes run: "runFirewallCommand sys ipt nl rng dev ''up'' nws seed w = (None, w')"
  obtains l where "links (kernel w) dev = Some l"
    and "\<forall>nw \<in> set nws. \<exists>a n. parse_cidr nw = Some (a, n) \<and> routes (kernel w') n = Some (Index (Attrs l))"
    and "\<And>c. chains w' c = chains w c @
      (if c \<in> {(ProtocolIPv4, ''filter'', ''INPUT''), (ProtocolIPv6, ''filter'', ''INPUT'')} then firewall_specs dev
       else if nat_mapped dev seed \<and> c \<in> {(ProtocolIPv4, ''nat'', ''PREROUTING''), (ProtocolIPv4, ''nat'', ''POSTROUTING'')}
       then [nat_rule rng dev seed (snd (snd c))] else [])"
proof -
  from run obtain w1 t4 w2 t6 w3 w4 w5 where
    env: "Setenv sys ''PATH'' ''/sbin'' w = (None, w1)"
    and t4: "NewIPTables sys ipt ProtocolIPv4 w1 = (Inr t4, w2)" and t6: "NewIPTables sys ipt ProtocolIPv6 w2 = (Inr t6, w3)"
    and rules: "each (\<lambda>spec. and_then (Append ipt t4 ''filter'' ''INPUT'' spec) (Append ipt t6 ''filter'' ''INPUT'' spec))
        (firewall_specs dev) w3 = (None, w4)"
    and nat: "firewall_nat rng (Append ipt t4) dev seed w4 = (None, w5)" and rt: "firewall_routes nl dev nws w5 = (None, w')"
    by (auto simp: runFirewallCommand_def firewall_op_def effect_ok)
  note p4 = NewIPTables_ok [OF t4] and p6 = NewIPTables_ok [OF t6]
  have "kernel w4 = kernel w3"
    by (rule each_keeps [OF _ rules]) (auto simp: effect_ok dest!: append_kernel)
  then have k: "kernel w5 = kernel w"
    using firewall_nat_up(2) [OF nat] p4 env_kernel [OF env] NewIPTables_kernel [OF t4] NewIPTables_kernel [OF t6] by simp
  have c3: "chains w3 = chains w" using setenv [OF env] p4 p6 by simp
  have "chains w4 = (chains w3)((ProtocolIPv4, ''filter'', ''INPUT'') := chains w3 (ProtocolIPv4, ''filter'', ''INPUT'') @ firewall_specs dev,
      (ProtocolIPv6, ''filter'', ''INPUT'') := chains w3 (ProtocolIPv6, ''filter'', ''INPUT'') @ firewall_specs dev)"
    using rules p4 p6 by (auto simp: firewall_specs_def effect_ok dest!: append)
  then have c4: "chains w4 c = chains w c @ (if c \<in> {(ProtocolIPv4, ''filter'', ''INPUT''), (ProtocolIPv6, ''filter'', ''INPUT'')}
      then firewall_specs dev else [])" for c
    using c3 by simp
  obtain l where l: "links (kernel w5) dev = Some l" "chains w' = chains w5"
    "\<forall>nw \<in> set nws. \<exists>a n. parse_cidr nw = Some (a, n) \<and> routes (kernel w') n = Some (Index (Attrs l))"
    using firewall_routes_ok [OF rt] by blast
  show thesis
    by (rule that [of l]) (use l k c4 firewall_nat_up(1) [OF nat] p4 in auto)
qed

lemma firewall_down_ok:
  assumes run: "runFirewallCommand sys ipt nl rng dev ''down'' nws seed w = (None, w')" and "\<not> nat_mapped dev seed"
  shows "chains w' c = (if c \<in> {(ProtocolIPv4, ''filter'', ''INPUT''), (ProtocolIPv6, ''filter'', ''INPUT'')}
    then fold remove1 (firewall_specs dev) (chains w c) else chains w c)"
proof -
  from run obtain w1 t4 w2 t6 w3 w4 where
    env: "Setenv sys ''PATH'' ''/sbin'' w = (None, w1)"
    and t4: "NewIPTables sys ipt ProtocolIPv4 w1 = (Inr t4, w2)" and t6: "NewIPTables sys ipt ProtocolIPv6 w2 = (Inr t6, w3)"
    and rules: "each (\<lambda>spec. and_then (DeleteIfExists ipt t4 ''filter'' ''INPUT'' spec) (DeleteIfExists ipt t6 ''filter'' ''INPUT'' spec))
        (firewall_specs dev) w3 = (None, w4)"
    and nat: "firewall_nat rng (DeleteIfExists ipt t4) dev seed w4 = (None, w')"
    by (auto simp: runFirewallCommand_def firewall_op_def effect_ok)
  have "chains w3 = chains w" using setenv [OF env] NewIPTables_ok [OF t4] NewIPTables_ok [OF t6] by simp
  moreover have "w4 = w'" using nat firewall_nat_none [OF assms(2), of rng "DeleteIfExists ipt t4" w4] by simp
  ultimately show ?thesis
    using rules NewIPTables_ok [OF t4] NewIPTables_ok [OF t6] by (auto simp: firewall_specs_def effect_ok dest!: delete)
qed

end

section \<open>Properties\<close>

text \<open>
  After \<^verbatim>\<open>firewall --mode up\<close> for a device, of what comes in from the device the INPUT chains
  of both protocols, empty before, accept exactly the packets of established connections and drop
  the rest; about other devices they decide nothing; and every network given is routed to the device.
\<close>

theorem firewall_up_isolates:
  assumes "firewall_host sys ipt tabs nl kern"
    and "runFirewallCommand sys ipt nl rng dev ''up'' nws seed w = (None, w')"
    and "tabs w (p, ''filter'', ''INPUT'') = []" and "last dev \<noteq> CHR ''+''"
  shows "verdict (tabs w' (p, ''filter'', ''INPUT'')) pkt =
      (if in_dev pkt = dev then Some (if established pkt then ''ACCEPT'' else ''DROP'') else None) \<and>
    (\<exists>l. links (kern w) dev = Some l \<and>
       (\<forall>nw \<in> set nws. \<exists>a n. parse_cidr nw = Some (a, n) \<and> routes (kern w') n = Some (Index (Attrs l))))"
proof -
  obtain l where "links (kern w) dev = Some l"
    "\<forall>nw \<in> set nws. \<exists>a n. parse_cidr nw = Some (a, n) \<and> routes (kern w') n = Some (Index (Attrs l))"
    and rules: "\<And>c. tabs w' c = tabs w c @
      (if c \<in> {(ProtocolIPv4, ''filter'', ''INPUT''), (ProtocolIPv6, ''filter'', ''INPUT'')} then firewall_specs dev
       else if nat_mapped dev seed \<and> c \<in> {(ProtocolIPv4, ''nat'', ''PREROUTING''), (ProtocolIPv4, ''nat'', ''POSTROUTING'')}
       then [nat_rule rng dev seed (snd (snd c))] else [])"
    by (rule firewall_host.firewall_up_ok [OF assms(1,2)]) blast
  moreover have c: "tabs w' (p, ''filter'', ''INPUT'') = firewall_specs dev"
    using assms(3) by (cases p) (simp_all add: rules)
  moreover have "verdict (firewall_specs dev) pkt =
      (if in_dev pkt = dev then Some (if established pkt then ''ACCEPT'' else ''DROP'') else None)"
    using assms(4) by (simp add: firewall_specs_def rule_matches_def device_matches_def)
  ultimately show ?thesis by auto
qed

lemma mset_fold_remove1: "mset (fold remove1 ys xs) = mset xs - mset ys"
  by (induction ys arbitrary: xs) (auto simp: diff_add_mset_swap)

text \<open>
  \<^verbatim>\<open>firewall --mode up\<close> and then \<^verbatim>\<open>--mode down\<close>, with the arguments that the configuration of
  OpenVPN gives them (the second one without the seed pod network), leave the INPUT chains with the
  rules they had, but the NETMAP rules that the first one added to the nat table for the tunnel stay.
\<close>

theorem firewall_down_leaves_netmap:
  assumes "firewall_host sys ipt tabs nl kern"
    and "runFirewallCommand sys ipt nl rng dev ''up'' nws seed w = (None, w1)" and "tabs u = tabs w1"
    and "runFirewallCommand sys ipt nl rng dev ''down'' [] '''' u = (None, w2)"
  shows "mset (tabs w2 (p, ''filter'', ''INPUT'')) = mset (tabs w (p, ''filter'', ''INPUT'')) \<and>
    (\<forall>chain \<in> {''PREROUTING'', ''POSTROUTING''}. tabs w2 (ProtocolIPv4, ''nat'', chain) =
       tabs w (ProtocolIPv4, ''nat'', chain) @ (if nat_mapped dev seed then [nat_rule rng dev seed chain] else []))"
proof -
  have "\<not> nat_mapped dev ''''" by (simp add: nat_mapped_def ParseIPNet_def net_eval)
  note down = firewall_host.firewall_down_ok [OF assms(1,4) this]
  obtain l where up: "\<And>c. tabs w1 c = tabs w c @
      (if c \<in> {(ProtocolIPv4, ''filter'', ''INPUT''), (ProtocolIPv6, ''filter'', ''INPUT'')} then firewall_specs dev
       else if nat_mapped dev seed \<and> c \<in> {(ProtocolIPv4, ''nat'', ''PREROUTING''), (ProtocolIPv4, ''nat'', ''POSTROUTING'')}
       then [nat_rule rng dev seed (snd (snd c))] else [])"
    by (rule firewall_host.firewall_up_ok [OF assms(1,2)]) blast
  have "mset (fold remove1 (firewall_specs dev) (tabs w1 (p, ''filter'', ''INPUT''))) = mset (tabs w (p, ''filter'', ''INPUT''))"
    by (cases p) (simp_all add: up mset_fold_remove1)
  then show ?thesis using down assms(3) by (cases p) (auto simp: up)
qed

section \<open>The seed client\<close>

definition protocol_of :: "string \<Rightarrow> Protocol" where
  "protocol_of family = (if family = IPv6Family then ProtocolIPv6 else ProtocolIPv4)"

definition seed_input_specs :: "VPNClient \<Rightarrow> Protocol \<Rightarrow> string list list" where
  "seed_input_specs cfg p =
     (if p = ProtocolIPv6 then [[''-i'', forwardDevice cfg, ''-p'', ''icmpv6'', ''-j'', ''ACCEPT'']] else []) @
     [[''-m'', ''state'', ''--state'', ''RELATED,ESTABLISHED'', ''-i'', forwardDevice cfg, ''-j'', ''ACCEPT''],
      [''-i'', forwardDevice cfg, ''-j'', ''DROP'']]"

context iptables_laws
begin

lemma seed_nat_rules_filter:
  assumes "seed_nat_rules sys ipt rng sorter visit order gid cfg w = (None, w')"
  shows "chains w' (p, ''filter'', ch) = chains w (p, ''filter'', ch)"
proof -
  from assms obtain t u where new: "NewIPTables sys ipt ProtocolIPv4 w = (Inr t, u)"
    by (auto simp: seed_nat_rules_def effect_ok)
  from assms obtain mp mserv mn where "client_mappings rng sorter visit cfg = Inr (mp, mserv, mn)"
    by (cases "client_mappings rng sorter visit cfg") (auto simp: seed_nat_rules_def Let_def effect_ok)
  with assms new obtain w2 w3 w4 where
    run: "output_rules ipt t gid (order mp) u = (None, w2)" "output_rules ipt t gid (order mserv) w2 = (None, w3)"
      "output_rules ipt t gid (order mn) w3 = (None, w4)"
    and rest: "chains w' (p, ''filter'', ch) = chains w4 (p, ''filter'', ch)"
    by (auto simp: seed_nat_rules_def Let_def effect_ok append_unique_at split: if_splits)
  show ?thesis
    using rest NewIPTables_ok [OF new] output_rules_ok [OF run(1)] output_rules_ok [OF run(2)] output_rules_ok [OF run(3)] by simp
qed

lemma seed_rules_filter:
  assumes "seed_rules sys ipt rng sorter visit order gid cfg p t w = (None, w')" and "ipt_proto t = p"
  shows "chains w' (q, ''filter'', ''INPUT'') = (if q = p
    then fold add_unique (seed_input_specs cfg p) (chains w (q, ''filter'', ''INPUT'')) else chains w (q, ''filter'', ''INPUT''))"
proof -
  let ?dev = "forwardDevice cfg"
  obtain w1 w2 w3 where
    nat: "(if p = ProtocolIPv4 \<and> client_overlap cfg
           then seed_nat_rules sys ipt rng sorter visit order gid cfg else skip) w = (None, w1)"
    and icmp: "(if p = ProtocolIPv6
           then AppendUnique ipt t ''filter'' ''INPUT'' [''-i'', ?dev, ''-p'', ''icmpv6'', ''-j'', ''ACCEPT''] else skip) w1 = (None, w2)"
    and est: "AppendUnique ipt t ''filter'' ''INPUT''
             [''-m'', ''state'', ''--state'', ''RELATED,ESTABLISHED'', ''-i'', ?dev, ''-j'', ''ACCEPT''] w2 = (None, w3)"
    and drop: "AppendUnique ipt t ''filter'' ''INPUT'' [''-i'', ?dev, ''-j'', ''DROP''] w3 = (None, w')"
    using assms(1) by (auto simp only: seed_rules_def Let_def and_then_ok)
  have "chains w1 (q, ''filter'', ''INPUT'') = chains w (q, ''filter'', ''INPUT'')"
    using nat seed_nat_rules_filter by (auto simp: skip_ok split: if_splits)
  moreover have "chains w2 (q, ''filter'', ''INPUT'') = (if q = p \<and> p = ProtocolIPv6
      then add_unique [''-i'', ?dev, ''-p'', ''icmpv6'', ''-j'', ''ACCEPT''] (chains w1 (q, ''filter'', ''INPUT''))
      else chains w1 (q, ''filter'', ''INPUT''))"
    using icmp assms(2) append_unique_at by (cases "p = ProtocolIPv6") (simp_all add: skip_ok)
  moreover have "chains w' (q, ''filter'', ''INPUT'') = (if q = p
      then fold add_unique [[''-m'', ''state'', ''--state'', ''RELATED,ESTABLISHED'', ''-i'', ?dev, ''-j'', ''ACCEPT''],
        [''-i'', ?dev, ''-j'', ''DROP'']] (chains w2 (q, ''filter'', ''INPUT'')) else chains w2 (q, ''filter'', ''INPUT''))"
    using append_unique_at [OF est, of "(q, ''filter'', ''INPUT'')"] append_unique_at [OF drop, of "(q, ''filter'', ''INPUT'')"]
      assms(2) by (cases "q = p") simp_all
  ultimately show ?thesis by (cases "p = ProtocolIPv6"; cases "q = p") (simp_all add: seed_input_specs_def)
qed

lemma seed_client_filter:
  assumes run: "client_SetIPTableRules sys ipt rng sorter visit order gid cfg w = (None, w')" and seed: "\<not> IsShootClient cfg"
    and fams: "families_ok (IPFamilies cfg)" "f \<in> set (IPFamilies cfg)"
  shows "chains w' (protocol_of f, ''filter'', ''INPUT'') =
    fold add_unique (seed_input_specs cfg (protocol_of f)) (chains w (protocol_of f, ''filter'', ''INPUT''))"
proof -
  let ?step = "\<lambda>family. with_result (NewIPTables sys ipt (protocol_of family))
    (\<lambda>t. seed_rules sys ipt rng sorter visit order gid cfg (protocol_of family) t)"
  have each: "each ?step (IPFamilies cfg) w = (None, w')"
    using run seed by (simp add: client_SetIPTableRules_def protocol_of_def Let_def)
  have step: "chains u' (q, ''filter'', ''INPUT'') = (if q = protocol_of g
      then fold add_unique (seed_input_specs cfg q) (chains u (q, ''filter'', ''INPUT'')) else chains u (q, ''filter'', ''INPUT''))"
    if "?step g u = (None, u')" for g u u' q
    using that NewIPTables_ok by (auto simp: effect_ok seed_rules_filter)
  show ?thesis
  proof (rule families_view [OF each fams, of "\<lambda>w. chains w (protocol_of f, ''filter'', ''INPUT'')"])
    fix g u u' assume g: "g \<in> set (IPFamilies cfg)" "g \<noteq> f" and st: "?step g u = (None, u')"
    have "protocol_of f \<noteq> protocol_of g"
      using g fams by (auto simp: protocol_of_def dest: families_other [OF fams(1)])
    then show "chains u' (protocol_of f, ''filter'', ''INPUT'') = chains u (protocol_of f, ''filter'', ''INPUT'')"
      using step [OF st] by simp
  qed (simp add: step)
qed

end

text \<open>
  C25: once a seed client has set its rules, of what comes in from the VPN its INPUT chain, empty
  before, accepts the packets of established connections and, over IPv6, ICMPv6, and drops the rest,
  for each IP family of the configuration; about other devices it decides nothing.
\<close>

theorem seed_client_isolates:
  assumes "iptables_laws sys ipt tabs" and "\<not> IsShootClient cfg" and "GetVPNClientConfig defaultNet parsed = Inr cfg"
    and "f \<in> set (IPFamilies cfg)"
    and "client_SetIPTableRules sys ipt rng sorter visit order gid cfg w = (None, w')"
    and "tabs w (protocol_of f, ''filter'', ''INPUT'') = []"
  shows "verdict (tabs w' (protocol_of f, ''filter'', ''INPUT'')) pkt =
    (if device_matches (forwardDevice cfg) (in_dev pkt)
     then Some (if established pkt \<or> f = IPv6Family \<and> ip_proto pkt = ''icmpv6'' then ''ACCEPT'' else ''DROP'') else None)"
proof -
  have "tabs w' (protocol_of f, ''filter'', ''INPUT'') = seed_input_specs cfg (protocol_of f)"
    using iptables_laws.seed_client_filter [OF assms(1,5,2) GetVPNClientConfig_families [OF assms(3)] assms(4)] assms(6)
    by (simp add: seed_input_specs_def add_unique_def)
  then show ?thesis
    by (simp add: seed_input_specs_def rule_matches_def protocol_of_def)
qed

section \<open>Witnesses\<close>

text \<open>A machine with a tunnel device and nothing else.\<close>

definition tunnel_machine :: machine where
  "tunnel_machine = \<lparr>mach_host = \<lparr>devices = [Device \<lparr>Index = 3, LinkName = ''tun0'', MTU = 1500\<rparr>], host_up = {''tun0''},
       host_master = Map.empty, host_addresses = (\<lambda>_. []), host_routes = Map.empty\<rparr>,
     mach_chains = (\<lambda>_. []), mach_files = Map.empty, mach_ctl = Map.empty\<rparr>"

lemma machine_rules_run:
  "NewIPTables machine_os machine_ipt p m = (Inr \<lparr>ipt_proto = p, ipt_path = adjustPath ''/usr/sbin/iptables-legacy'' p\<rparr>, m)"
  "Append machine_ipt t tab ch spec m = (None, m\<lparr>mach_chains := (mach_chains m)((ipt_proto t, tab, ch) :=
     mach_chains m (ipt_proto t, tab, ch) @ [spec])\<rparr>)"
  "DeleteIfExists machine_ipt t tab ch spec m = (None, m\<lparr>mach_chains := (mach_chains m)((ipt_proto t, tab, ch) :=
     remove1 spec (mach_chains m (ipt_proto t, tab, ch)))\<rparr>)"
  "Setenv machine_os k v m = (None, m)"
  by (simp_all add: NewIPTables_def iptablesWorks_def machine_os_def machine_ipt_def tables_ipt_def on_chains_def)

lemma machine_run:
  "runs (Append machine_ipt t tab ch spec)" "runs (AppendUnique machine_ipt t tab ch spec)"
  "\<exists>t u. NewIPTables machine_os machine_ipt p m = (Inr t, u)"
  by (simp_all add: runs_def machine_rules_run) (simp add: machine_ipt_def tables_ipt_def on_chains_def)

lemma tunnel_link:
  "devices (mach_host m) = devices (mach_host tunnel_machine) \<Longrightarrow>
    LinkByName machine_netlink ''tun0'' m = (Inr (Device \<lparr>Index = 3, LinkName = ''tun0'', MTU = 1500\<rparr>), m)"
  by (simp add: machine_netlink_def on_host_def host_netlink_def host_link_def tunnel_machine_def name_of_def Let_def)

lemma tunnel_routes:
  assumes "list_all (\<lambda>nw. parse_cidr nw \<noteq> None) nws" and "mach_host m = mach_host tunnel_machine"
  shows "\<exists>m'. firewall_routes machine_netlink ''tun0'' nws m = (None, m')"
proof -
  have "ReplaceRoute machine_netlink n l m = (None, m\<lparr>mach_host := (mach_host m)\<lparr>host_routes := (host_routes (mach_host m))(n \<mapsto> Index (Attrs l))\<rparr>\<rparr>)"
    for n l m
    by (simp add: ReplaceRoute_def machine_netlink_def on_host_def host_netlink_def Let_def routeForNetwork_def)
  then have "runs (ReplaceRoute machine_netlink n l)" for n l by (simp add: runs_def)
  then have "runs (each (\<lambda>nw. case parse_cidr nw of
      None \<Rightarrow> fail (Errorf ''parsing network %s failed: %s'' [nw, ''invalid CIDR address''])
    | Some (_, ipnet) \<Rightarrow> ReplaceRoute machine_netlink ipnet l) nws)" for l
    using assms(1) by (intro runs_each) (auto simp: list_all_iff split: option.splits)
  note runsD [OF this, of "Device \<lparr>Index = 3, LinkName = ''tun0'', MTU = 1500\<rparr>" m]
  then show ?thesis
    using tunnel_link [of m] assms(2) by (simp add: firewall_routes_def with_result_def)
qed

lemma tunnel_up_all:
  assumes "list_all (\<lambda>nw. parse_cidr nw \<noteq> None) nws"
  shows "\<exists>m. runFirewallCommand machine_os machine_ipt machine_netlink rng ''tun0'' ''up'' nws seed tunnel_machine = (None, m)"
proof -
  have nat: "\<exists>m'. firewall_nat rng (Append machine_ipt t) ''tun0'' seed m = (None, m') \<and> mach_host m' = mach_host m" for t m
    by (auto simp: firewall_nat_def and_then_def skip_def machine_rules_run split: sum.splits)
  obtain m4 where "each (\<lambda>spec. and_then (Append machine_ipt \<lparr>ipt_proto = ProtocolIPv4, ipt_path = adjustPath ''/usr/sbin/iptables-legacy'' ProtocolIPv4\<rparr> ''filter'' ''INPUT'' spec)
      (Append machine_ipt \<lparr>ipt_proto = ProtocolIPv6, ipt_path = adjustPath ''/usr/sbin/iptables-legacy'' ProtocolIPv6\<rparr> ''filter'' ''INPUT'' spec))
        (firewall_specs ''tun0'') tunnel_machine = (None, m4)" and m4: "mach_host m4 = mach_host tunnel_machine"
    by (simp add: firewall_specs_def and_then_def machine_rules_run)
  moreover obtain m5 where m5: "firewall_nat rng (Append machine_ipt
      \<lparr>ipt_proto = ProtocolIPv4, ipt_path = adjustPath ''/usr/sbin/iptables-legacy'' ProtocolIPv4\<rparr>) ''tun0'' seed m4 = (None, m5)"
    "mach_host m5 = mach_host m4"
    using nat by blast
  moreover obtain m6 where "firewall_routes machine_netlink ''tun0'' nws m5 = (None, m6)"
    using tunnel_routes [OF assms] m4 m5(2) by metis
  ultimately show ?thesis
    by (simp add: runFirewallCommand_def firewall_op_def wrapping_def and_then_def with_result_def machine_rules_run)
qed

lemma tunnel_up:
  "\<exists>m. runFirewallCommand machine_os machine_ipt machine_netlink rng ''tun0'' ''up'' [''100.64.0.0/13''] seed tunnel_machine = (None, m)"
  by (rule tunnel_up_all) (simp add: net_eval)

lemma tunnel_down:
  "\<exists>m'. runFirewallCommand machine_os machine_ipt machine_netlink rng ''tun0'' ''down'' [] '''' m = (None, m')"
proof -
  have "\<not> nat_mapped ''tun0'' ''''" by (simp add: nat_mapped_def ParseIPNet_def net_eval)
  then show ?thesis
    by (simp add: runFirewallCommand_def firewall_op_def wrapping_def and_then_def with_result_def machine_rules_run
        firewall_specs_def firewall_host.firewall_nat_none [OF machine_rules.firewall_host_axioms] skip_def)
qed

theorem seed_client_isolates_witness:
  "\<exists>w. client_SetIPTableRules tables_os tables_ipt default_ranges sort_key (\<lambda>m. m) (\<lambda>m. m) 101 (default_client False True) (\<lambda>_. []) = (None, w) \<and>
     verdict (w (ProtocolIPv4, ''filter'', ''INPUT''))
       \<lparr>in_dev = ''bond0'', established = False, ip_proto = ''tcp''\<rparr> = Some ''DROP''"
proof -
  obtain w where w: "client_SetIPTableRules tables_os tables_ipt default_ranges sort_key (\<lambda>m. m) (\<lambda>m. m) 101 (default_client False True) (\<lambda>_. []) = (None, w)"
    using runsD [OF default_rules_run(2)] by blast
  have "device_matches (forwardDevice (default_client False True)) ''bond0''" "protocol_of IPv4Family = ProtocolIPv4"
    by (simp_all add: forwardDevice_def default_client_def device_matches_def BondDevice_def has_prefix_def protocol_of_def
        IPv4Family_def IPv6Family_def)
  then show ?thesis
    using w seed_client_isolates [OF tables.iptables_laws_axioms _ default_client_config _ w, of IPv4Family
        "\<lparr>in_dev = ''bond0'', established = False, ip_proto = ''tcp''\<rparr>"]
    by (simp add: default_client_def IPv4Family_def IPv6Family_def)
qed

end
