(* ===== verification/Server_Values.thy ===== *)
theory Server_Values
  imports Config Netmap Iptables
begin

text \<open>
  \<^verbatim>\<open>pkg/vpn_server/values.go\<close>: the values of the OpenVPN configuration of a server, built from the
  server's own configuration.
\<close>

section \<open>Definitions\<close>

definition RoutesPerClientMax :: int where "RoutesPerClientMax = 2 ^ 20"
definition RoutesPerClientMin :: int where "RoutesPerClientMin = 256"

record SeedServerValues =
  sv_Device :: string
  sv_StatusPath :: string
  sv_OpenVPNNetwork :: CIDR
  sv_ShootNetworks :: "CIDR list"
  sv_ShootNetworksV4 :: "CIDR list"
  sv_ShootNetworksV6 :: "CIDR list"
  sv_SeedPodNetwork :: CIDR
  sv_HAVPNClients :: int
  sv_IsHA :: bool
  sv_VPNIndex :: int
  sv_LocalNodeIP :: string
  sv_TunMTU :: int
  sv_MaxRoutesPerClient :: int

text \<open>
  The pattern \<^verbatim>\<open>.*-([0-2])$\<close>: the name ends in a dash and one of the three digits.
\<close>

definition getHAInfo :: "VPNServer \<Rightarrow> bool \<times> int" where
  "getHAInfo cfg =
     (let podName = srv_PodName cfg
      in if podName = '''' then (False, 0)
         else (case rev podName of
                 d # c # _ \<Rightarrow> if c = CHR ''-'' \<and> d \<in> set ''012''
                              then (True, case Atoi [d] of Some index \<Rightarrow> index | None \<Rightarrow> 0) else (False, 0)
               | _ \<Rightarrow> (False, 0)))"

text \<open>The number of addresses of all networks, as far as it fits in 64 bits, within the two limits.\<close>

definition srv_networks :: "VPNServer \<Rightarrow> CIDR list" where
  "srv_networks cfg = srv_ShootPodNetworks cfg @ srv_ShootServiceNetworks cfg @ srv_ShootNodeNetworks cfg"

definition max_routes :: "VPNServer \<Rightarrow> int" where
  "max_routes cfg =
     (let maxRoutes = foldl (+) 0 (map CIDR_CountHosts (srv_networks cfg));
          maxRoutesUint64 = (if 0 \<le> maxRoutes \<and> maxRoutes < 2 ^ 64 then maxRoutes else RoutesPerClientMax)
      in max (min maxRoutesUint64 RoutesPerClientMax) RoutesPerClientMin)"

definition map_networks :: "bool \<Rightarrow> string \<Rightarrow> CIDR list \<Rightarrow> CIDR list" where
  "map_networks doNetmap mapped nws =
     map (\<lambda>n. if to4 (net_ip n) \<noteq> None \<and> doNetmap then ParseIPNetIgnoreError mapped else n) nws"

text \<open>\<^verbatim>\<open>slices.CompactFunc\<close>: every element is compared with the one before it in the slice.\<close>

fun compact_from :: "('a \<Rightarrow> 'a \<Rightarrow> bool) \<Rightarrow> 'a \<Rightarrow> 'a list \<Rightarrow> 'a list" where
  "compact_from eq p [] = []"
| "compact_from eq p (x # xs) = (if eq x p then compact_from eq x xs else x # compact_from eq x xs)"

fun CompactFunc :: "('a \<Rightarrow> 'a \<Rightarrow> bool) \<Rightarrow> 'a list \<Rightarrow> 'a list" where
  "CompactFunc eq [] = []"
| "CompactFunc eq (x # xs) = x # compact_from eq x xs"

definition server_networks ::
  "mapped_ranges \<Rightarrow> ((CIDR \<Rightarrow> string) \<Rightarrow> CIDR list \<Rightarrow> CIDR list) \<Rightarrow> VPNServer \<Rightarrow> bool \<Rightarrow> CIDR list"
where
  "server_networks rng sorter cfg doNetmap =
     CompactFunc CIDR_Equal (sorter CIDR_String
       (map_networks doNetmap (ShootServiceNetworkMapped rng) (srv_ShootServiceNetworks cfg) @
        map_networks doNetmap (ShootPodNetworkMapped rng) (srv_ShootPodNetworks cfg) @
        map_networks doNetmap (ShootNodeNetworkMapped rng) (srv_ShootNodeNetworks cfg)))"

definition BuildValues ::
  "mapped_ranges \<Rightarrow> ((CIDR \<Rightarrow> string) \<Rightarrow> CIDR list \<Rightarrow> CIDR list) \<Rightarrow> VPNServer \<Rightarrow> go_error + SeedServerValues"
where
  "BuildValues rng sorter cfg =
     (let nw = srv_VPNNetwork cfg
      in if net_ip nw = [] then Inl (Errorf ''VPN_NETWORK must be set'' [])
         else if CIDR_IsIPv4 nw then Inl (Errorf ''VPN_NETWORK must be a IPv6 CIDR: %s'' [CIDR_String nw])
         else if fst (mask_size (net_mask nw)) \<noteq> VPNNetworkMask
         then Inl (Errorf ''invalid prefix length for VPN_NETWORK, must be /%d, vpn network: %s''
                     [int_string VPNNetworkMask, CIDR_String nw])
         else (let (isHA, index) = getHAInfo cfg
               in if isHA \<noteq> srv_IsHA cfg
                  then Inl (Errorf ''IS_HA flag in config does not match HA info from pod name: IS_HA = %t, POD_NAME = %s''
                              [if srv_IsHA cfg then ''true'' else ''false'', srv_PodName cfg])
                  else bind_r (if isHA then net_result (HAVPNTunnelNetwork (net_ip nw) index) else Inr nw) (\<lambda>tunnel.
                    (let doNetmap = (\<not> isHA \<or> OverLapAny (srv_SeedPodNetwork cfg) (srv_networks cfg));
                         nws = server_networks rng sorter cfg doNetmap
                     in Inr \<lparr>sv_Device = (if isHA then TapDevice else TunnelDevice), sv_StatusPath = srv_StatusPath cfg,
                          sv_OpenVPNNetwork = tunnel, sv_ShootNetworks = nws,
                          sv_ShootNetworksV4 = filter (\<lambda>n. to4 (net_ip n) \<noteq> None) nws,
                          sv_ShootNetworksV6 = filter (\<lambda>n. \<not> to4 (net_ip n) \<noteq> None) nws,
                          sv_SeedPodNetwork = srv_SeedPodNetwork cfg,
                          sv_HAVPNClients = (if isHA then srv_HAVPNClients cfg else -1), sv_IsHA = isHA, sv_VPNIndex = index,
                          sv_LocalNodeIP = '''', sv_TunMTU = 0, sv_MaxRoutesPerClient = max_routes cfg\<rparr>))))"

end
