(* ===== verification/CIDR_Text.thy ===== *)
theory CIDR_Text
  imports Go_Net_V6 Net_Types
begin

text \<open>
  Networks and their text: printing a network that was parsed and parsing it again gives it back, and
  two parsed networks that print alike are the same.
\<close>

section \<open>The parts of a printed network\<close>

lemma last_slash:
  assumes "xs @ c # ys = xs' @ c # ys'" and "c \<notin> set ys" and "c \<notin> set ys'"
  shows "xs = xs'" and "ys = ys'"
proof -
  have part: "takeWhile (\<lambda>d. d \<noteq> c) (rev (as @ c # bs)) = rev bs" if "c \<notin> set bs" for as bs
    using that by (simp add: takeWhile_append)
  have "rev ys = rev ys'"
    using part [OF assms(2), of xs] part [OF assms(3), of xs'] assms(1) by simp
  then show "ys = ys'" by simp
  with assms(1) show "xs = xs'" by simp
qed

lemma no_slash_dec: "CHR ''/'' \<notin> set (dec_string n)"
  using dec_string_digits [of n] by (auto simp: list_all_iff is_digit_def less_eq_char_def)

lemma no_slash_ip4: "CHR ''/'' \<notin> set (ip4_string a)"
  using ip4_string_chars [of "CHR ''/''" a] by (auto simp: is_digit_def less_eq_char_def)

lemma no_slash_hex: "CHR ''/'' \<notin> set (hex_string n)"
proof
  assume "CHR ''/'' \<in> set (hex_string n)"
  then have "is_hex (CHR ''/'')" using hex_string_chars [of n] by (auto simp: list_all_iff)
  then show False by (simp add: is_hex_def hex_val_def is_digit_def less_eq_char_def)
qed

lemma no_slash_ip6: "CHR ''/'' \<notin> set (ip6_string a)"
  by (simp add: ip6_string_def Let_def no_slash_hex join_chars split: prod.split)

text \<open>The shape of a parsed network, with its text.\<close>

lemma parsed_shape:
  assumes "ParseIPNet s = Inr n"
  obtains l p where "l = 4 \<or> l = 16" and "p \<le> 8 * l" and "length (net_ip n) = l"
    and "map2 (AND) (net_ip n) (mask_bytes l p) = net_ip n" and "net_mask n = mask_bytes l p"
    and "CIDR_String n = ip_string (net_ip n) @ CHR ''/'' # dec_string p"
proof -
  obtain x where "parse_cidr s = Some (x, n)"
    using assms by (auto simp: ParseIPNet_def split: option.splits)
  then obtain a p where a: "length a = 4 \<or> length a = 16" "p \<le> 8 * length a"
    "net_ip n = map2 (AND) a (mask_bytes (length a) p)" "net_mask n = mask_bytes (length a) p"
    by (rule parse_cidr_shape)
  have "mask_size (mask_bytes (length a) p) = (int p, 8 * int (length a))"
    using a(2) by (simp add: mask_size_def simple_mask_length_mask_bytes)
  then have "CIDR_String n = ip_string (net_ip n) @ CHR ''/'' # dec_string p"
    using a by (auto simp: CIDR_String_def int_string_def)
  moreover have "map2 (AND) (mask_bytes (length a) p) (mask_bytes (length a) p) = mask_bytes (length a) p"
    by (rule mask_bytes_and) simp
  ultimately show thesis
    using that [of "length a" p] a by (simp add: map2_and_assoc)
qed

lemma parse_cidr_String:
  assumes "ParseIPNet s = Inr n" and "\<not> (length (net_ip n) = 16 \<and> CIDR_IsIPv4 n)"
  shows "\<exists>a. parse_cidr (CIDR_String n) = Some (a, n)"
proof -
  from assms(1) obtain l p where l: "l = 4 \<or> l = 16" "p \<le> 8 * l" "length (net_ip n) = l"
    "map2 (AND) (net_ip n) (mask_bytes l p) = net_ip n" "net_mask n = mask_bytes l p"
    and str: "CIDR_String n = ip_string (net_ip n) @ CHR ''/'' # dec_string p"
    by (rule parsed_shape)
  have addr: "parse_addr (ip_string (net_ip n)) = Some (net_ip n) \<and> CHR ''/'' \<notin> set (ip_string (net_ip n))"
  proof (cases "l = 4")
    case True
    then have "ip_string (net_ip n) = ip4_string (net_ip n)" using l(3) by (auto simp: ip_string_def)
    then show ?thesis using l(3) True by (simp add: parse_addr_ip4_string no_slash_ip4)
  next
    case False
    then have "length (net_ip n) = 16" "to4 (net_ip n) = None" using l(1,3) assms(2) by (auto simp: CIDR_IsIPv4_def)
    then have "ip_string (net_ip n) = ip6_string (net_ip n)" by (auto simp: ip_string_def)
    then show ?thesis using \<open>length (net_ip n) = 16\<close> by (simp add: parse_addr_v6 no_slash_ip6)
  qed
  have parts: "takeWhile (\<lambda>c. c \<noteq> CHR ''/'') (CIDR_String n) = ip_string (net_ip n)"
    "dropWhile (\<lambda>c. c \<noteq> CHR ''/'') (CIDR_String n) = CHR ''/'' # dec_string p"
    using addr by (auto simp: str takeWhile_append dropWhile_append takeWhile_eq_all_conv)
  have "ip_mask (the (to16 (net_ip n))) (mask_bytes l p) = net_ip n"
    using l by (auto simp: ip_mask_v4 ip_mask_same to16_def)
  moreover have "cidr_mask (int p) (8 * int l) = mask_bytes l p"
    using l(1,2) by (auto simp: cidr_mask_def)
  ultimately show ?thesis
    using l addr dec_string_digits [of p]
    by (simp add: parse_cidr_def Let_def parts parse_dec_def)
qed

text \<open>
  C26: a network that was parsed, other than an IPv4 address range in IPv6 notation, is parsed again
  from its text.
\<close>

theorem ParseIPNet_String_roundtrip:
  assumes "ParseIPNet s = Inr n" and "\<not> (length (net_ip n) = 16 \<and> CIDR_IsIPv4 n)"
  shows "ParseIPNet (CIDR_String n) = Inr n"
  using parse_cidr_String [OF assms] by (auto simp: ParseIPNet_def)

lemma parse_ip_printed: "length a = 4 \<or> length a = 16 \<Longrightarrow> parse_ip (ip_string a) = to16 a"
proof (elim disjE)
  assume a: "length a = 4"
  then have "ip_string a = ip4_string a" by (auto simp: ip_string_def)
  then show ?thesis using a by (simp add: parse_ip_def parse_addr_ip4_string)
qed (simp add: parse_ip_string to16_def)

text \<open>An IPv4 address in IPv6 notation has more than 32 bits that are not zero.\<close>

lemma mapped_long:
  assumes "length b = 16" and "map2 (AND) b (mask_bytes 16 p) = b" and "p \<le> 32" and "length a = 4"
  shows "to16 a \<noteq> to16 b"
proof
  assume "to16 a = to16 b"
  then have b: "b = v4_in_v6_prefix @ a" using assms(1,4) by (simp add: to16_def)
  have "drop 4 (mask_bytes 16 p) = replicate 12 0"
    using mask_bytes_drop [of 4 16 p] assms(3) by (simp add: mask_bytes_0)
  then have "drop 4 (mask_bytes 16 p) ! 6 = 0" by simp
  then have "mask_bytes 16 p ! 10 = 0" by simp
  moreover have "b ! 10 = b ! 10 AND mask_bytes 16 p ! 10"
    by (subst assms(2) [symmetric]) (simp add: assms(1))
  moreover have "b ! 10 = 0xff" by (simp add: b v4_in_v6_prefix_def nth_append)
  ultimately show False by simp
qed

text \<open>Two parsed networks with the same text are the same, in whatever notation they were given.\<close>

lemma CIDR_String_inj:
  assumes "ParseIPNet s = Inr n" and "ParseIPNet t = Inr m" and "CIDR_String n = CIDR_String m"
  shows "n = m"
proof -
  from assms(1) obtain l p where l: "l = 4 \<or> l = 16" "p \<le> 8 * l" "length (net_ip n) = l"
    "map2 (AND) (net_ip n) (mask_bytes l p) = net_ip n" "net_mask n = mask_bytes l p"
    "CIDR_String n = ip_string (net_ip n) @ CHR ''/'' # dec_string p"
    by (rule parsed_shape)
  from assms(2) obtain k q where k: "k = 4 \<or> k = 16" "q \<le> 8 * k" "length (net_ip m) = k"
    "map2 (AND) (net_ip m) (mask_bytes k q) = net_ip m" "net_mask m = mask_bytes k q"
    "CIDR_String m = ip_string (net_ip m) @ CHR ''/'' # dec_string q"
    by (rule parsed_shape)
  have eq: "ip_string (net_ip n) = ip_string (net_ip m)" "q = p"
    using last_slash [of "ip_string (net_ip n)" "CHR ''/''" "dec_string p" "ip_string (net_ip m)" "dec_string q"]
      assms(3) l(6) k(6) by (simp_all add: no_slash_dec)
  have to16: "to16 (net_ip n) = to16 (net_ip m)"
    using eq(1) parse_ip_printed [of "net_ip n"] parse_ip_printed [of "net_ip m"] l(1,3) k(1,3) by auto
  have "l = k"
  proof (rule ccontr)
    assume "l \<noteq> k"
    then have "l = 4 \<and> k = 16 \<or> l = 16 \<and> k = 4" using l(1) k(1) by auto
    then show False
    proof (elim disjE conjE)
      assume "l = 4" "k = 16"
      then show False using mapped_long [of "net_ip m" p "net_ip n"] to16 l k eq(2) by simp
    next
      assume "l = 16" "k = 4"
      then show False using mapped_long [of "net_ip n" p "net_ip m"] to16 l k eq(2) by simp
    qed
  qed
  then have "net_ip n = net_ip m" using to16 l(1,3) k(3) by (auto simp: to16_def)
  then show ?thesis using l(5) k(5) eq(2) \<open>l = k\<close> by simp
qed

lemma mask_string_inj: "mask_string (mask_bytes l p) = mask_string (mask_bytes k q) \<Longrightarrow> 0 < l \<Longrightarrow> 0 < k \<Longrightarrow> mask_bytes l p = mask_bytes k q"
proof -
  have "concat (map hex2 a) = concat (map hex2 b) \<Longrightarrow> a = b" for a b
  proof (induction a arbitrary: b)
    case Nil
    then show ?case by (cases b) (auto simp: hex2_def)
  next
    case (Cons x a)
    then obtain y c where b: "b = y # c" by (cases b) (auto simp: hex2_def)
    have "length (hex2 x) = length (hex2 y)" by (simp add: hex2_def)
    then show ?case using Cons b by (simp add: hex2_inj)
  qed
  moreover assume "mask_string (mask_bytes l p) = mask_string (mask_bytes k q)" "0 < l" "0 < k"
  ultimately show ?thesis by (metis length_0_conv less_irrefl mask_bytes_length mask_string_def)
qed

lemma CIDR_Equal_iff:
  assumes "ParseIPNet s = Inr n" and "ParseIPNet t = Inr m"
  shows "CIDR_Equal n m \<longleftrightarrow> n = m"
proof
  from assms(1) obtain l p where l: "l = 4 \<or> l = 16" "length (net_ip n) = l" "net_mask n = mask_bytes l p"
    by (rule parsed_shape)
  from assms(2) obtain k q where k: "k = 4 \<or> k = 16" "length (net_ip m) = k" "net_mask m = mask_bytes k q"
    by (rule parsed_shape)
  assume eq: "CIDR_Equal n m"
  then have masks: "net_mask n = net_mask m"
    using mask_string_inj [of l p k q] l k by (auto simp: CIDR_Equal_def)
  then have "l = k" using l(3) k(3) by (metis mask_bytes_length)
  with eq masks show "n = m" using l k by (simp add: CIDR_Equal_def ip_equal_def)
qed (simp add: CIDR_Equal_def ip_equal_def)

end
