(* ===== verification/Server_Values_Proofs.thy ===== *)
theory Server_Values_Proofs
  imports Server_Values CIDR_Text Double_NAT
begin

text \<open>
  The values of a server's OpenVPN configuration: the routes, their number, and the tunnel networks
  of the servers of a shoot.
\<close>

section \<open>Sorting and compacting\<close>

lemma compact_from_eq:
  "\<forall>x \<in> set (p # xs). \<forall>y \<in> set (p # xs). eq x y = (x = y) \<Longrightarrow> p # compact_from eq p xs = remdups_adj (p # xs)"
  by (induction xs arbitrary: p) (auto simp: remdups_adj_Cons')

lemma CompactFunc_eq: "\<forall>x \<in> set xs. \<forall>y \<in> set xs. eq x y = (x = y) \<Longrightarrow> CompactFunc eq xs = remdups_adj xs"
  by (cases xs) (auto intro!: compact_from_eq)

lemma distinct_compacted:
  "sorted (map f xs) \<Longrightarrow> inj_on f (set xs) \<Longrightarrow> distinct (remdups_adj xs)"
proof (induction xs rule: remdups_adj.induct)
  case (3 x y xs)
  have "x \<notin> set (y # xs)" if "x \<noteq> y"
  proof
    assume "x \<in> set (y # xs)"
    then have "f y \<le> f x" using 3(3) by auto
    moreover have "f x \<le> f y" using 3(3) by simp
    ultimately show False using that 3(4) by (auto simp: inj_on_def)
  qed
  moreover have "distinct (remdups_adj (y # xs))" if "x \<noteq> y"
    using 3(2) [OF that] 3(3,4) by (simp add: inj_on_insert)
  moreover have "distinct (remdups_adj (x # xs))" if "x = y"
    using 3(1) [OF that] 3(3,4) that by (simp add: inj_on_insert)
  ultimately show ?case by auto
qed auto

lemma sorted_compacted: "sorted (map f xs) \<Longrightarrow> sorted (map f (remdups_adj xs))"
  by (induction xs rule: remdups_adj.induct) auto

section \<open>The result of a successful call\<close>

definition do_netmap :: "VPNServer \<Rightarrow> bool" where
  "do_netmap cfg \<longleftrightarrow> \<not> fst (getHAInfo cfg) \<or> OverLapAny (srv_SeedPodNetwork cfg) (srv_networks cfg)"

lemma BuildValues_cases:
  assumes "BuildValues rng sorter cfg = Inr v"
  obtains tunnel where "getHAInfo cfg = (srv_IsHA cfg, sv_VPNIndex v)"
    and "(if srv_IsHA cfg then net_result (HAVPNTunnelNetwork (net_ip (srv_VPNNetwork cfg)) (sv_VPNIndex v))
          else Inr (srv_VPNNetwork cfg)) = Inr (sv_OpenVPNNetwork v)"
    and "sv_ShootNetworks v = server_networks rng sorter cfg (do_netmap cfg)"
    and "sv_ShootNetworksV4 v = filter (\<lambda>n. to4 (net_ip n) \<noteq> None) (sv_ShootNetworks v)"
    and "sv_ShootNetworksV6 v = filter (\<lambda>n. \<not> to4 (net_ip n) \<noteq> None) (sv_ShootNetworks v)"
    and "sv_MaxRoutesPerClient v = max_routes cfg" and "sv_SeedPodNetwork v = srv_SeedPodNetwork cfg"
    and "sv_IsHA v = srv_IsHA cfg"
    and "sv_Device v = (if srv_IsHA cfg then TapDevice else TunnelDevice)"
    and "sv_HAVPNClients v = (if srv_IsHA cfg then srv_HAVPNClients cfg else -1)"
proof -
  obtain ha index where ha: "getHAInfo cfg = (ha, index)" by fastforce
  let ?nw = "srv_VPNNetwork cfg"
  have ok: "net_ip ?nw \<noteq> []" "\<not> CIDR_IsIPv4 ?nw" "fst (mask_size (net_mask ?nw)) = VPNNetworkMask" "ha = srv_IsHA cfg"
    using assms ha by (auto simp: BuildValues_def Let_def split: if_splits)
  let ?t = "if ha then net_result (HAVPNTunnelNetwork (net_ip ?nw) index) else Inr ?nw"
  have run: "BuildValues rng sorter cfg = bind_r ?t (\<lambda>tunnel.
      (let doNetmap = (\<not> ha \<or> OverLapAny (srv_SeedPodNetwork cfg) (srv_networks cfg));
           nws = server_networks rng sorter cfg doNetmap
       in Inr \<lparr>sv_Device = (if ha then TapDevice else TunnelDevice), sv_StatusPath = srv_StatusPath cfg,
            sv_OpenVPNNetwork = tunnel, sv_ShootNetworks = nws,
            sv_ShootNetworksV4 = filter (\<lambda>n. to4 (net_ip n) \<noteq> None) nws,
            sv_ShootNetworksV6 = filter (\<lambda>n. \<not> to4 (net_ip n) \<noteq> None) nws,
            sv_SeedPodNetwork = srv_SeedPodNetwork cfg,
            sv_HAVPNClients = (if ha then srv_HAVPNClients cfg else -1), sv_IsHA = ha, sv_VPNIndex = index,
            sv_LocalNodeIP = '''', sv_TunMTU = 0, sv_MaxRoutesPerClient = max_routes cfg\<rparr>))"
    unfolding BuildValues_def Let_def using ok by (simp add: ha)
  then obtain tunnel where "?t = Inr tunnel" using assms by (cases ?t) (simp_all add: result_simps)
  with run assms ha ok(4) show thesis
    by (intro that) (auto simp: result_simps do_netmap_def Let_def)
qed

lemma BuildValues_ok:
  assumes "BuildValues rng sorter cfg = Inr v"
  shows "sv_ShootNetworks v = server_networks rng sorter cfg (do_netmap cfg)"
    and "sv_ShootNetworksV4 v = filter CIDR_IsIPv4 (sv_ShootNetworks v)"
    and "sv_ShootNetworksV6 v = filter (\<lambda>n. \<not> CIDR_IsIPv4 n) (sv_ShootNetworks v)"
    and "sv_MaxRoutesPerClient v = max_routes cfg" and "sv_SeedPodNetwork v = srv_SeedPodNetwork cfg"
    and "getHAInfo cfg = (srv_IsHA cfg, sv_VPNIndex v)" and "sv_IsHA v = srv_IsHA cfg"
    and "sv_Device v = (if srv_IsHA cfg then TapDevice else TunnelDevice)"
    and "sv_HAVPNClients v = (if srv_IsHA cfg then srv_HAVPNClients cfg else -1)"
    and "srv_IsHA cfg \<Longrightarrow> HAVPNTunnelNetwork (net_ip (srv_VPNNetwork cfg)) (sv_VPNIndex v) = Inr (sv_OpenVPNNetwork v)"
proof -
  have v4: "CIDR_IsIPv4 = (\<lambda>n. to4 (net_ip n) \<noteq> None)" by (simp add: fun_eq_iff CIDR_IsIPv4_def)
  show "sv_ShootNetworks v = server_networks rng sorter cfg (do_netmap cfg)"
    "sv_MaxRoutesPerClient v = max_routes cfg" "sv_SeedPodNetwork v = srv_SeedPodNetwork cfg"
    "getHAInfo cfg = (srv_IsHA cfg, sv_VPNIndex v)" "sv_IsHA v = srv_IsHA cfg"
    "sv_Device v = (if srv_IsHA cfg then TapDevice else TunnelDevice)"
    "sv_HAVPNClients v = (if srv_IsHA cfg then srv_HAVPNClients cfg else -1)"
    by (rule BuildValues_cases [OF assms]; assumption)+
  show "sv_ShootNetworksV4 v = filter CIDR_IsIPv4 (sv_ShootNetworks v)"
    "sv_ShootNetworksV6 v = filter (\<lambda>n. \<not> CIDR_IsIPv4 n) (sv_ShootNetworks v)"
    unfolding v4 by (rule BuildValues_cases [OF assms]; assumption)+
  show "HAVPNTunnelNetwork (net_ip (srv_VPNNetwork cfg)) (sv_VPNIndex v) = Inr (sv_OpenVPNNetwork v)" if "srv_IsHA cfg"
    by (rule BuildValues_cases [OF assms]) (use that in \<open>auto simp: net_result_def split: sum.splits\<close>)
qed

section \<open>The routes\<close>

text \<open>The networks a server routes: those of the shoot, the IPv4 ones mapped where it is needed.\<close>

definition routed_set :: "mapped_ranges \<Rightarrow> VPNServer \<Rightarrow> CIDR set" where
  "routed_set rng cfg =
     (\<Union>(nws, mapped) \<in> {(srv_ShootServiceNetworks cfg, ShootServiceNetworkMapped rng),
        (srv_ShootPodNetworks cfg, ShootPodNetworkMapped rng), (srv_ShootNodeNetworks cfg, ShootNodeNetworkMapped rng)}.
      (\<lambda>n. if CIDR_IsIPv4 n \<and> do_netmap cfg then ParseIPNetIgnoreError mapped else n) ` set nws)"

definition ranges_parse :: "mapped_ranges \<Rightarrow> bool" where
  "ranges_parse rng \<longleftrightarrow> (\<forall>r \<in> {ShootServiceNetworkMapped rng, ShootPodNetworkMapped rng, ShootNodeNetworkMapped rng}.
     \<exists>D. ParseIPNet r = Inr D)"

lemma routed_set_unsorted:
  "routed_set rng cfg = set (map_networks (do_netmap cfg) (ShootServiceNetworkMapped rng) (srv_ShootServiceNetworks cfg) @
        map_networks (do_netmap cfg) (ShootPodNetworkMapped rng) (srv_ShootPodNetworks cfg) @
        map_networks (do_netmap cfg) (ShootNodeNetworkMapped rng) (srv_ShootNodeNetworks cfg))"
  by (simp add: routed_set_def map_networks_def CIDR_IsIPv4_def)

lemma routed_set_parsed:
  assumes "\<forall>n \<in> set (srv_networks cfg). \<exists>s. ParseIPNet s = Inr n" and "ranges_parse rng" and "n \<in> routed_set rng cfg"
  shows "\<exists>s. ParseIPNet s = Inr n"
  using assms by (fastforce simp: routed_set_def ranges_parse_def srv_networks_def ParseIPNetIgnoreError_def split: if_splits)

lemma BuildValues_compacted:
  assumes "go_sort sorter" and parsed: "\<forall>n \<in> routed_set rng cfg. \<exists>s. ParseIPNet s = Inr n"
    and "BuildValues rng sorter cfg = Inr v"
  shows "set (sv_ShootNetworks v) = routed_set rng cfg" and "distinct (map CIDR_String (sv_ShootNetworks v))"
    and "sorted (map CIDR_String (sv_ShootNetworks v))"
proof -
  let ?xs = "map_networks (do_netmap cfg) (ShootServiceNetworkMapped rng) (srv_ShootServiceNetworks cfg) @
        map_networks (do_netmap cfg) (ShootPodNetworkMapped rng) (srv_ShootPodNetworks cfg) @
        map_networks (do_netmap cfg) (ShootNodeNetworkMapped rng) (srv_ShootNodeNetworks cfg)"
  let ?ys = "sorter CIDR_String ?xs"
  have set: "set ?ys = routed_set rng cfg"
    using go_sort.sorter_set [OF assms(1)] by (simp only: routed_set_unsorted)
  have inj: "inj_on CIDR_String (set ?ys)"
    unfolding set by (rule inj_onI) (metis CIDR_String_inj parsed)
  have "CompactFunc CIDR_Equal ?ys = remdups_adj ?ys"
    by (rule CompactFunc_eq) (unfold set, metis CIDR_Equal_iff parsed)
  then have nws: "sv_ShootNetworks v = remdups_adj ?ys"
    using BuildValues_ok(1) [OF assms(3)] by (simp add: server_networks_def)
  have sorted: "sorted (map CIDR_String ?ys)" using go_sort.sorter_sorted [OF assms(1)] .
  show "distinct (map CIDR_String (sv_ShootNetworks v))"
    unfolding nws using distinct_compacted [OF sorted inj] inj by (simp add: distinct_map)
  show "set (sv_ShootNetworks v) = routed_set rng cfg" "sorted (map CIDR_String (sv_ShootNetworks v))"
    using nws set sorted_compacted [OF sorted] by simp_all
qed

text \<open>
  C27: the routes of a server whose networks were parsed from text are exactly those of the shoot,
  mapped where it is needed; none is there twice, they are sorted by their text, and the IPv4 and the
  IPv6 part together are all of them.
\<close>

theorem BuildValues_networks:
  assumes "go_sort sorter" and "\<forall>n \<in> set (srv_networks cfg). \<exists>s. ParseIPNet s = Inr n" and "ranges_parse rng"
    and "BuildValues rng sorter cfg = Inr v"
  shows "set (sv_ShootNetworks v) = routed_set rng cfg \<and> distinct (map CIDR_String (sv_ShootNetworks v)) \<and>
    sorted (map CIDR_String (sv_ShootNetworks v)) \<and>
    mset (sv_ShootNetworksV4 v) + mset (sv_ShootNetworksV6 v) = mset (sv_ShootNetworks v)"
  using BuildValues_compacted [OF assms(1) _ assms(4)] routed_set_parsed [OF assms(2,3)] BuildValues_ok(2,3) [OF assms(4)]
  by (simp add: multiset_partition [symmetric])

text \<open>
  C28: no route of a server overlaps the pod network of its seed, as long as the reserved ranges
  do not and the IPv6 networks of the shoot do not.
\<close>

theorem BuildValues_avoid_seed:
  assumes "go_sort sorter" and "BuildValues rng sorter cfg = Inr v"
    and "\<not> OverLapAny (sv_SeedPodNetwork v) (map ParseIPNetIgnoreError
      [ShootServiceNetworkMapped rng, ShootPodNetworkMapped rng, ShootNodeNetworkMapped rng])"
    and "\<not> OverLapAny (sv_SeedPodNetwork v) (filter (\<lambda>n. \<not> CIDR_IsIPv4 n) (srv_networks cfg))"
  shows "\<not> OverLapAny (sv_SeedPodNetwork v) (sv_ShootNetworks v)"
proof -
  have sub: "set (CompactFunc eq xs) \<subseteq> set xs" for eq and xs :: "CIDR list"
  proof -
    have "set (compact_from eq p xs) \<subseteq> set xs" for p xs by (induction xs arbitrary: p) auto
    then show ?thesis by (cases xs) auto
  qed
  then have "set (sv_ShootNetworks v) \<subseteq> routed_set rng cfg"
    using go_sort.sorter_set [OF assms(1)] unfolding BuildValues_ok(1) [OF assms(2)] server_networks_def routed_set_unsorted
    by blast
  moreover have "\<not> Overlap (sv_SeedPodNetwork v) n" if "n \<in> routed_set rng cfg" for n
    using that assms(3,4) BuildValues_ok(5) [OF assms(2)]
    by (fastforce simp: routed_set_def OverLapAny_iff do_netmap_def srv_networks_def split: if_splits)
  ultimately show ?thesis by (auto simp: OverLapAny_iff)
qed

section \<open>The number of routes\<close>

lemma foldl_plus: "foldl (+) (a :: int) xs = a + sum_list xs"
  by (induction xs arbitrary: a) auto

lemma CountHosts_nonneg: "0 \<le> CIDR_CountHosts c"
  by (simp add: CIDR_CountHosts_def Let_def split: prod.split)

text \<open>
  The bound on the number of routes is the number of addresses of the shoot, raised to 256 and
  lowered to 2^20; the detour over 64 bits does not change that.
\<close>

theorem BuildValues_max_routes:
  assumes "BuildValues rng sorter cfg = Inr v"
  shows "sv_MaxRoutesPerClient v = max 256 (min (2 ^ 20) (\<Sum>n\<leftarrow>srv_networks cfg. CIDR_CountHosts n))"
proof -
  have "0 \<le> (\<Sum>n\<leftarrow>srv_networks cfg. CIDR_CountHosts n)"
    by (rule sum_list_nonneg) (auto simp: CountHosts_nonneg)
  then show ?thesis
    using BuildValues_ok(4) [OF assms]
    by (simp add: max_routes_def foldl_plus RoutesPerClientMax_def RoutesPerClientMin_def Let_def max_def min_def)
qed

section \<open>The servers of a shoot\<close>

lemma getHAInfo_iff:
  "getHAInfo cfg = (True, i) \<longleftrightarrow> i \<in> {0, 1, 2} \<and> (\<exists>b. srv_PodName cfg = b @ ''-'' @ int_string i)"
proof -
  have digit: "d \<in> set ''012'' \<longleftrightarrow> d = CHR ''0'' \<or> d = CHR ''1'' \<or> d = CHR ''2''" for d by auto
  have atoi: "Atoi ''0'' = Some 0" "Atoi ''1'' = Some 1" "Atoi ''2'' = Some 2"
    by (simp_all add: Atoi_def parse_dec_def net_eval)
  have print: "int_string 0 = ''0''" "int_string 1 = ''1''" "int_string 2 = ''2''"
    by (simp_all add: int_string_def net_eval)
  show ?thesis
  proof
    assume info: "getHAInfo cfg = (True, i)"
    then obtain d r where d: "rev (srv_PodName cfg) = d # CHR ''-'' # r" "d \<in> set ''012''"
      "i = (case Atoi [d] of Some index \<Rightarrow> index | None \<Rightarrow> 0)"
      by (auto simp: getHAInfo_def Let_def split: if_splits list.splits)
    have "srv_PodName cfg = rev r @ ''-'' @ [d]"
      using arg_cong [OF d(1), of rev] by simp
    then show "i \<in> {0, 1, 2} \<and> (\<exists>b. srv_PodName cfg = b @ ''-'' @ int_string i)"
      using d(2,3) unfolding digit by (auto simp: atoi print)
  next
    assume "i \<in> {0, 1, 2} \<and> (\<exists>b. srv_PodName cfg = b @ ''-'' @ int_string i)"
    then show "getHAInfo cfg = (True, i)"
      by (auto simp: getHAInfo_def Let_def atoi print)
  qed
qed

text \<open>
  C29: two highly available servers with the same VPN network and different numbers at the end of
  their pod names get tunnel networks that share no address; each lies in the VPN network.
\<close>

theorem BuildValues_tunnels_apart:
  assumes "ParseIPNet s = Inr n" and "validateVPNNetworkCIDR n = None" and "take 12 (net_ip n) \<noteq> v4_in_v6_prefix"
    and "srv_VPNNetwork cfg = n" and "srv_VPNNetwork cfg' = n" and "srv_IsHA cfg" and "srv_IsHA cfg'"
    and "BuildValues rng sorter cfg = Inr v" and "BuildValues rng sorter cfg' = Inr v'"
    and "srv_PodName cfg = b @ ''-'' @ int_string i" and "srv_PodName cfg' = b' @ ''-'' @ int_string j" and "i \<noteq> j"
    and "i \<in> {0, 1, 2}" and "j \<in> {0, 1, 2}"
  shows "\<not> (net_contains (sv_OpenVPNNetwork v) x \<and> net_contains (sv_OpenVPNNetwork v') x) \<and>
    (net_contains (sv_OpenVPNNetwork v) x \<longrightarrow> net_contains n x)"
proof -
  have "getHAInfo cfg = (True, i)" "getHAInfo cfg' = (True, j)"
    unfolding getHAInfo_iff using assms(10-14) by blast+
  then have t: "HAVPNTunnelNetwork (net_ip n) i = Inr (sv_OpenVPNNetwork v)"
    "HAVPNTunnelNetwork (net_ip n) j = Inr (sv_OpenVPNNetwork v')"
    using BuildValues_ok(6,10) [OF assms(8)] BuildValues_ok(6,10) [OF assms(9)] assms(4-7) by simp_all
  have "0 \<le> i" "i < 256" "0 \<le> j" "j < 256" using assms(13,14) by auto
  then obtain c where "\<forall>x. net_contains (sv_OpenVPNNetwork v) x \<longrightarrow> net_contains n x"
    "i \<noteq> j \<longrightarrow> (\<forall>x. \<not> (net_contains (sv_OpenVPNNetwork v) x \<and> net_contains (sv_OpenVPNNetwork v') x))"
    using HAVPN_apart [OF assms(1-3), of i j 1 0] t by auto
  then show ?thesis using assms(12) by blast
qed

section \<open>Witnesses\<close>

text \<open>A highly available server with the default networks and with one network given twice.\<close>

definition ha_server :: "string \<Rightarrow> VPNServer" where
  "ha_server name = \<lparr>srv_ShootServiceNetworks = [default_services], srv_ShootPodNetworks = [default_pods, default_pods],
     srv_ShootNodeNetworks = [], srv_VPNNetwork = vpn_nw, srv_SeedPodNetwork = default_pods, srv_PodName = name,
     srv_StatusPath = ''/srv/status/openvpn.status'', srv_IsHA = True, srv_HAVPNClients = 2, srv_LocalNodeIP = ''255.255.255.255'',
     srv_AutoMTU = False\<rparr>"

lemma ha_server_values:
  assumes "getHAInfo (ha_server name) = (True, i)"
  shows "\<exists>v. BuildValues default_ranges sort_key (ha_server name) = Inr v"
proof -
  have "to16 (net_ip vpn_nw) = Some (net_ip vpn_nw)" "\<not> CIDR_IsIPv4 vpn_nw" "net_ip vpn_nw \<noteq> []"
    by (simp_all add: vpn_nw_def to16_def CIDR_IsIPv4_def to4_def v4_in_v6_prefix_def)
  moreover have "fst (mask_size (net_mask vpn_nw)) = VPNNetworkMask"
    by (simp add: vpn_nw_def mask_size_mask_bytes_16 VPNNetworkMask_def)
  moreover have "srv_VPNNetwork (ha_server name) = vpn_nw" "srv_IsHA (ha_server name)" by (simp_all add: ha_server_def)
  ultimately show ?thesis
    using assms by (simp add: BuildValues_def HAVPNTunnelNetwork_def net_result_def result_simps Let_def)
qed

lemma ha_server_name: "i \<in> {0, 1, 2} \<Longrightarrow> getHAInfo (ha_server (b @ ''-'' @ int_string i)) = (True, i)"
  unfolding getHAInfo_iff by (auto simp: ha_server_def)

lemma ha_server_info: "getHAInfo (ha_server ''vpn-seed-server-0'') = (True, 0)" "getHAInfo (ha_server ''vpn-seed-server-1'') = (True, 1)"
  using ha_server_name [of 0 "''vpn-seed-server''"] ha_server_name [of 1 "''vpn-seed-server''"]
  by (simp_all add: int_string_def net_eval)

lemma ha_server_parsed: "\<forall>n \<in> set (srv_networks (ha_server name)). \<exists>s. ParseIPNet s = Inr n"
  using default_parse(4,5) by (auto simp: srv_networks_def ha_server_def)

lemma ha_server_netmap: "do_netmap (ha_server name)"
proof -
  have "Overlap default_pods default_pods"
    by (simp add: Overlap_def CIDR_ToIPNet_def default_pods_def net_contains_def network_number_and_mask_def)
  then show ?thesis by (auto simp: do_netmap_def ha_server_def srv_networks_def OverLapAny_iff)
qed

lemma ha_server_routed: "routed_set default_ranges (ha_server name) = {net8 243, net8 244}"
  using ha_server_netmap [of name]
  by (auto simp: routed_set_def ha_server_def default_ranges_def ParseIPNetIgnoreError_def default_parse CIDR_IsIPv4_def
      default_services_def default_pods_def)

theorem ParseIPNet_String_roundtrip_witness:
  "ParseIPNet (CIDR_String \<lparr>net_ip = [100, 64, 0, 0], net_mask = [255, 248, 0, 0]\<rparr>) =
     Inr \<lparr>net_ip = [100, 64, 0, 0], net_mask = [255, 248, 0, 0]\<rparr>"
  using ParseIPNet_String_roundtrip [OF default_parse(4)] by (simp add: default_services_def)

theorem BuildValues_networks_witness:
  "\<exists>v. BuildValues default_ranges sort_key (ha_server ''vpn-seed-server-0'') = Inr v \<and>
     set (sv_ShootNetworks v) = {net8 243, net8 244} \<and> length (sv_ShootNetworks v) = 2"
proof -
  obtain v where v: "BuildValues default_ranges sort_key (ha_server ''vpn-seed-server-0'') = Inr v"
    using ha_server_values [OF ha_server_info(1)] by blast
  have "ranges_parse default_ranges"
    using default_parse by (auto simp: ranges_parse_def default_ranges_def)
  from BuildValues_networks [OF insertion_sort.go_sort_axioms ha_server_parsed this v]
  have set: "set (sv_ShootNetworks v) = {net8 243, net8 244}" "distinct (sv_ShootNetworks v)"
    by (simp_all add: ha_server_routed distinct_map)
  moreover have "card {net8 243, net8 244} = 2" by (simp add: net8_def)
  ultimately show ?thesis using v by (metis distinct_card)
qed

theorem BuildValues_avoid_seed_witness:
  "\<exists>v. BuildValues default_ranges sort_key (ha_server ''vpn-seed-server-0'') = Inr v \<and>
     \<not> OverLapAny default_pods (sv_ShootNetworks v)"
proof -
  obtain v where v: "BuildValues default_ranges sort_key (ha_server ''vpn-seed-server-0'') = Inr v"
    using ha_server_values [OF ha_server_info(1)] by blast
  have seed: "sv_SeedPodNetwork v = default_pods"
    using BuildValues_ok(5) [OF v] by (simp add: ha_server_def)
  have "\<not> Overlap default_pods (net8 b)" if "b \<in> {242, 243, 244}" for b
    using that
    by (auto simp: Overlap_def CIDR_ToIPNet_def default_pods_def net8_def net_contains_def network_number_and_mask_def)
  moreover have "filter (\<lambda>n. \<not> CIDR_IsIPv4 n) (srv_networks (ha_server ''vpn-seed-server-0'')) = []"
    by (simp add: srv_networks_def ha_server_def CIDR_IsIPv4_def default_services_def default_pods_def)
  ultimately show ?thesis
    using BuildValues_avoid_seed [OF insertion_sort.go_sort_axioms v] v
    by (simp add: seed OverLapAny_iff default_ranges_def ParseIPNetIgnoreError_def default_parse)
qed

theorem BuildValues_max_routes_witness:
  "\<exists>v. BuildValues default_ranges sort_key (ha_server ''vpn-seed-server-0'') = Inr v \<and> sv_MaxRoutesPerClient v = 2 ^ 20"
proof -
  obtain v where v: "BuildValues default_ranges sort_key (ha_server ''vpn-seed-server-0'') = Inr v"
    using ha_server_values [OF ha_server_info(1)] by blast
  have "(\<Sum>n\<leftarrow>srv_networks (ha_server ''vpn-seed-server-0''). CIDR_CountHosts n) = 4718586"
    by (simp add: srv_networks_def ha_server_def CIDR_CountHosts_def default_services_def default_pods_def net_eval)
  then show ?thesis using BuildValues_max_routes [OF v] v by simp
qed

theorem BuildValues_tunnels_apart_witness:
  "\<exists>v v'. BuildValues default_ranges sort_key (ha_server ''vpn-seed-server-0'') = Inr v \<and>
     BuildValues default_ranges sort_key (ha_server ''vpn-seed-server-1'') = Inr v' \<and>
     \<not> (net_contains (sv_OpenVPNNetwork v) [0xfd, 0x8f, 0x6d, 0x53, 0xb9, 0x7a, 0, 1, 0, 0, 0, 0, 1, 0, 0, 2] \<and>
        net_contains (sv_OpenVPNNetwork v') [0xfd, 0x8f, 0x6d, 0x53, 0xb9, 0x7a, 0, 1, 0, 0, 0, 0, 1, 0, 0, 2])"
proof -
  obtain v v' where v: "BuildValues default_ranges sort_key (ha_server ''vpn-seed-server-0'') = Inr v"
    "BuildValues default_ranges sort_key (ha_server ''vpn-seed-server-1'') = Inr v'"
    using ha_server_values [OF ha_server_info(1)] ha_server_values [OF ha_server_info(2)] by blast
  have n: "ParseIPNet ''fd8f:6d53:b97a:1::/96'' = Inr vpn_nw" "validateVPNNetworkCIDR vpn_nw = None"
    "take 12 (net_ip vpn_nw) \<noteq> v4_in_v6_prefix"
    using example_vpn_net example_vpn_net_ok by (simp_all add: vpn_nw_def)
  have "srv_PodName (ha_server ''vpn-seed-server-0'') = ''vpn-seed-server'' @ ''-'' @ int_string 0"
    "srv_PodName (ha_server ''vpn-seed-server-1'') = ''vpn-seed-server'' @ ''-'' @ int_string 1"
    by (simp_all add: ha_server_def int_string_def net_eval)
  from BuildValues_tunnels_apart [OF n _ _ _ _ v this] v show ?thesis
    by (auto simp: ha_server_def)
qed

end
