(* ===== verification/Client_Setup.thy ===== *)
theory Client_Setup
  imports Machine IP_Pool
begin

text \<open>
  How a client prepares its host: kernel settings (\<^verbatim>\<open>pkg/vpn_client/sysctl.go\<close>), the bonding
  device over the tap devices (\<^verbatim>\<open>bonding.go\<close>) and the removal of addresses of an earlier run
  (\<^verbatim>\<open>cleanup.go\<close>).  The libraries \<^verbatim>\<open>sysctl\<close> and \<^verbatim>\<open>netlink\<close> are parameters.
\<close>

section \<open>Kernel settings (\<^verbatim>\<open>sysctl.go\<close>)\<close>

text \<open>Setting one value after the other, up to the first error.\<close>

definition set_all :: "'w sysctl \<Rightarrow> (string \<times> string) list \<Rightarrow> (go_error, 'w) effect" where
  "set_all ctl settings = each (\<lambda>(k, v). SysSet ctl k v) settings"

definition EnableIPv6Networking :: "'w sysctl \<Rightarrow> (go_error, 'w) effect" where
  "EnableIPv6Networking ctl w =
     (case SysGet ctl ''net.ipv6.conf.all.disable_ipv6'' w of
        (Inl e, w1) \<Rightarrow> (Some (Wrapf ''failed to read net.ipv6.conf.all.disable_ipv6: %w'' [] e), w1)
      | (Inr strVal, w1) \<Rightarrow>
          (case Atoi strVal of
             None \<Rightarrow> (Some (Wrapf ''failed to parse net.ipv6.conf.all.disable_ipv6 value %q: %w'' [strVal]
                             (Foreign ''strconv.ParseInt'')), w1)
           | Some v \<Rightarrow>
               if v = 1
               then wrapping (Wrapf ''failed to enable IPv6 networking: %w (hint: container may need to be privileged)'' [])
                      (SysSet ctl ''net.ipv6.conf.all.disable_ipv6'' ''0'') w1
               else (None, w1)))"

definition DisableMartianLogging :: "'w sysctl \<Rightarrow> (go_error, 'w) effect" where
  "DisableMartianLogging ctl = set_all ctl
     [(''net.ipv4.conf.all.log_martians'', ''0''), (''net.ipv4.conf.default.log_martians'', ''0'')]"

definition DisableRpFilter :: "'w sysctl \<Rightarrow> (go_error, 'w) effect" where
  "DisableRpFilter ctl = set_all ctl
     [(''net.ipv4.conf.all.rp_filter'', ''0''), (''net.ipv4.conf.default.rp_filter'', ''0'')]"

definition EnableIPForwarding :: "'w sysctl \<Rightarrow> (go_error, 'w) effect" where
  "EnableIPForwarding ctl = set_all ctl
     [(''net.ipv4.ip_forward'', ''1''), (''net.ipv6.conf.all.forwarding'', ''1'')]"

definition ConntrackSettings :: "'w sysctl \<Rightarrow> (go_error, 'w) effect" where
  "ConntrackSettings ctl = set_all ctl
     [(''net.ipv4.ip_local_port_range'', ''1024 65535''),
      (''net.ipv4.tcp_tw_reuse'', ''1''),
      (''net.ipv4.tcp_fin_timeout'', ''30''),
      (''net.netfilter.nf_conntrack_tcp_timeout_established'', ''600''),
      (''net.netfilter.nf_conntrack_tcp_timeout_syn_sent'', ''30''),
      (''net.netfilter.nf_conntrack_tcp_timeout_syn_recv'', ''30''),
      (''net.netfilter.nf_conntrack_tcp_timeout_fin_wait'', ''30''),
      (''net.netfilter.nf_conntrack_tcp_timeout_time_wait'', ''30''),
      (''net.netfilter.nf_conntrack_tcp_timeout_close_wait'', ''30''),
      (''net.netfilter.nf_conntrack_tcp_timeout_unacknowledged'', ''60''),
      (''net.netfilter.nf_conntrack_tcp_timeout_max_retrans'', ''120'')]"

definition tab :: string where "tab = [CHR 0x09]"

definition BufferSettings :: "'w sysctl \<Rightarrow> (go_error, 'w) effect" where
  "BufferSettings ctl = set_all ctl
     [(''net.ipv4.tcp_wmem'', ''65536'' @ tab @ ''12582912'' @ tab @ ''16777216''),
      (''net.ipv4.tcp_rmem'', ''65536'' @ tab @ ''12582912'' @ tab @ ''16777216'')]"

definition KernelSettings :: "'w sysctl \<Rightarrow> VPNClient \<Rightarrow> (go_error, 'w) effect" where
  "KernelSettings ctl cfg =
     and_then (DisableMartianLogging ctl)
    (and_then (DisableRpFilter ctl)
    (and_then (BufferSettings ctl)
     (if \<not> IsShootClient cfg then EnableIPv6Networking ctl
      else and_then (ConntrackSettings ctl) (EnableIPForwarding ctl))))"

section \<open>Cleaning up (\<^verbatim>\<open>cleanup.go\<close>)\<close>

definition AF_INET6 :: int where "AF_INET6 = 10"

text \<open>\<open>show_addr\<close> is how the library prints an address.\<close>

definition Cleanup :: "'w netlink \<Rightarrow> (Addr \<Rightarrow> string) \<Rightarrow> string \<Rightarrow> (go_error, 'w) effect" where
  "Cleanup nl show_addr device w =
     (case LinkByName nl device w of
        (Inl (LinkNotFoundError _), w1) \<Rightarrow> (None, w1)
      | (Inl (LinkOtherError e), w1) \<Rightarrow> (Some (Wrapf ''failed to get link %s: %w'' [device] e), w1)
      | (Inr tuntap, w1) \<Rightarrow>
          (case AddrList nl tuntap AF_INET6 w1 of
             (Inl e, w2) \<Rightarrow> (Some (Wrapf ''failed to list addresses for link %s: %w'' [device] e), w2)
           | (Inr addr, w2) \<Rightarrow>
               if addr = [] then (None, w2)
               else and_then
                 (wrapping (Wrapf ''failed to set link %s down: %w'' [device]) (LinkSetDown nl tuntap))
                 (each (\<lambda>a. wrapping (Wrapf ''failed to delete address %s from link %s: %w'' [show_addr a, device])
                              (AddrDel nl tuntap a)) addr) w2))"

section \<open>Bonding (\<^verbatim>\<open>bonding.go\<close>)\<close>

definition IFA_F_NODAD :: int where "IFA_F_NODAD = 2"

text \<open>
  The address of the bonding device: computed for a shoot client, acquired from the pool for a seed
  client.
\<close>

definition bonding_address ::
  "'w Runtime \<Rightarrow> 'w kubernetes \<Rightarrow> VPNClient \<Rightarrow> 'w \<Rightarrow> (go_error + ipnet) \<times> 'w"
where
  "bonding_address rt k cfg w =
     (if IsShootClient cfg
      then (net_result (BondingShootClientAddress (CIDR_ToIPNet (VPNNetwork cfg)) (VPNClientIndex cfg)), w)
      else (case NewPodIPPoolManager k (Namespace cfg) (PodLabelSelector cfg) w of
              (Inl e, w1) \<Rightarrow> (Inl e, w1)
            | (Inr m, w1) \<Rightarrow>
                (case NewIPAddressBroker m cfg of
                   Inl e \<Rightarrow> (Inl e, w1)
                 | Inr broker \<Rightarrow>
                     (case AcquireIP rt broker w1 of
                        (Inl e, _, w2) \<Rightarrow> (Inl (Wrapf ''failed to acquire ip: %w'' [] e), w2)
                      | (Inr acquiredIP, _, w2) \<Rightarrow>
                          (case parse_ip acquiredIP of
                             None \<Rightarrow> (Inl (Errorf ''acquired ip %s is not a valid ipv6 nor ipv4'' [''<nil>'']), w2)
                           | Some a \<Rightarrow> (Inr (BondingAddressForClient a), w2))))))"

definition tunnel_mtu :: "'w netlink \<Rightarrow> VPNClient \<Rightarrow> 'w \<Rightarrow> (go_error + int) \<times> 'w" where
  "tunnel_mtu nl cfg w =
     (if AutoMTU cfg
      then (case DetectTunnelMTU nl TunnelMTUOverhead w of
              (Inl e, w1) \<Rightarrow> (Inl (Wrapf ''failed to detect tunnel MTU: %w'' [] e), w1)
            | (Inr m, w1) \<Rightarrow> (Inr m, w1))
      else (Inr 0, w))"

definition tap_name :: "nat \<Rightarrow> string" where
  "tap_name i = ''tap'' @ dec_string i"

definition create_tap :: "'w netlink \<Rightarrow> int \<Rightarrow> nat \<Rightarrow> (go_error, 'w) effect" where
  "create_tap nl tunnelMTU i =
     (let linkDev = TuntapTap (NewLinkAttrs (tap_name i))
      in and_then (DeleteLinkByName nl (tap_name i))
        (and_then (LinkAdd nl linkDev)
                  (if tunnelMTU > 0
                   then wrapping (Wrapf ''failed to set MTU on %s: %w'' [tap_name i]) (LinkSetMTU nl linkDev tunnelMTU)
                   else skip)))"

text \<open>The options of the bonding device; \<^verbatim>\<open>NewLinkBond\<close> sets those the code does not to -1.\<close>

definition bond_options :: "'w netlink \<Rightarrow> VPNClient \<Rightarrow> 'w \<Rightarrow> (go_error + BondOptions) \<times> 'w" where
  "bond_options nl cfg w =
     (if BondingModeName cfg = BondingModeActiveBackup
      then (case LinkByName nl TapDevice w of
              (Inl e, w1) \<Rightarrow> (Inl (Wrapf ''failed to get link %s: %w'' [TapDevice] (as_error e)), w1)
            | (Inr tap0Link, w1) \<Rightarrow>
                (Inr \<lparr>BondingMode = BOND_MODE_ACTIVE_BACKUP, FailOverMacActive = True, Miimon = 100, UseCarrier = 1,
                      Primary = Index (Attrs tap0Link), NumPeerNotif = 5\<rparr>, w1))
      else if BondingModeName cfg = BondingModeBalanceRR
      then (Inr \<lparr>BondingMode = BOND_MODE_BALANCE_RR, FailOverMacActive = False, Miimon = 100, UseCarrier = -1,
                 Primary = -1, NumPeerNotif = -1\<rparr>, w)
      else (Inl (Errorf ''unsupported bonding mode: %s'' [BondingModeName cfg]), w))"

definition enslave :: "'w netlink \<Rightarrow> Link \<Rightarrow> nat \<Rightarrow> (go_error, 'w) effect" where
  "enslave nl bond i w =
     (case LinkByName nl (tap_name i) w of
        (Inl e, w1) \<Rightarrow> (Some (Wrapf ''failed to get link %s: %w'' [tap_name i] (as_error e)), w1)
      | (Inr link, w1) \<Rightarrow>
          wrapping (Wrapf ''failed to set %s as master for link %s: %w'' [BondDevice, tap_name i])
            (LinkSetMaster nl link bond) w1)"

definition seed_tunnel :: "'w netlink \<Rightarrow> VPNClient \<Rightarrow> ipnet \<Rightarrow> nat \<Rightarrow> (go_error, 'w) effect" where
  "seed_tunnel nl cfg addr i =
     (let ip6tnlName = BondIP6TunnelLinkName (int i)
      in and_then
          (wrapping (Wrapf ''failed to delete link %s: %w'' [ip6tnlName]) (DeleteLinkByName nl ip6tnlName))
          (case BondingShootClientIP (CIDR_ToIPNet (VPNNetwork cfg)) (int i) of
             Inl e \<Rightarrow> fail (NetError e)
           | Inr remote \<Rightarrow>
               wrapping (Wrapf ''failed to create tunnel ip6-net link: %w'' []) (CreateTunnel nl ip6tnlName (net_ip addr) remote)))"

definition configure_bond :: "'w netlink \<Rightarrow> VPNClient \<Rightarrow> int \<Rightarrow> ipnet \<Rightarrow> BondOptions \<Rightarrow> (go_error, 'w) effect" where
  "configure_bond nl cfg tunnelMTU addr opts =
     (let bond = Bond (NewLinkAttrs BondDevice) opts
      in and_then (wrapping (Wrapf ''failed to create %s link device: %w'' [BondDevice]) (LinkAdd nl bond))
        (and_then (each (enslave nl bond) [0..<HAVPNServers cfg])
        (and_then (if tunnelMTU > 0
                   then wrapping (Wrapf ''failed to set MTU on %s: %w'' [BondDevice]) (LinkSetMTU nl bond tunnelMTU)
                   else skip)
        (and_then (wrapping (Wrapf ''failed to up %s link: %w'' [BondDevice]) (LinkSetUp nl bond))
        (and_then (wrapping (Wrapf ''failed to add address %s to %s link: %w'' [ipnet_string addr, BondDevice])
                     (AddrAdd nl bond \<lparr>AddrNet = addr, Flags = IFA_F_NODAD, Scope = 0\<rparr>))
                  (if \<not> IsShootClient cfg then each (seed_tunnel nl cfg addr) [0..<HAVPNClients cfg] else skip))))))"

definition ConfigureBonding ::
  "'w Runtime \<Rightarrow> 'w netlink \<Rightarrow> 'w kubernetes \<Rightarrow> VPNClient \<Rightarrow> (go_error, 'w) effect"
where
  "ConfigureBonding rt nl k cfg =
     with_result (tunnel_mtu nl cfg) (\<lambda>tunnelMTU.
     with_result (bonding_address rt k cfg) (\<lambda>addr.
       and_then (each (create_tap nl tunnelMTU) [0..<HAVPNServers cfg])
      (and_then (DeleteLinkByName nl BondDevice)
      (with_result (bond_options nl cfg) (configure_bond nl cfg tunnelMTU addr)))))"

end
