(* ===== verification/Client_Setup_Proofs.thy ===== *)
theory Client_Setup_Proofs
  imports Client_Setup Double_NAT
begin

text \<open>
  What the preparation of a client's host leaves behind: the kernel settings, a device without
  addresses of an earlier run, and the bonding device.
\<close>

section \<open>Kernel settings\<close>

context sysctl_laws
begin

lemma set_all_ok: "set_all ctl kvs w = (None, w') \<Longrightarrow> settings w' = fold (\<lambda>(k, v) s. s(k \<mapsto> v)) kvs (settings w)"
  unfolding set_all_def by (rule each_view [rotated]) (auto simp: sys_set)

lemma set_all_at:
  assumes "set_all ctl kvs w = (None, w')"
  shows "settings w' k = (case map_of (rev kvs) k of Some v \<Rightarrow> Some v | None \<Rightarrow> settings w k)"
proof -
  have "fold (\<lambda>(k, v) s. s(k \<mapsto> v)) kvs m k = (case map_of (rev kvs) k of Some v \<Rightarrow> Some v | None \<Rightarrow> m k)" for m
    by (induction kvs arbitrary: m) (auto simp: map_add_def split: option.splits)
  then show ?thesis using set_all_ok [OF assms] by simp
qed

lemma set_all_keeps: "set_all ctl kvs w = (None, w') \<Longrightarrow> k \<notin> fst ` set kvs \<Longrightarrow> settings w' k = settings w k"
  using set_all_at [of kvs w w' k] by (simp add: map_of_eq_None_iff [THEN iffD2])

lemma set_all_outside:
  "set_all ctl kvs w = (None, w') \<Longrightarrow> list_all (\<lambda>kv. has_prefix (fst kv) p) kvs \<Longrightarrow> \<not> has_prefix k p \<Longrightarrow> settings w' k = settings w k"
  by (rule set_all_keeps) (auto simp: list_all_iff)

lemma EnableIPv6Networking_ok:
  assumes "EnableIPv6Networking ctl w = (None, w')"
  shows "\<exists>s v. settings w' ''net.ipv6.conf.all.disable_ipv6'' = Some s \<and> Atoi s = Some v \<and> v \<noteq> 1"
    and "k \<noteq> ''net.ipv6.conf.all.disable_ipv6'' \<Longrightarrow> settings w' k = settings w k"
proof -
  let ?k = "''net.ipv6.conf.all.disable_ipv6''"
  from assms obtain s w1 v where get: "SysGet ctl ?k w = (Inr s, w1)" and v: "Atoi s = Some v"
    and run: "(if v = 1 then wrapping (Wrapf ''failed to enable IPv6 networking: %w (hint: container may need to be privileged)'' [])
        (SysSet ctl ?k ''0'') w1 else (None, w1)) = (None, w')"
    by (auto simp: EnableIPv6Networking_def split: prod.splits sum.splits option.splits)
  note g = sys_get [OF get]
  have zero: "Atoi ''0'' = Some 0" by (simp add: Atoi_def parse_dec_def net_eval)
  show "\<exists>s v. settings w' ?k = Some s \<and> Atoi s = Some v \<and> v \<noteq> 1"
    using run v g zero by (cases "v = 1") (auto simp: effect_ok dest!: sys_set)
  show "settings w' k = settings w k" if "k \<noteq> ?k"
    using run g that by (cases "v = 1") (auto simp: effect_ok dest!: sys_set)
qed

end

text \<open>
  After \<^verbatim>\<open>KernelSettings\<close> no packet is dropped by reverse path filtering, a shoot client forwards
  IPv4 and IPv6, a seed client has IPv6 enabled; and no setting outside of those of the program changed.
\<close>

theorem KernelSettings_ok:
  assumes "sysctl_laws ctl settings" and "KernelSettings ctl cfg w = (None, w')"
  shows "settings w' ''net.ipv4.conf.all.rp_filter'' = Some ''0'' \<and> settings w' ''net.ipv4.conf.default.rp_filter'' = Some ''0'' \<and>
    (IsShootClient cfg \<longrightarrow> settings w' ''net.ipv4.ip_forward'' = Some ''1'' \<and>
       settings w' ''net.ipv6.conf.all.forwarding'' = Some ''1'') \<and>
    (\<not> IsShootClient cfg \<longrightarrow> (\<exists>s v. settings w' ''net.ipv6.conf.all.disable_ipv6'' = Some s \<and> Atoi s = Some v \<and> v \<noteq> 1)) \<and>
    (\<forall>k. \<not> has_prefix k ''net.'' \<longrightarrow> settings w' k = settings w k)"
proof -
  obtain w1 w2 w3 where common: "DisableMartianLogging ctl w = (None, w1)" "DisableRpFilter ctl w1 = (None, w2)"
      "BufferSettings ctl w2 = (None, w3)"
    and rest: "(if \<not> IsShootClient cfg then EnableIPv6Networking ctl else and_then (ConntrackSettings ctl) (EnableIPForwarding ctl)) w3
      = (None, w')"
    using assms(2) by (auto simp: KernelSettings_def effect_ok)
  note at = sysctl_laws.set_all_at [OF assms(1)] and outside = sysctl_laws.set_all_outside [OF assms(1), where p = "''net.''"] and keeps = sysctl_laws.set_all_keeps [OF assms(1)]
  note common = common [unfolded DisableMartianLogging_def DisableRpFilter_def BufferSettings_def]
  have rp: "settings w3 k = Some ''0''" if "k \<in> {''net.ipv4.conf.all.rp_filter'', ''net.ipv4.conf.default.rp_filter''}" for k
    using that at [OF common(2), of k] keeps [OF common(3), of k] by auto
  have common_keeps: "settings w3 k = settings w k" if "\<not> has_prefix k ''net.''" for k
    using that outside [OF common(1), of k] outside [OF common(2), of k] outside [OF common(3), of k] by (simp add: has_prefix_def [of "_ # _"])
  show ?thesis
  proof (cases "IsShootClient cfg")
    case True
    then obtain w4 where "ConntrackSettings ctl w3 = (None, w4)" "EnableIPForwarding ctl w4 = (None, w')"
      using rest by (auto simp: effect_ok)
    note run = this [unfolded ConntrackSettings_def EnableIPForwarding_def]
    have "settings w' k = Some ''0''" if "k \<in> {''net.ipv4.conf.all.rp_filter'', ''net.ipv4.conf.default.rp_filter''}" for k
      using that rp [OF that] keeps [OF run(1), of k] keeps [OF run(2), of k] by auto
    moreover have "settings w' ''net.ipv4.ip_forward'' = Some ''1''" "settings w' ''net.ipv6.conf.all.forwarding'' = Some ''1''"
      using at [OF run(2), of "''net.ipv4.ip_forward''"] at [OF run(2), of "''net.ipv6.conf.all.forwarding''"] by simp_all
    moreover have "settings w' k = settings w k" if "\<not> has_prefix k ''net.''" for k
      using that common_keeps outside [OF run(1), of k] outside [OF run(2), of k] by (simp add: has_prefix_def [of "_ # _"])
    ultimately show ?thesis using True by blast
  next
    case False
    then have v6: "EnableIPv6Networking ctl w3 = (None, w')" using rest by simp
    note v6_keeps = sysctl_laws.EnableIPv6Networking_ok(2) [OF assms(1) v6]
    have "settings w' ''net.ipv4.conf.all.rp_filter'' = Some ''0''" "settings w' ''net.ipv4.conf.default.rp_filter'' = Some ''0''"
      using rp v6_keeps [of "''net.ipv4.conf.all.rp_filter''"] v6_keeps [of "''net.ipv4.conf.default.rp_filter''"] by simp_all
    moreover have "settings w' k = settings w k" if "\<not> has_prefix k ''net.''" for k
      using that common_keeps [OF that] v6_keeps [of k] by (cases "k = ''net.ipv6.conf.all.disable_ipv6''") (simp_all add: has_prefix_def)
    ultimately show ?thesis using False sysctl_laws.EnableIPv6Networking_ok(1) [OF assms(1) v6] by blast
  qed
qed

section \<open>Cleaning up\<close>

lemma filter_fold_remove1: "filter P (fold remove1 (filter P xs) xs) = [] \<and>
    filter (\<lambda>x. \<not> P x) (fold remove1 (filter P xs) xs) = filter (\<lambda>x. \<not> P x) xs"
proof -
  have pos: "filter Q (fold remove1 ys xs) = fold remove1 ys (filter Q xs)" if "\<forall>y \<in> set ys. Q y" for Q ys and xs :: "'a list"
    using that by (induction ys arbitrary: xs) (auto simp: filter_remove1)
  have neg: "filter Q (fold remove1 ys xs) = filter Q xs" if "\<forall>y \<in> set ys. \<not> Q y" for Q ys and xs :: "'a list"
    using that
  proof (induction ys arbitrary: xs)
    case (Cons y ys)
    have "filter Q (remove1 y xs) = filter Q xs" using Cons.prems by (induction xs) auto
    with Cons show ?case by simp
  qed simp
  have "fold remove1 ys ys = []" for ys :: "'a list" by (induction ys) auto
  then show ?thesis using pos [of "filter P xs" P xs] neg [of "filter P xs" "\<lambda>x. \<not> P x" xs] by simp
qed

context address_laws
begin

lemma remove_addresses_ok:
  assumes "each (\<lambda>a. wrapping (h a) (AddrDel nl l a)) as w = (None, w')"
  shows "kernel w' = (kernel w)\<lparr>addresses := (addresses (kernel w))(name_of l := fold remove1 as (addresses (kernel w) (name_of l)))\<rparr>"
  using assms
proof (induction as arbitrary: w)
  case (Cons a as)
  then obtain w1 where "AddrDel nl l a w = (None, w1)" "each (\<lambda>a. wrapping (h a) (AddrDel nl l a)) as w1 = (None, w')"
    by (auto simp: effect_ok)
  note step = addr_del [OF this(1)] and rest = Cons.IH [OF this(2)]
  show ?case by (rule kernel.equality) (simp_all add: rest step fun_eq_iff)
qed simp

lemma Cleanup_kernel:
  assumes run: "Cleanup nl show_addr dev w = (None, w')"
  shows "links (kernel w) dev = None \<and> kernel w' = kernel w \<or>
    filter (in_family AF_INET6) (addresses (kernel w) dev) = [] \<and> kernel w' = kernel w \<or>
    kernel w' = (kernel w)\<lparr>up := up (kernel w) - {dev}, addresses := (addresses (kernel w))
      (dev := fold remove1 (filter (in_family AF_INET6) (addresses (kernel w) dev)) (addresses (kernel w) dev))\<rparr>"
proof -
  obtain r w1 where r: "LinkByName nl dev w = (r, w1)" by fastforce
  note k1 = by_name_keeps [OF r]
  show ?thesis
  proof (cases r)
    case (Inl e)
    then show ?thesis using run r k1 by_name_none by (cases e) (auto simp: Cleanup_def)
  next
    case (Inr l)
    have l: "name_of l = dev" using names [OF by_name [OF r [unfolded Inr]]] .
    obtain as w2 where as: "AddrList nl l AF_INET6 w1 = (Inr as, w2)"
      and rest: "if as = [] then w2 = w' else
        and_then (wrapping (Wrapf ''failed to set link %s down: %w'' [dev]) (LinkSetDown nl l))
          (each (\<lambda>a. wrapping (Wrapf ''failed to delete address %s from link %s: %w'' [show_addr a, dev]) (AddrDel nl l a)) as) w2 = (None, w')"
      using run r Inr by (auto simp: Cleanup_def split: prod.splits sum.splits if_splits)
    have k2: "kernel w2 = kernel w" "as = filter (in_family AF_INET6) (addresses (kernel w) dev)"
      using addr_list [OF as] k1 l by simp_all
    show ?thesis
    proof (cases "as = []")
      case True
      then show ?thesis using rest k2 by simp
    next
      case False
      then obtain w3 where "LinkSetDown nl l w2 = (None, w3)"
        "each (\<lambda>a. wrapping (Wrapf ''failed to delete address %s from link %s: %w'' [show_addr a, dev]) (AddrDel nl l a)) as w3 = (None, w')"
        using rest by (auto simp: effect_ok)
      then show ?thesis using set_down remove_addresses_ok k2 l by simp
    qed
  qed
qed

end

text \<open>
  After \<^verbatim>\<open>Cleanup\<close> the VPN device, if there is one, has no IPv6 address and keeps the others; it
  is down if it had any; and no other device changed.
\<close>

theorem Cleanup_removes_addresses:
  assumes "address_laws nl kern" and "Cleanup nl show_addr dev w = (None, w')" and "links (kern w) dev \<noteq> None"
  shows "filter (in_family AF_INET6) (addresses (kern w') dev) = [] \<and>
    filter (\<lambda>a. \<not> in_family AF_INET6 a) (addresses (kern w') dev) = filter (\<lambda>a. \<not> in_family AF_INET6 a) (addresses (kern w) dev) \<and>
    (filter (in_family AF_INET6) (addresses (kern w) dev) \<noteq> [] \<longrightarrow> dev \<notin> up (kern w')) \<and>
    links (kern w') = links (kern w) \<and> routes (kern w') = routes (kern w) \<and>
    (\<forall>d. d \<noteq> dev \<longrightarrow> addresses (kern w') d = addresses (kern w) d \<and> (d \<in> up (kern w') \<longleftrightarrow> d \<in> up (kern w)))"
  using address_laws.Cleanup_kernel [OF assms(1,2)] assms(3) filter_fold_remove1 [of "in_family AF_INET6" "addresses (kern w) dev"]
  by auto

section \<open>Bonding\<close>

text \<open>The state of a device.\<close>

definition dev_state :: "string \<Rightarrow> kernel \<Rightarrow> Link option \<times> bool \<times> string option \<times> Addr list" where
  "dev_state n k = (links k n, n \<in> up k, master k n, addresses k n)"

lemma tap_name_inj: "tap_name i = tap_name j \<longleftrightarrow> i = j"
  by (simp add: tap_name_def)

lemma tap_not_bond: "tap_name i \<noteq> BondDevice" "BondDevice \<noteq> tap_name i"
  by (simp_all add: tap_name_def BondDevice_def)

lemma tap_not_tunnel: "tap_name i \<noteq> BondIP6TunnelLinkName j" "BondIP6TunnelLinkName j \<noteq> BondDevice"
  by (simp_all add: tap_name_def BondDevice_def BondIP6TunnelLinkName_def)

lemma tap0: "TapDevice = tap_name 0"
  by (simp add: TapDevice_def tap_name_def)

context netlink_laws
begin

lemma DeleteLinkByName_state:
  "DeleteLinkByName nl n w = (None, w') \<Longrightarrow> m \<noteq> n \<Longrightarrow> dev_state m (kernel w') = dev_state m (kernel w)"
  using DeleteLinkByName_ok [of n w w'] by (auto simp: dev_state_def del_link_def)

lemma create_tap_state:
  assumes run: "create_tap nl mtu i w = (None, w')"
  shows "\<exists>a. links (kernel w') (tap_name i) = Some (TuntapTap a) \<and> (0 < mtu \<longrightarrow> MTU a = mtu)"
    and "m \<noteq> tap_name i \<Longrightarrow> dev_state m (kernel w') = dev_state m (kernel w)"
proof -
  let ?t = "TuntapTap (NewLinkAttrs (tap_name i))"
  have nm: "name_of ?t = tap_name i" by (simp add: name_of_def NewLinkAttrs_def)
  from run obtain w1 w2 where del: "DeleteLinkByName nl (tap_name i) w = (None, w1)" and new: "LinkAdd nl ?t w1 = (None, w2)"
    and mtu: "(if mtu > 0 then wrapping (Wrapf ''failed to set MTU on %s: %w'' [tap_name i]) (LinkSetMTU nl ?t mtu) else skip) w2 = (None, w')"
    by (auto simp: create_tap_def Let_def and_then_ok)
  obtain j where k2: "kernel w2 = add_link ?t j (kernel w1)" using add [OF new] by blast
  have k3: "kernel w' = (if mtu > 0 then set_mtu (tap_name i) mtu (kernel w2) else kernel w2)"
    using mtu by (cases "mtu > 0") (auto simp: effect_ok nm dest!: set_mtu)
  show "\<exists>a. links (kernel w') (tap_name i) = Some (TuntapTap a) \<and> (0 < mtu \<longrightarrow> MTU a = mtu)"
    using k3 by (simp add: k2 add_link_def nm set_mtu_def)
  show "dev_state m (kernel w') = dev_state m (kernel w)" if "m \<noteq> tap_name i"
    using that k3 DeleteLinkByName_state [OF del that] by (simp add: k2 add_link_def nm set_mtu_def dev_state_def)
qed

lemma create_taps_state:
  assumes "each (create_tap nl mtu) [0..<n] w = (None, w')"
  shows "\<forall>i < n. \<exists>a. links (kernel w') (tap_name i) = Some (TuntapTap a) \<and> (0 < mtu \<longrightarrow> MTU a = mtu)"
  using assms
proof (induction n arbitrary: w')
  case (Suc n)
  then obtain w1 where w1: "each (create_tap nl mtu) [0..<n] w = (None, w1)" "create_tap nl mtu n w1 = (None, w')"
    by (auto simp: each_append effect_ok)
  show ?case
  proof (intro allI impI)
    fix i assume "i < Suc n"
    show "\<exists>a. links (kernel w') (tap_name i) = Some (TuntapTap a) \<and> (0 < mtu \<longrightarrow> MTU a = mtu)"
    proof (cases "i = n")
      case True
      then show ?thesis using create_tap_state(1) [OF w1(2)] by simp
    next
      case False
      then show ?thesis
        using Suc.IH [OF w1(1)] create_tap_state(2) [OF w1(2), of "tap_name i"] \<open>i < Suc n\<close>
        by (auto simp: tap_name_inj dev_state_def less_Suc_eq)
    qed
  qed
qed simp

lemma enslave_state:
  assumes "enslave nl bond i w = (None, w')"
  shows "kernel w' = (kernel w)\<lparr>master := (master (kernel w))(tap_name i \<mapsto> name_of bond)\<rparr>"
proof -
  from assms obtain l w1 where l: "LinkByName nl (tap_name i) w = (Inr l, w1)" "LinkSetMaster nl l bond w1 = (None, w')"
    by (auto simp: enslave_def effect_ok split: prod.splits sum.splits)
  show ?thesis using set_master [OF l(2)] by_name_keeps [OF l(1)] names [OF by_name [OF l(1)]] by simp
qed

lemma enslave_all_state:
  "each (enslave nl bond) [0..<n] w = (None, w') \<Longrightarrow>
    \<exists>f. kernel w' = (kernel w)\<lparr>master := f\<rparr> \<and> (\<forall>i < n. f (tap_name i) = Some (name_of bond))"
proof (induction n arbitrary: w')
  case (Suc n)
  then obtain w1 where w1: "each (enslave nl bond) [0..<n] w = (None, w1)" "enslave nl bond n w1 = (None, w')"
    by (auto simp: each_append effect_ok)
  from Suc.IH [OF w1(1)] enslave_state [OF w1(2)] show ?case
    by (auto simp: less_Suc_eq)
qed (auto intro: exI [of _ "master (kernel w)"])

lemma CreateTunnel_state:
  assumes "CreateTunnel nl n loc remote w = (None, w')" and "m \<noteq> n"
  shows "dev_state m (kernel w') = dev_state m (kernel w)"
proof -
  let ?t = "Ip6tnl (NewLinkAttrs n) loc remote 0 True"
  have nm: "name_of ?t = n" by (simp add: name_of_def NewLinkAttrs_def)
  obtain w1 where w1: "LinkAdd nl ?t w = (None, w1)" "LinkSetUp nl ?t w1 = (None, w')"
    using assms(1) by (auto simp: CreateTunnel_def Let_def split: prod.splits option.splits)
  then show ?thesis
    using add [OF w1(1)] set_up [OF w1(2)] nm assms(2) by (auto simp: add_link_def dev_state_def)
qed

lemma seed_tunnel_state:
  assumes "seed_tunnel nl cfg addr i w = (None, w')"
  shows "\<exists>a remote. BondingShootClientIP (VPNNetwork cfg) (int i) = Inr remote \<and> BondIP6TunnelLinkName (int i) \<in> up (kernel w') \<and>
      links (kernel w') (BondIP6TunnelLinkName (int i)) = Some (Ip6tnl a (net_ip addr) remote 0 True)"
    and "m \<noteq> BondIP6TunnelLinkName (int i) \<Longrightarrow> dev_state m (kernel w') = dev_state m (kernel w)"
proof -
  from assms obtain w1 remote where del: "DeleteLinkByName nl (BondIP6TunnelLinkName (int i)) w = (None, w1)"
    and r: "BondingShootClientIP (VPNNetwork cfg) (int i) = Inr remote"
    and new: "CreateTunnel nl (BondIP6TunnelLinkName (int i)) (net_ip addr) remote w1 = (None, w')"
    by (auto simp: seed_tunnel_def Let_def effect_ok CIDR_ToIPNet_def split: sum.splits)
  show "\<exists>a remote. BondingShootClientIP (VPNNetwork cfg) (int i) = Inr remote \<and> BondIP6TunnelLinkName (int i) \<in> up (kernel w') \<and>
      links (kernel w') (BondIP6TunnelLinkName (int i)) = Some (Ip6tnl a (net_ip addr) remote 0 True)"
    using CreateTunnel_ok [OF new] r by metis
  show "dev_state m (kernel w') = dev_state m (kernel w)" if "m \<noteq> BondIP6TunnelLinkName (int i)"
    using CreateTunnel_state [OF new that] DeleteLinkByName_state [OF del that] by simp
qed

lemma tunnel_name_inj: "BondIP6TunnelLinkName (int i) = BondIP6TunnelLinkName (int j) \<longleftrightarrow> i = j"
  by (simp add: BondIP6TunnelLinkName_def int_string_def)

lemma seed_tunnels_state:
  assumes "each (seed_tunnel nl cfg addr) [0..<n] w = (None, w')"
  shows "\<forall>i < n. \<exists>a remote. BondingShootClientIP (VPNNetwork cfg) (int i) = Inr remote \<and> BondIP6TunnelLinkName (int i) \<in> up (kernel w') \<and>
      links (kernel w') (BondIP6TunnelLinkName (int i)) = Some (Ip6tnl a (net_ip addr) remote 0 True)"
    and "(\<forall>j. m \<noteq> BondIP6TunnelLinkName j) \<Longrightarrow> dev_state m (kernel w') = dev_state m (kernel w)"
proof -
  show "\<forall>i < n. \<exists>a remote. BondingShootClientIP (VPNNetwork cfg) (int i) = Inr remote \<and> BondIP6TunnelLinkName (int i) \<in> up (kernel w') \<and>
      links (kernel w') (BondIP6TunnelLinkName (int i)) = Some (Ip6tnl a (net_ip addr) remote 0 True)"
    using assms
  proof (induction n arbitrary: w')
    case (Suc n)
    then obtain w1 where w1: "each (seed_tunnel nl cfg addr) [0..<n] w = (None, w1)" "seed_tunnel nl cfg addr n w1 = (None, w')"
      by (auto simp: each_append effect_ok)
    show ?case
    proof (intro allI impI)
      fix i assume i: "i < Suc n"
      show "\<exists>a remote. BondingShootClientIP (VPNNetwork cfg) (int i) = Inr remote \<and> BondIP6TunnelLinkName (int i) \<in> up (kernel w') \<and>
          links (kernel w') (BondIP6TunnelLinkName (int i)) = Some (Ip6tnl a (net_ip addr) remote 0 True)"
      proof (cases "i = n")
        case True
        then show ?thesis using seed_tunnel_state(1) [OF w1(2)] by simp
      next
        case False
        then have "dev_state (BondIP6TunnelLinkName (int i)) (kernel w') = dev_state (BondIP6TunnelLinkName (int i)) (kernel w1)"
          using seed_tunnel_state(2) [OF w1(2)] by (simp add: tunnel_name_inj)
        then show ?thesis using Suc.IH [OF w1(1)] i False by (auto simp: dev_state_def less_Suc_eq)
      qed
    qed
  qed simp
  show "dev_state m (kernel w') = dev_state m (kernel w)" if m: "\<forall>j. m \<noteq> BondIP6TunnelLinkName j"
    by (rule each_keeps [OF _ assms]) (use m in \<open>auto dest: seed_tunnel_state(2)\<close>)
qed

text \<open>The bonding device over tap devices that are there.\<close>

lemma configure_bond_state:
  assumes run: "configure_bond nl cfg mtu addr opts w = (None, w')"
  shows "\<exists>a. links (kernel w') BondDevice = Some (Bond a opts) \<and> (0 < mtu \<longrightarrow> MTU a = mtu)"
    and "BondDevice \<in> up (kernel w')" and "\<exists>rest. addresses (kernel w') BondDevice = \<lparr>AddrNet = addr, Flags = IFA_F_NODAD, Scope = 0\<rparr> # rest"
    and "\<forall>i. links (kernel w') (tap_name i) = links (kernel w) (tap_name i)"
    and "\<forall>i < HAVPNServers cfg. master (kernel w') (tap_name i) = Some BondDevice"
    and "\<not> IsShootClient cfg \<Longrightarrow> \<forall>i < HAVPNClients cfg. \<exists>a remote. BondingShootClientIP (VPNNetwork cfg) (int i) = Inr remote \<and>
      BondIP6TunnelLinkName (int i) \<in> up (kernel w') \<and>
      links (kernel w') (BondIP6TunnelLinkName (int i)) = Some (Ip6tnl a (net_ip addr) remote 0 True)"
proof -
  let ?b = "Bond (NewLinkAttrs BondDevice) opts"
  have nm: "name_of ?b = BondDevice" by (simp add: name_of_def NewLinkAttrs_def)
  from run obtain w1 w2 w3 w4 w5 where new: "LinkAdd nl ?b w = (None, w1)"
    and slaves: "each (enslave nl ?b) [0..<HAVPNServers cfg] w1 = (None, w2)"
    and mtu: "(if mtu > 0 then wrapping (Wrapf ''failed to set MTU on %s: %w'' [BondDevice]) (LinkSetMTU nl ?b mtu) else skip) w2 = (None, w3)"
    and upd: "LinkSetUp nl ?b w3 = (None, w4)"
    and ad: "AddrAdd nl ?b \<lparr>AddrNet = addr, Flags = IFA_F_NODAD, Scope = 0\<rparr> w4 = (None, w5)"
    and tun: "(if \<not> IsShootClient cfg then each (seed_tunnel nl cfg addr) [0..<HAVPNClients cfg] else skip) w5 = (None, w')"
    by (auto simp: configure_bond_def Let_def and_then_ok wrapping_ok)
  obtain j where k1: "kernel w1 = add_link ?b j (kernel w)" using add [OF new] by blast
  obtain f where k2: "kernel w2 = (kernel w1)\<lparr>master := f\<rparr>" and f: "\<forall>i < HAVPNServers cfg. f (tap_name i) = Some BondDevice"
    using enslave_all_state [OF slaves] nm by auto
  have k3: "kernel w3 = (if mtu > 0 then set_mtu BondDevice mtu (kernel w2) else kernel w2)"
    using mtu by (cases "mtu > 0") (auto simp: effect_ok nm dest!: set_mtu)
  have k5: "kernel w5 = (kernel w3)\<lparr>up := insert BondDevice (up (kernel w3)), addresses := (addresses (kernel w3))
      (BondDevice := \<lparr>AddrNet = addr, Flags = IFA_F_NODAD, Scope = 0\<rparr> # addresses (kernel w3) BondDevice)\<rparr>"
    using set_up [OF upd] addr_add [OF ad] nm by simp
  have same: "dev_state m (kernel w') = dev_state m (kernel w5)" if "\<forall>j. m \<noteq> BondIP6TunnelLinkName j" for m
    using tun seed_tunnels_state(2) [of cfg addr "HAVPNClients cfg" w5 w' m] that by (cases "IsShootClient cfg") (auto simp: skip_ok)
  have bond: "dev_state BondDevice (kernel w') = dev_state BondDevice (kernel w5)"
    by (rule same) (metis tap_not_tunnel(2))
  have taps: "dev_state (tap_name i) (kernel w') = dev_state (tap_name i) (kernel w5)" for i
    by (rule same) (simp add: tap_not_tunnel(1))
  show "\<exists>a. links (kernel w') BondDevice = Some (Bond a opts) \<and> (0 < mtu \<longrightarrow> MTU a = mtu)" "BondDevice \<in> up (kernel w')"
    "\<exists>rest. addresses (kernel w') BondDevice = \<lparr>AddrNet = addr, Flags = IFA_F_NODAD, Scope = 0\<rparr> # rest"
    using bond k5 k3 by (auto simp: dev_state_def k2 k1 add_link_def nm set_mtu_def)
  show "\<forall>i. links (kernel w') (tap_name i) = links (kernel w) (tap_name i)"
    "\<forall>i < HAVPNServers cfg. master (kernel w') (tap_name i) = Some BondDevice"
    using taps k5 k3 f by (auto simp: dev_state_def k2 k1 add_link_def nm set_mtu_def tap_not_bond)
  show "\<forall>i < HAVPNClients cfg. \<exists>a remote. BondingShootClientIP (VPNNetwork cfg) (int i) = Inr remote \<and>
      BondIP6TunnelLinkName (int i) \<in> up (kernel w') \<and>
      links (kernel w') (BondIP6TunnelLinkName (int i)) = Some (Ip6tnl a (net_ip addr) remote 0 True)" if "\<not> IsShootClient cfg"
    using tun that seed_tunnels_state(1) by simp
qed

end

text \<open>
  What \<^verbatim>\<open>ConfigureBonding\<close> is to leave behind: the bonding device up, with the address and in the mode
  of the configuration, every tap device enslaved to it, all with the MTU (when one is set), and for a
  seed client a tunnel device to every shoot client.
\<close>

definition bonded :: "VPNClient \<Rightarrow> ipnet \<Rightarrow> int \<Rightarrow> kernel \<Rightarrow> bool" where
  "bonded cfg addr mtu k \<longleftrightarrow>
     (\<exists>a opts. links k BondDevice = Some (Bond a opts) \<and> (0 < mtu \<longrightarrow> MTU a = mtu) \<and>
        (if BondingModeName cfg = BondingModeActiveBackup
         then BondingMode opts = BOND_MODE_ACTIVE_BACKUP \<and> (\<exists>t. links k TapDevice = Some t \<and> Primary opts = Index (Attrs t))
         else BondingMode opts = BOND_MODE_BALANCE_RR)) \<and>
     BondDevice \<in> up k \<and>
     (\<exists>rest. addresses k BondDevice = \<lparr>AddrNet = addr, Flags = IFA_F_NODAD, Scope = 0\<rparr> # rest) \<and>
     (\<forall>i < HAVPNServers cfg. \<exists>a. links k (tap_name i) = Some (TuntapTap a) \<and> master k (tap_name i) = Some BondDevice \<and>
        (0 < mtu \<longrightarrow> MTU a = mtu)) \<and>
     (\<not> IsShootClient cfg \<longrightarrow> (\<forall>i < HAVPNClients cfg. \<exists>a remote. BondingShootClientIP (VPNNetwork cfg) (int i) = Inr remote \<and>
        BondIP6TunnelLinkName (int i) \<in> up k \<and> links k (BondIP6TunnelLinkName (int i)) = Some (Ip6tnl a (net_ip addr) remote 0 True)))"

lemma DetectTunnelMTU_min: "DetectTunnelMTU nl ov w = (Inr m, w') \<Longrightarrow> MinimumMTU \<le> m"
  by (auto simp: DetectTunnelMTU_def Let_def split: prod.splits sum.splits if_splits)

text \<open>
  When \<^verbatim>\<open>ConfigureBonding\<close> succeeds, the host is bonded, with the address of the shoot client's
  index or one acquired from the pool, and with an automatic MTU of at least 1280.
\<close>

theorem ConfigureBonding_bonds:
  assumes "netlink_laws nl kern" and "ConfigureBonding rt nl k cfg w = (None, w')"
  shows "\<exists>addr mtu. bonded cfg addr mtu (kern w') \<and> (AutoMTU cfg \<longrightarrow> 1280 \<le> mtu) \<and> (\<not> AutoMTU cfg \<longrightarrow> mtu = 0) \<and>
    (IsShootClient cfg \<longrightarrow> BondingShootClientAddress (VPNNetwork cfg) (VPNClientIndex cfg) = Inr addr) \<and>
    (\<not> IsShootClient cfg \<longrightarrow> (\<exists>v m broker b u u' s a.
       NewPodIPPoolManager k (Namespace cfg) (PodLabelSelector cfg) v = (Inr m, u) \<and> NewIPAddressBroker m cfg = Inr broker \<and>
       AcquireIP rt broker u = (Inr s, b, u') \<and> parse_ip s = Some a \<and> addr = BondingAddressForClient a))"
proof -
  from assms(2) obtain mtu w1 addr w2 w3 w4 opts w5 where mtu: "tunnel_mtu nl cfg w = (Inr mtu, w1)"
    and addr: "bonding_address rt k cfg w1 = (Inr addr, w2)"
    and taps: "each (create_tap nl mtu) [0..<HAVPNServers cfg] w2 = (None, w3)"
    and del: "DeleteLinkByName nl BondDevice w3 = (None, w4)"
    and opts: "bond_options nl cfg w4 = (Inr opts, w5)"
    and conf: "configure_bond nl cfg mtu addr opts w5 = (None, w')"
    by (auto simp: ConfigureBonding_def effect_ok)
  note bond = netlink_laws.configure_bond_state [OF assms(1) conf]
  have k5: "kern w5 = kern w4"
    using opts netlink_laws.by_name_keeps [OF assms(1)] by (auto simp: bond_options_def split: if_splits prod.splits sum.splits)
  have kept: "links (kern w') (tap_name i) = links (kern w3) (tap_name i)" for i
    using bond(4) k5 netlink_laws.DeleteLinkByName_state [OF assms(1) del, of "tap_name i"] by (simp add: dev_state_def tap_not_bond)
  have "BondingMode opts = BOND_MODE_ACTIVE_BACKUP \<and> (\<exists>t. links (kern w') TapDevice = Some t \<and> Primary opts = Index (Attrs t))"
    if active: "BondingModeName cfg = BondingModeActiveBackup"
  proof -
    obtain t where t: "LinkByName nl TapDevice w4 = (Inr t, w5)" and o: "BondingMode opts = BOND_MODE_ACTIVE_BACKUP" "Primary opts = Index (Attrs t)"
      using opts active by (auto simp: bond_options_def split: prod.splits sum.splits)
    have "links (kern w') TapDevice = links (kern w4) TapDevice"
      using bond(4) k5 by (simp add: tap0)
    then show ?thesis using netlink_laws.by_name [OF assms(1) t] o by simp
  qed
  moreover have "BondingMode opts = BOND_MODE_BALANCE_RR" if "BondingModeName cfg \<noteq> BondingModeActiveBackup"
    using opts that by (auto simp: bond_options_def split: if_splits)
  ultimately have "bonded cfg addr mtu (kern w')"
    using bond(1-3,5,6) netlink_laws.create_taps_state [OF assms(1) taps] unfolding bonded_def kept by auto
  moreover have "AutoMTU cfg \<Longrightarrow> 1280 \<le> mtu" "\<not> AutoMTU cfg \<Longrightarrow> mtu = 0"
    using mtu by (auto simp: tunnel_mtu_def MinimumMTU_def [symmetric] split: prod.splits sum.splits dest: DetectTunnelMTU_min)
  moreover have "IsShootClient cfg \<Longrightarrow> BondingShootClientAddress (VPNNetwork cfg) (VPNClientIndex cfg) = Inr addr"
    using addr by (auto simp: bonding_address_def CIDR_ToIPNet_def net_result_def split: sum.splits)
  moreover have "\<exists>v m broker b u u' s a.
       NewPodIPPoolManager k (Namespace cfg) (PodLabelSelector cfg) v = (Inr m, u) \<and> NewIPAddressBroker m cfg = Inr broker \<and>
       AcquireIP rt broker u = (Inr s, b, u') \<and> parse_ip s = Some a \<and> addr = BondingAddressForClient a" if "\<not> IsShootClient cfg"
    using addr that by (auto simp: bonding_address_def split: sum.splits prod.splits option.splits) blast
  ultimately show ?thesis by blast
qed

section \<open>Witnesses\<close>

definition bare_machine :: machine where
  "bare_machine = \<lparr>mach_host = \<lparr>devices = [], host_up = {}, host_master = Map.empty, host_addresses = (\<lambda>_. []), host_routes = Map.empty\<rparr>,
     mach_chains = (\<lambda>_. []), mach_files = Map.empty, mach_ctl = [''net.ipv6.conf.all.disable_ipv6'' \<mapsto> ''1'']\<rparr>"

lemma set_all_runs: "runs (set_all machine_sysctl kvs)"
  unfolding set_all_def by (intro runs_each) (auto simp: runs_def machine_sysctl_def)

theorem KernelSettings_ok_witness:
  "\<exists>m. KernelSettings machine_sysctl (default_client False True) bare_machine = (None, m) \<and>
     mach_ctl m ''net.ipv4.conf.all.rp_filter'' = Some ''0'' \<and>
     (\<exists>s v. mach_ctl m ''net.ipv6.conf.all.disable_ipv6'' = Some s \<and> Atoi s = Some v \<and> v \<noteq> 1)"
proof -
  have seed: "\<not> IsShootClient (default_client False True)" by (simp add: default_client_def)
  obtain m1 where m1: "DisableMartianLogging machine_sysctl bare_machine = (None, m1)"
    unfolding DisableMartianLogging_def using runsD [OF set_all_runs] by blast
  obtain m2 where m2: "DisableRpFilter machine_sysctl m1 = (None, m2)"
    unfolding DisableRpFilter_def using runsD [OF set_all_runs] by blast
  obtain m3 where m3: "BufferSettings machine_sysctl m2 = (None, m3)"
    unfolding BufferSettings_def using runsD [OF set_all_runs] by blast
  let ?k = "''net.ipv6.conf.all.disable_ipv6''"
  have "mach_ctl m3 ?k = mach_ctl bare_machine ?k"
    using machine_sys.set_all_keeps [OF m1 [unfolded DisableMartianLogging_def], of ?k]
      machine_sys.set_all_keeps [OF m2 [unfolded DisableRpFilter_def], of ?k]
      machine_sys.set_all_keeps [OF m3 [unfolded BufferSettings_def], of ?k] by simp
  then have "SysGet machine_sysctl ?k m3 = (Inr ''1'', m3)" by (simp add: machine_sysctl_def bare_machine_def)
  moreover have "Atoi ''1'' = Some 1" by (simp add: Atoi_def parse_dec_def net_eval)
  ultimately obtain m4 where "EnableIPv6Networking machine_sysctl m3 = (None, m4)"
    by (simp add: EnableIPv6Networking_def wrapping_def machine_sysctl_def)
  then have m: "KernelSettings machine_sysctl (default_client False True) bare_machine = (None, m4)"
    using m1 m2 m3 seed by (simp add: KernelSettings_def and_then_def)
  then show ?thesis using KernelSettings_ok [OF machine_sys.sysctl_laws_axioms m] seed by blast
qed

text \<open>A tap device with an address of an earlier run.\<close>

definition used_host :: host where
  "used_host = \<lparr>devices = [Device \<lparr>Index = 4, LinkName = ''tap0'', MTU = 1500\<rparr>], host_up = {''tap0''}, host_master = Map.empty,
     host_addresses = (\<lambda>_. [\<lparr>AddrNet = vpn_nw, Flags = 0, Scope = 0\<rparr>]), host_routes = Map.empty\<rparr>"

theorem Cleanup_removes_addresses_witness:
  "\<exists>h. Cleanup host_netlink (\<lambda>_. '''') ''tap0'' used_host = (None, h) \<and> ''tap0'' \<notin> host_up h \<and>
     filter (in_family AF_INET6) (host_addresses h ''tap0'') = []"
proof -
  have v6: "in_family AF_INET6 \<lparr>AddrNet = vpn_nw, Flags = 0, Scope = 0\<rparr>"
    by (simp add: in_family_def AF_INET6_def vpn_nw_def to4_def v4_in_v6_prefix_def)
  have link: "host_link used_host ''tap0'' = Some (Device \<lparr>Index = 4, LinkName = ''tap0'', MTU = 1500\<rparr>)"
    by (simp add: host_link_def used_host_def name_of_def)
  have "\<exists>h. Cleanup host_netlink (\<lambda>_. '''') ''tap0'' used_host = (None, h)"
    using v6 by (simp add: Cleanup_def host_netlink_def link) (simp add: used_host_def and_then_def wrapping_def name_of_def)
  then obtain h where h: "Cleanup host_netlink (\<lambda>_. '''') ''tap0'' used_host = (None, h)" by blast
  have "links (host_kernel used_host) ''tap0'' \<noteq> None" by (simp add: host_kernel_def link)
  from Cleanup_removes_addresses [OF host_addr.address_laws_axioms h this] h v6 show ?thesis
    by (simp add: host_kernel_def used_host_def)
qed

definition no_cluster :: "'w kubernetes" where
  "no_cluster = \<lparr>InClusterConfig = (\<lambda>w. (Inl (Foreign ''no cluster''), w)), NewForConfig = (\<lambda>_. Inl (Foreign ''no cluster''))\<rparr>"

definition no_runtime :: "host Runtime" where
  "no_runtime = \<lparr>rand_N = (\<lambda>n h. (0, h)), Sleep = (\<lambda>_ h. h)\<rparr>"

theorem ConfigureBonding_bonds_witness:
  "\<exists>h addr. ConfigureBonding no_runtime host_netlink no_cluster (default_client True True) (mach_host bare_machine) = (None, h) \<and>
     bonded (default_client True True) addr 0 (host_kernel h) \<and>
     BondingShootClientAddress vpn_nw 1 = Inr addr"
proof -
  have "\<exists>h. ConfigureBonding no_runtime host_netlink no_cluster (default_client True True) (mach_host bare_machine) = (None, h)"
  proof -
    let ?c = "default_client True True" and ?h = "mach_host bare_machine"
    obtain addr where a: "bonding_address no_runtime no_cluster ?c ?h = (Inr addr, ?h)"
      by (simp add: bonding_address_def default_client_def BondingShootClientAddress_def BondingShootClientIP_def result_simps
          vpn_nw_def to16_def CIDR_ToIPNet_def)
    have m: "tunnel_mtu host_netlink ?c ?h = (Inr 0, ?h)" "HAVPNServers ?c = Suc (Suc 0)" "IsShootClient ?c"
      "BondingModeName ?c = BondingModeActiveBackup"
      by (simp_all add: tunnel_mtu_def default_client_def)
    show ?thesis
      unfolding ConfigureBonding_def with_result_def m(1) a prod.case sum.case
      by (simp add: m(2-4) with_result_def bond_options_def configure_bond_def create_tap_def enslave_def DeleteLinkByName_def
          and_then_def wrapping_def skip_def Let_def host_netlink_def host_link_def bare_machine_def name_of_def NewLinkAttrs_def
          tap_name_def TapDevice_def BondDevice_def dec_string_less digit_char_def)
  qed
  then obtain h where h: "ConfigureBonding no_runtime host_netlink no_cluster (default_client True True) (mach_host bare_machine) = (None, h)"
    by blast
  have "IsShootClient (default_client True True)" "\<not> AutoMTU (default_client True True)" "VPNNetwork (default_client True True) = vpn_nw"
    "VPNClientIndex (default_client True True) = 1" by (simp_all add: default_client_def)
  with ConfigureBonding_bonds [OF host.netlink_laws_axioms h] h show ?thesis by auto
qed

end
