(* ===== verification/Go_Text.thy ===== *)
theory Go_Text
  imports Net_Types
begin

text \<open>
  The parts of Go's library that read text: \<^verbatim>\<open>bufio.Scanner\<close>, \<^verbatim>\<open>strings.Fields\<close>, \<^verbatim>\<open>filepath.Join\<close>,
  regular expressions, \<^verbatim>\<open>strconv.ParseUint\<close> and \<^verbatim>\<open>time.Parse\<close> with the layout \<^verbatim>\<open>time.DateTime\<close>.
\<close>

section \<open>Reading lines\<close>

text \<open>
  \<^verbatim>\<open>bufio.Scanner\<close> on a text: its lines without their ends, up to the first one that does not fit in
  the buffer of 64 KiB, and whether there was one, which is the scanner's error.
\<close>

definition drop_cr :: "string \<Rightarrow> string" where
  "drop_cr l = (if l \<noteq> [] \<and> last l = CHR 0x0D then butlast l else l)"

fun fitting :: "string list \<Rightarrow> string list \<times> bool" where
  "fitting [] = ([], False)"
| "fitting (l # ls) =
     (if 65536 \<le> length l then ([], True) else (let (r, long) = fitting ls in (drop_cr l # r, long)))"

definition scan_lines :: "string \<Rightarrow> string list \<times> bool" where
  "scan_lines s = (let ls = split_on (CHR 0x0A) s in fitting (if last ls = [] then butlast ls else ls))"

definition ErrTooLong :: go_error where "ErrTooLong = Foreign ''bufio.Scanner: token too long''"

section \<open>Words and paths\<close>

text \<open>\<^verbatim>\<open>strings.Fields\<close> on ASCII text.\<close>

definition is_space :: "char \<Rightarrow> bool" where
  "is_space c \<longleftrightarrow> c \<in> {CHR 0x09, CHR 0x0A, CHR 0x0B, CHR 0x0C, CHR 0x0D, CHR '' ''}"

fun fields_from :: "string \<Rightarrow> string \<Rightarrow> string list" where
  "fields_from word [] = (if word = [] then [] else [word])"
| "fields_from word (c # s) =
     (if is_space c then (if word = [] then [] else [word]) @ fields_from [] s else fields_from (word @ [c]) s)"

definition Fields :: "string \<Rightarrow> string list" where
  "Fields s = fields_from [] s"

text \<open>The index of the first occurrence of a character.\<close>

fun index_of :: "char \<Rightarrow> string \<Rightarrow> nat option" where
  "index_of c [] = None"
| "index_of c (d # s) = (if d = c then Some 0 else map_option Suc (index_of c s))"

text \<open>\<^verbatim>\<open>path.Clean\<close> component by component, and \<^verbatim>\<open>filepath.Join\<close>.\<close>

fun clean_parts :: "bool \<Rightarrow> string list \<Rightarrow> string list \<Rightarrow> string list" where
  "clean_parts rooted out [] = out"
| "clean_parts rooted out (p # ps) =
     (if p = '''' \<or> p = ''.'' then clean_parts rooted out ps
      else if p = ''..''
      then (if out \<noteq> [] \<and> last out \<noteq> ''..'' then clean_parts rooted (butlast out) ps
            else if rooted then clean_parts rooted out ps
            else clean_parts rooted (out @ [p]) ps)
      else clean_parts rooted (out @ [p]) ps)"

definition Clean :: "string \<Rightarrow> string" where
  "Clean path =
     (let rooted = has_prefix path ''/'';
          cleaned = (if rooted then ''/'' else []) @ join_with ''/'' (clean_parts rooted [] (split_on (CHR ''/'') path))
      in if cleaned = [] then ''.'' else cleaned)"

definition Join :: "string list \<Rightarrow> string" where
  "Join elems = (let parts = filter (\<lambda>e. e \<noteq> []) elems in if parts = [] then [] else Clean (join_with ''/'' parts))"

definition base_name :: "string \<Rightarrow> string" where
  "base_name path = last (split_on (CHR ''/'') path)"

section \<open>Regular expressions\<close>

text \<open>
  A regular expression is the function from a text to the ways in which it matches a prefix of it,
  each the matched part and the rest, in the order in which a backtracking search tries them.  The
  submatches that Go's package \<^verbatim>\<open>regexp\<close> reports are those of the first way that succeeds.
\<close>

type_synonym regex = "string \<Rightarrow> (string \<times> string) list"

definition re_text :: "string \<Rightarrow> regex" where
  "re_text t s = (if has_prefix s t then [(t, drop (length t) s)] else [])"

definition re_or :: "regex \<Rightarrow> regex \<Rightarrow> regex" where
  "re_or a b s = a s @ b s"

definition re_seq :: "regex \<Rightarrow> regex \<Rightarrow> regex" where
  "re_seq a b s = concat (map (\<lambda>(x, r). map (\<lambda>(y, t). (x @ y, t)) (b r)) (a s))"

definition re_opt :: "regex \<Rightarrow> regex" where
  "re_opt a s = a s @ [([], s)]"

definition re_plus :: "(char \<Rightarrow> bool) \<Rightarrow> regex" where
  "re_plus P s = map (\<lambda>n. (take n s, drop n s)) (rev [1..<Suc (length (takeWhile P s))])"

section \<open>Numbers and times\<close>

definition ParseUint :: "nat \<Rightarrow> string \<Rightarrow> go_error + nat" where
  "ParseUint bits s =
     (case parse_dec s of
        Some n \<Rightarrow> if n < 2 ^ bits then Inr n else Inl (Foreign ''strconv.ParseUint: value out of range'')
      | None \<Rightarrow> Inl (Foreign ''strconv.ParseUint: invalid syntax''))"

text \<open>
  A time is the number of nanoseconds since the zero value of \<^verbatim>\<open>time.Time\<close>, the first of January of
  the year 1, in UTC; a duration is a number of nanoseconds.
\<close>

definition Second :: int where "Second = 1000000000"

definition leap_year :: "nat \<Rightarrow> bool" where
  "leap_year y \<longleftrightarrow> y mod 4 = 0 \<and> (y mod 100 \<noteq> 0 \<or> y mod 400 = 0)"

definition days_in_month :: "nat \<Rightarrow> nat \<Rightarrow> nat" where
  "days_in_month y m = (if m = 2 \<and> leap_year y then 29 else [31, 28, 31, 30, 31, 30, 31, 31, 30, 31, 30, 31] ! (m - 1))"

definition days_before_year :: "nat \<Rightarrow> int" where
  "days_before_year y = (let p = int y - 1 in 365 * p + p div 4 - p div 100 + p div 400)"

definition time_of :: "nat \<Rightarrow> nat \<Rightarrow> nat \<Rightarrow> nat \<Rightarrow> nat \<Rightarrow> nat \<Rightarrow> int" where
  "time_of y mo d h mi s =
     (days_before_year y + int (sum_list (map (days_in_month y) [1..<mo])) + int d - 1) * 86400 * Second +
     int (h * 3600 + mi * 60 + s) * Second"

text \<open>
  The elements of a layout: a number of two digits, or of one or two digits, and a character that
  separates, where a blank stands for any number of blanks.  Each yields what it read and the rest.
\<close>

definition two_digits :: "string \<Rightarrow> (nat \<times> string) option" where
  "two_digits s = (case s of a # b # r \<Rightarrow> if is_digit a \<and> is_digit b then Some (dec_value [a, b], r) else None | _ \<Rightarrow> None)"

definition one_or_two_digits :: "string \<Rightarrow> (nat \<times> string) option" where
  "one_or_two_digits s =
     (case two_digits s of
        Some p \<Rightarrow> Some p
      | None \<Rightarrow> (case s of a # r \<Rightarrow> if is_digit a then Some (digit_val a, r) else None | [] \<Rightarrow> None))"

definition four_digits :: "string \<Rightarrow> (nat \<times> string) option" where
  "four_digits s = (if 4 \<le> length s \<and> list_all is_digit (take 4 s) then Some (dec_value (take 4 s), drop 4 s) else None)"

definition expect :: "char \<Rightarrow> string \<Rightarrow> string option" where
  "expect c s = (case s of a # r \<Rightarrow> if a = c then Some r else None | [] \<Rightarrow> None)"

definition skip_blank :: "string \<Rightarrow> string option" where
  "skip_blank s = (if s \<noteq> [] \<and> hd s \<noteq> CHR '' '' then None else Some (dropWhile (\<lambda>c. c = CHR '' '') s))"

text \<open>A fraction of the second may follow although the layout has none: at most nine digits count.\<close>

definition fraction :: "string \<Rightarrow> int \<times> string" where
  "fraction s =
     (case s of
        p # a # r \<Rightarrow>
          if p \<in> {CHR ''.'', CHR '',''} \<and> is_digit a
          then (let ds = take 9 (takeWhile is_digit (a # r))
                in (int (dec_value ds) * 10 ^ (9 - length ds), dropWhile is_digit (a # r)))
          else (0, s)
      | _ \<Rightarrow> (0, s))"

definition ParseDateTime :: "string \<Rightarrow> int option" where
  "ParseDateTime value =
     Option.bind (four_digits value) (\<lambda>(y, v).
     Option.bind (Option.bind (expect (CHR ''-'') v) two_digits) (\<lambda>(mo, v).
     if mo < 1 \<or> 12 < mo then None else
     Option.bind (Option.bind (expect (CHR ''-'') v) two_digits) (\<lambda>(d, v).
     Option.bind (Option.bind (skip_blank v) one_or_two_digits) (\<lambda>(h, v).
     if 24 \<le> h then None else
     Option.bind (Option.bind (expect (CHR '':'') v) two_digits) (\<lambda>(mi, v).
     if 60 \<le> mi then None else
     Option.bind (Option.bind (expect (CHR '':'') v) two_digits) (\<lambda>(s, v).
     if 60 \<le> s then None else
     (let (nsec, v) = fraction v
      in if v \<noteq> [] then None
         else if d < 1 \<or> days_in_month y mo < d then None
         else Some (time_of y mo d h mi s + nsec))))))))"

section \<open>Lines that were written are read\<close>

definition unlines :: "string list \<Rightarrow> string" where
  "unlines ls = concat (map (\<lambda>l. l @ [CHR 0x0A]) ls)"

definition readable :: "string \<Rightarrow> bool" where
  "readable l \<longleftrightarrow> CHR 0x0A \<notin> set l \<and> CHR 0x0D \<notin> set l \<and> length l < 65536"

lemma split_unlines: "\<forall>l \<in> set ls. CHR 0x0A \<notin> set l \<Longrightarrow> split_on (CHR 0x0A) (unlines ls) = ls @ [[]]"
  by (induction ls) (auto simp: unlines_def split_on_append)

lemma fitting_readable: "\<forall>l \<in> set ls. readable l \<Longrightarrow> fitting ls = (ls, False)"
proof (induction ls)
  case (Cons l ls)
  then have "drop_cr l = l" by (auto simp: drop_cr_def readable_def dest: last_in_set)
  with Cons show ?case by (simp add: readable_def)
qed simp

lemma scan_unlines: "\<forall>l \<in> set ls. readable l \<Longrightarrow> scan_lines (unlines ls) = (ls, False)"
  by (simp add: scan_lines_def split_unlines fitting_readable readable_def)

end
