(* ===== verification/Netstat.thy ===== *)
theory Netstat
  imports Effects Go_Text
begin

text \<open>
  \<^verbatim>\<open>pkg/network/netstat.go\<close>: the network statistics under \<^verbatim>\<open>/proc/net\<close>.
\<close>

section \<open>Statistics\<close>

type_synonym net_stats = "string \<rightharpoonup> string \<rightharpoonup> string"

text \<open>Two lines, one with the names of the values and one with the values.\<close>

definition parse_pair :: "string \<Rightarrow> string \<Rightarrow> string \<Rightarrow> net_stats \<Rightarrow> go_error + net_stats" where
  "parse_pair fileName names vals netStats =
     (let nameParts = split_on (CHR '' '') names; valueParts = split_on (CHR '' '') vals
      in if hd nameParts \<noteq> hd valueParts
         then Inl (Errorf ''header to value mismatch in %s: %s vs %s'' [fileName, hd nameParts, hd valueParts])
         else if hd nameParts = [] then Inl (NetError Panic)
         else (let protocol = butlast (hd nameParts)
               in if length nameParts \<noteq> length valueParts
                  then Inl (Errorf ''mismatch field count mismatch in %s: %s'' [fileName, protocol])
                  else Inr (netStats(protocol \<mapsto>
                         fold (\<lambda>(k, v) t. t(k \<mapsto> v)) (zip (tl nameParts) (tl valueParts)) Map.empty))))"

fun parse_pairs :: "string \<Rightarrow> bool \<Rightarrow> string list \<Rightarrow> net_stats \<Rightarrow> go_error + net_stats" where
  "parse_pairs fileName long [] netStats = (if long then Inl ErrTooLong else Inr netStats)"
| "parse_pairs fileName long [l] netStats =
     Inl (Errorf ''missing value line in %s for %s'' [fileName, hd (split_on (CHR '' '') l)])"
| "parse_pairs fileName long (l # v # ls) netStats =
     (case parse_pair fileName l v netStats of Inl e \<Rightarrow> Inl e | Inr t \<Rightarrow> parse_pairs fileName long ls t)"

definition parseNetStats :: "string \<Rightarrow> string \<Rightarrow> go_error + net_stats" where
  "parseNetStats content fileName = (let (ls, long) = scan_lines content in parse_pairs fileName long ls Map.empty)"

definition snmp6_line :: "string \<Rightarrow> net_stats \<Rightarrow> net_stats" where
  "snmp6_line l netStats =
     (case Fields l of
        [key, value] \<Rightarrow>
          (case index_of (CHR ''6'') key of
             None \<Rightarrow> netStats
           | Some sixIndex \<Rightarrow>
               (let protocol = take (sixIndex + 1) key; name = drop (sixIndex + 1) key;
                    t = (case netStats protocol of None \<Rightarrow> Map.empty | Some t \<Rightarrow> t)
                in netStats(protocol \<mapsto> t(name \<mapsto> value))))
      | _ \<Rightarrow> netStats)"

definition parseSNMP6Stats :: "string \<Rightarrow> go_error + net_stats" where
  "parseSNMP6Stats content =
     (let (ls, long) = scan_lines content in if long then Inl ErrTooLong else Inr (fold snmp6_line ls Map.empty))"

definition getNetStats :: "'w os \<Rightarrow> string \<Rightarrow> 'w \<Rightarrow> (go_error + net_stats) \<times> 'w" where
  "getNetStats sys filePath w =
     (case ReadFile sys filePath w of
        (Inl e, w1) \<Rightarrow> (Inl e, w1)
      | (Inr content, w1) \<Rightarrow> (parseNetStats content (base_name filePath), w1))"

definition getSNMP6Stats :: "'w os \<Rightarrow> string \<Rightarrow> 'w \<Rightarrow> (go_error + net_stats) \<times> 'w" where
  "getSNMP6Stats sys filePath w =
     (case ReadFile sys filePath w of
        (Inl e, w1) \<Rightarrow> (if IsNotExist sys e then Inr Map.empty else Inl e, w1)
      | (Inr content, w1) \<Rightarrow> (parseSNMP6Stats content, w1))"

definition GetNetStats :: "'w os \<Rightarrow> string \<Rightarrow> 'w \<Rightarrow> (go_error + net_stats) \<times> 'w" where
  "GetNetStats sys procPath w =
     (case getNetStats sys (Join [procPath, ''net/netstat'']) w of
        (Inl e, w1) \<Rightarrow> (Inl (Wrapf ''couldn't get netstats: %w'' [] e), w1)
      | (Inr netStats, w1) \<Rightarrow>
     (case getNetStats sys (Join [procPath, ''net/snmp'']) w1 of
        (Inl e, w2) \<Rightarrow> (Inl (Wrapf ''couldn't get SNMP stats: %w'' [] e), w2)
      | (Inr snmpStats, w2) \<Rightarrow>
     (case getSNMP6Stats sys (Join [procPath, ''net/snmp6'']) w2 of
        (Inl e, w3) \<Rightarrow> (Inl (Wrapf ''couldn't get SNMP6 stats: %w'' [] e), w3)
      | (Inr snmp6Stats, w3) \<Rightarrow> (Inr (netStats ++ snmpStats ++ snmp6Stats), w3))))"

end
