(* ===== verification/Netstat_Proofs.thy ===== *)
theory Netstat_Proofs
  imports Netstat
begin

text \<open>
  Reading network statistics that were written in the format of \<^verbatim>\<open>/proc/net/netstat\<close> gives them back.
\<close>

section \<open>Statistics\<close>

type_synonym stats_table = "(string \<times> (string \<times> string) list) list"

definition stats_lines :: "string \<times> (string \<times> string) list \<Rightarrow> string list" where
  "stats_lines t = [join_with '' '' ((fst t @ '':'') # map fst (snd t)), join_with '' '' ((fst t @ '':'') # map snd (snd t))]"

definition write_stats :: "stats_table \<Rightarrow> string" where
  "write_stats ts = unlines (concat (map stats_lines ts))"

definition table_of :: "(string \<times> string) list \<Rightarrow> string \<rightharpoonup> string" where
  "table_of kvs = fold (\<lambda>(k, v) t. t(k \<mapsto> v)) kvs Map.empty"

definition no_blanks :: "string \<times> (string \<times> string) list \<Rightarrow> bool" where
  "no_blanks t \<longleftrightarrow> CHR '' '' \<notin> set (fst t) \<and> (\<forall>(k, v) \<in> set (snd t). CHR '' '' \<notin> set k \<and> CHR '' '' \<notin> set v)"

lemma parse_pair_lines:
  assumes "no_blanks (p, kvs)"
  shows "parse_pair fileName (join_with '' '' ((p @ '':'') # map fst kvs)) (join_with '' '' ((p @ '':'') # map snd kvs)) m =
    Inr (m(p \<mapsto> table_of kvs))"
proof -
  have "split_on (CHR '' '') (join_with '' '' ((p @ '':'') # map fst kvs)) = (p @ '':'') # map fst kvs"
    "split_on (CHR '' '') (join_with '' '' ((p @ '':'') # map snd kvs)) = (p @ '':'') # map snd kvs"
    using assms by (fastforce intro!: split_on_join simp: no_blanks_def)+
  then show ?thesis by (simp add: parse_pair_def Let_def table_of_def zip_map_fst_snd butlast_append)
qed

lemma parse_pairs_tables:
  "\<forall>t \<in> set ts. no_blanks t \<Longrightarrow> parse_pairs fileName False (concat (map stats_lines ts)) m =
    Inr (fold (\<lambda>(p, kvs) m. m(p \<mapsto> table_of kvs)) ts m)"
  by (induction ts arbitrary: m) (auto simp: stats_lines_def parse_pair_lines)

text \<open>
  C38: a table of statistics, written with one line of names and one of values for each protocol, is
  read back by \<^verbatim>\<open>parseNetStats\<close>: for each protocol its last table, and no other protocol.
\<close>

theorem parseNetStats_roundtrip:
  assumes "\<forall>t \<in> set ts. no_blanks t" and "\<forall>l \<in> set (concat (map stats_lines ts)). readable l"
  shows "\<exists>m. parseNetStats (write_stats ts) fileName = Inr m \<and> dom m = fst ` set ts \<and>
    (distinct (map fst ts) \<longrightarrow> (\<forall>(p, kvs) \<in> set ts. m p = Some (table_of kvs)))"
proof -
  let ?m = "\<lambda>q. map_option table_of (map_of (rev ts) q)"
  have "fold (\<lambda>(p, kvs) m. m(p \<mapsto> table_of kvs)) ts m q =
      (case map_of (rev ts) q of Some kvs \<Rightarrow> Some (table_of kvs) | None \<Rightarrow> m q)" for m q
    by (induction ts arbitrary: m) (auto simp: map_add_def split: option.splits)
  then have "fold (\<lambda>(p, kvs) m. m(p \<mapsto> table_of kvs)) ts Map.empty = ?m"
    by (auto simp: fun_eq_iff split: option.splits)
  then have run: "parseNetStats (write_stats ts) fileName = Inr ?m"
    using assms by (simp add: parseNetStats_def write_stats_def scan_unlines parse_pairs_tables)
  have dom: "dom ?m = fst ` set ts"
    using dom_map_of_conv_image_fst [of "rev ts"] by (auto simp: dom_def)
  have "?m p = Some (table_of kvs)" if "distinct (map fst ts)" "(p, kvs) \<in> set ts" for p kvs
  proof -
    have "map_of (rev ts) p = Some kvs"
      using that by (simp add: map_of_eq_Some_iff rev_map [symmetric])
    then show ?thesis by simp
  qed
  then have "distinct (map fst ts) \<longrightarrow> (\<forall>(p, kvs) \<in> set ts. ?m p = Some (table_of kvs))" by blast
  with run dom show ?thesis by blast
qed

text \<open>The table of one protocol: the value of a name is the one written last.\<close>

lemma table_of_map_of: "table_of kvs k = map_of (rev kvs) k"
proof -
  have "fold (\<lambda>(k, v) t. t(k \<mapsto> v)) kvs t k = (case map_of (rev kvs) k of Some v \<Rightarrow> Some v | None \<Rightarrow> t k)" for t
    by (induction kvs arbitrary: t) (auto simp: map_add_def split: option.splits)
  then show ?thesis by (simp add: table_of_def split: option.splits)
qed

theorem parseNetStats_roundtrip_witness:
  "\<exists>m t. parseNetStats (write_stats [(''Tcp'', [(''InSegs'', ''12''), (''OutSegs'', ''7'')]), (''Udp'', [(''InErrors'', ''0'')])])
       ''snmp'' = Inr m \<and> dom m = {''Tcp'', ''Udp''} \<and> m ''Tcp'' = Some t \<and> t ''OutSegs'' = Some ''7''"
proof -
  let ?ts = "[(''Tcp'', [(''InSegs'', ''12''), (''OutSegs'', ''7'')]), (''Udp'', [(''InErrors'', ''0'')])]"
  have "\<forall>t \<in> set ?ts. no_blanks t" "\<forall>l \<in> set (concat (map stats_lines ?ts)). readable l"
    by (simp_all add: no_blanks_def readable_def stats_lines_def)
  from parseNetStats_roundtrip [OF this, of "''snmp''"] obtain m where
    m: "parseNetStats (write_stats ?ts) ''snmp'' = Inr m" "dom m = fst ` set ?ts"
       "distinct (map fst ?ts) \<longrightarrow> (\<forall>(p, kvs) \<in> set ?ts. m p = Some (table_of kvs))"
    by blast
  have "dom m = {''Tcp'', ''Udp''}" using m(2) by simp
  moreover have "distinct (map fst ?ts)" by simp
  with m(3) have "m ''Tcp'' = Some (table_of [(''InSegs'', ''12''), (''OutSegs'', ''7'')])" by simp
  moreover have "table_of [(''InSegs'', ''12''), (''OutSegs'', ''7'')] ''OutSegs'' = Some ''7''"
    by (simp add: table_of_map_of)
  ultimately show ?thesis using m(1) by blast
qed

end
