(* ===== verification/OpenVPN_Config.thy ===== *)
theory OpenVPN_Config
  imports Server_Values
begin

text \<open>
  \<^verbatim>\<open>pkg/openvpn/config.go\<close>, \<^verbatim>\<open>config_client.go\<close> and \<^verbatim>\<open>config_server.go\<close>: the configuration files of
  OpenVPN.  The templates under \<^verbatim>\<open>assets\<close> are rendered here line by line; rendering them cannot
  fail, as they are fixed and call functions that return no error.
\<close>

section \<open>Functions of the templates (\<^verbatim>\<open>config.go\<close>)\<close>

definition cidrMask :: "CIDR \<Rightarrow> string" where
  "cidrMask n = (let (ones, bits) = mask_size (net_mask n)
     in ip_string (ip_mask (ipv4 255 255 255 255) (cidr_mask ones bits)))"

definition networksToString :: "CIDR list \<Rightarrow> string" where
  "networksToString nws = join_with '','' (map CIDR_String nws)"

definition defaultOpenVPNServerConfigFile :: string where
  "defaultOpenVPNServerConfigFile = ''/openvpn-server.config''"

definition defaultOpenVPNClientConfigFile :: string where
  "defaultOpenVPNClientConfigFile = ''/openvpn-client.config''"

definition defaultConfigFilePermissions :: nat where "defaultConfigFilePermissions = 384"

section \<open>The client (\<^verbatim>\<open>config_client.go\<close>)\<close>

record ClientValues =
  cv_IPFamily :: string
  cv_ReversedVPNHeader :: string
  cv_ReversedVPNHeaderKey :: string
  cv_Endpoint :: string
  cv_OpenVPNPort :: nat
  cv_ManagementPort :: nat
  cv_VPNClientIndex :: int
  cv_IsShootClient :: bool
  cv_IsHA :: bool
  cv_Device :: string
  cv_SeedPodNetwork :: string
  cv_IsDualStack :: bool
  cv_TunMTU :: int

definition client_lines :: "ClientValues \<Rightarrow> string list" where
  "client_lines cfg =
     [''verb 3'', '''', ''# don'' @ [CHR 0x27] @ ''t cache authorization information in memory'', ''auth-nocache'', '''',
      ''# Additional optimizations'', ''txqueuelen 1000'', ''tcp-nodelay''] @
     (if cv_TunMTU cfg \<noteq> 0 then [''tun-mtu '' @ int_string (cv_TunMTU cfg)] else []) @
     ['''', ''# get all routing information from server'', ''pull'', ''data-ciphers AES-256-GCM'', ''tls-client'', '''',
      ''# retry every second, increase retry timeout to max 5'', ''connect-retry 1 5'', '''', ''auth SHA256'',
      ''tls-auth \"/srv/secrets/tlsauth/vpn.tlsauth\" 1'', '''',
      ''# https://openvpn.net/index.php/open-source/documentation/howto.html#mitm'', ''remote-cert-tls server''] @
     (if cv_IsDualStack cfg then [''proto tcp-client'']
      else if cv_IPFamily cfg = ''IPv4'' then [''proto tcp4-client'']
      else if cv_IPFamily cfg = ''IPv6'' then [''proto tcp6-client''] else []) @
     (let dir = (if cv_VPNClientIndex cfg = -1 then ''/srv/secrets/vpn-client''
                 else ''/srv/secrets/vpn-client-'' @ int_string (cv_VPNClientIndex cfg))
      in [''key '' @ dir @ ''/tls.key'', ''cert '' @ dir @ ''/tls.crt'', ''ca '' @ dir @ ''/ca.crt'']) @
     (if cv_IsShootClient cfg
      then [''http-proxy '' @ cv_Endpoint cfg @ '' '' @ dec_string (cv_OpenVPNPort cfg),
            ''http-proxy-option CUSTOM-HEADER '' @ cv_ReversedVPNHeaderKey cfg @ '' '' @ cv_ReversedVPNHeader cfg,
            ''management 127.0.0.1 '' @ dec_string (cv_ManagementPort cfg)] else []) @
     ['''', ''dev '' @ cv_Device cfg, ''remote '' @ cv_Endpoint cfg] @
     (if cv_IsShootClient cfg \<and> \<not> cv_IsHA cfg
      then [''script-security 2'',
            ''up \"/bin/sh -c '' @ [CHR 0x27] @ ''/sbin/ip route replace '' @ cv_SeedPodNetwork cfg @ '' dev $1'' @ [CHR 0x27] @
            '' -- \"''] else [])"

definition generateClientConfig :: "ClientValues \<Rightarrow> string" where
  "generateClientConfig cfg = join_with newline (client_lines cfg) @ newline"

definition WriteClientConfigFile :: "'w os \<Rightarrow> ClientValues \<Rightarrow> (go_error, 'w) effect" where
  "WriteClientConfigFile sys v =
     WriteFile sys defaultOpenVPNClientConfigFile (generateClientConfig v) defaultConfigFilePermissions"

section \<open>The server (\<^verbatim>\<open>config_server.go\<close>)\<close>

definition clientConfigDir :: string where "clientConfigDir = ''/client-config-dir''"
definition ShootClientPrefix :: string where "ShootClientPrefix = ''vpn-shoot-client''"
definition SeedClientPrefix :: string where "SeedClientPrefix = ''vpn-seed-client''"

text \<open>The lines that run the firewall command when the tunnel device comes up and goes down.\<close>

definition up_line :: "SeedServerValues \<Rightarrow> string" where
  "up_line cfg = ''up \"/bin/vpn-server firewall --mode up --device '' @ sv_Device cfg @ '' --shoot-network='' @
     networksToString (sv_ShootNetworks cfg) @ '' --seed-pod-network='' @ CIDR_String (sv_SeedPodNetwork cfg) @ ''\"''"

definition down_line :: "SeedServerValues \<Rightarrow> string" where
  "down_line cfg = ''down \"/bin/vpn-server firewall --mode down --device '' @ sv_Device cfg @ ''\"''"

definition server_lines :: "SeedServerValues \<Rightarrow> string list" where
  "server_lines cfg =
     [''verb 3'', ''mode server'', ''tls-server'', ''topology subnet'', '''', ''# Additional optimizations'', ''txqueuelen 1000'',
      ''tcp-nodelay''] @
     (if sv_TunMTU cfg \<noteq> 0
      then [''tun-mtu '' @ int_string (sv_TunMTU cfg), ''push \"tun-mtu '' @ int_string (sv_TunMTU cfg) @ ''\"''] else []) @
     ['''', ''data-ciphers AES-256-GCM:AES-256-CBC'', '''',
      ''# port can always be 1194 here as it is not visible externally. A different'',
      ''# port can be configured for the external load balancer in the service'', ''# manifest'', ''port 1194'', '''',
      ''# send ping every 10 seconds, assume peer is down after 30 seconds without traffic'',
      ''# this value is pushed to the client, timeout is doubled on the server side, so the client is considered down after 60 seconds without traffic'',
      ''keepalive 10 30'', '''', ''# max number of routes per client.'',
      ''max-routes-per-client '' @ int_string (sv_MaxRoutesPerClient cfg), '''',
      ''## disabled until https://github.com/OpenVPN/openvpn/issues/1063 is resolved'',
      ''# routes go stale after 5 minutes, clean up every 10 minutes'', ''# stale-routes-check 300 600'', '''',
      ''# client-config-dir to push client specific configuration'', ''client-config-dir /client-config-dir'', '''',
      ''key \"/srv/secrets/vpn-server/tls.key\"'', ''cert \"/srv/secrets/vpn-server/tls.crt\"'',
      ''ca \"/srv/secrets/vpn-server/ca.crt\"'', ''dh none'', '''', ''auth SHA256'',
      ''tls-auth \"/srv/secrets/tlsauth/vpn.tlsauth\" 0'', '''', ''# always listen on both IPv4 & IPv6 via tcp6-server'',
      ''proto tcp6-server'', '''', ''server-ipv6 '' @ CIDR_String (sv_OpenVPNNetwork cfg)] @
     (if sv_IsHA cfg then ['''', ''client-to-client'', ''duplicate-cn''] else []) @
     ['''', ''dev '' @ sv_Device cfg, '''', ''script-security 2'', up_line cfg, down_line cfg, ''''] @
     (if sv_StatusPath cfg \<noteq> '''' then [''status '' @ sv_StatusPath cfg @ '' 15'', ''status-version 2''] else [''''])"

definition generateSeedServerConfig :: "SeedServerValues \<Rightarrow> string" where
  "generateSeedServerConfig cfg = join_with newline (server_lines cfg)"

definition generateConfigForClientFromServer :: "SeedServerValues \<Rightarrow> string" where
  "generateConfigForClientFromServer cfg =
     concat (map (\<lambda>n. newline @ ''iroute '' @ ip_string (net_ip n) @ '' '' @ cidrMask n) (sv_ShootNetworksV4 cfg)) @
     concat (map (\<lambda>n. newline @ ''iroute-ipv6 '' @ CIDR_String n) (sv_ShootNetworksV6 cfg)) @ newline"

definition client_config_path :: string where
  "client_config_path = clientConfigDir @ ''/'' @ ShootClientPrefix"

text \<open>\<^verbatim>\<open>os.Mkdir\<close>, for which an existing directory is fine.\<close>

definition make_dir :: "'w os \<Rightarrow> (go_error, 'w) effect" where
  "make_dir sys w =
     (case Mkdir sys clientConfigDir 488 w of
        (Some e, w1) \<Rightarrow> if \<not> IsExist sys e then (Some e, w1) else (None, w1)
      | (None, w1) \<Rightarrow> (None, w1))"

definition WriteServerConfigFiles :: "'w os \<Rightarrow> SeedServerValues \<Rightarrow> (go_error, 'w) effect" where
  "WriteServerConfigFiles sys v =
     and_then (WriteFile sys defaultOpenVPNServerConfigFile (generateSeedServerConfig v) defaultConfigFilePermissions)
    (and_then (make_dir sys)
    (and_then (WriteFile sys client_config_path (generateConfigForClientFromServer v) defaultConfigFilePermissions)
     (if sv_IsHA v
      then each (\<lambda>i. WriteFile sys (client_config_path @ ''-'' @ int_string (int i)) '''' defaultConfigFilePermissions)
             [0..<nat (sv_HAVPNClients v)]
      else skip)))"

end
