(* ===== verification/Health.thy ===== *)
theory Health
  imports Go_Text OpenVPN_Config
begin

text \<open>
  \<^verbatim>\<open>pkg/openvpn/health\<close>: the status file that OpenVPN writes (\<^verbatim>\<open>status.go\<close>), and what the
  liveness and readiness probes conclude from it (\<^verbatim>\<open>readiness.go\<close>).  Logging is left out.
\<close>

section \<open>Addresses of clients\<close>

text \<open>
  \<^verbatim>\<open>netip.AddrPort\<close>; an IPv4 address has 4 bytes, an IPv6 address 16, also when it maps an IPv4
  address.  The zero value has no address.
\<close>

record AddrPort =
  ap_addr :: ip
  ap_port :: nat

definition ParseAddr :: "string \<Rightarrow> go_error + ip" where
  "ParseAddr s = (case parse_addr s of Some a \<Rightarrow> Inr a | None \<Rightarrow> Inl (Foreign ''ParseAddr: unable to parse IP''))"

text \<open>The text before and after the last colon.\<close>

definition split_last_colon :: "string \<Rightarrow> (string \<times> string) option" where
  "split_last_colon s =
     (let parts = split_on (CHR '':'') s
      in if length parts = 1 then None else Some (join_with '':'' (butlast parts), last parts))"

definition in_brackets :: "string \<Rightarrow> bool" where
  "in_brackets s \<longleftrightarrow> 2 \<le> length s \<and> hd s = CHR ''['' \<and> last s = CHR '']''"

definition ParseAddrPort :: "string \<Rightarrow> go_error + AddrPort" where
  "ParseAddrPort s =
     (case split_last_colon s of
        None \<Rightarrow> Inl (Foreign ''not an ip:port'')
      | Some (host, port) \<Rightarrow>
          if host = [] then Inl (Foreign ''no IP'')
          else if port = [] then Inl (Foreign ''no port'')
          else if hd host = CHR ''['' \<and> \<not> in_brackets host then Inl (Foreign ''missing ]'')
          else (let v6 = in_brackets host; ipStr = (if v6 then butlast (tl host) else host)
                in case ParseUint 16 port of
                     Inl e \<Rightarrow> Inl (Foreign ''invalid port'')
                   | Inr p \<Rightarrow> bind_r (ParseAddr ipStr) (\<lambda>a.
                       if v6 \<and> length a = 4
                       then Inl (Foreign ''invalid ip:port, square brackets can only be used with IPv6 addresses'')
                       else if \<not> v6 \<and> length a = 16
                       then Inl (Foreign ''invalid ip:port, IPv6 addresses must be surrounded by square brackets'')
                       else Inr \<lparr>ap_addr = a, ap_port = p\<rparr>)))"

text \<open>
  The parts of \<^verbatim>\<open>^(?:(?:udp|tcp)(?:4|6)?(?:-(?:client|server))?\:)?(\[?[a-fA-F0-9:.]+\]?)?(?::(\d+))?$\<close>
  and its two submatches.
\<close>

definition re_protocol :: regex where
  "re_protocol =
     re_seq (re_or (re_text ''udp'') (re_text ''tcp''))
    (re_seq (re_opt (re_or (re_text ''4'') (re_text ''6'')))
    (re_seq (re_opt (re_seq (re_text ''-'') (re_or (re_text ''client'') (re_text ''server''))))
            (re_text '':'')))"

definition address_char :: "char \<Rightarrow> bool" where
  "address_char c \<longleftrightarrow> hex_val c \<noteq> None \<or> c = CHR '':'' \<or> c = CHR ''.''"

definition re_address :: regex where
  "re_address = re_seq (re_opt (re_text ''['')) (re_seq (re_plus address_char) (re_opt (re_text '']'')))"

definition re_port :: regex where
  "re_port = re_seq (re_text '':'') (re_plus is_digit)"

definition address_matches :: "string \<Rightarrow> (string \<times> string) list" where
  "address_matches s =
     concat (map (\<lambda>(_, r1). concat (map (\<lambda>(ipStr, r2).
       map (\<lambda>(port, _). (ipStr, drop 1 port)) (filter (\<lambda>(_, r3). r3 = []) (re_opt re_port r2)))
       (re_opt re_address r1))) (re_opt re_protocol s))"

definition parseRealClientAddress :: "string \<Rightarrow> go_error + AddrPort" where
  "parseRealClientAddress addrStr =
     (case address_matches addrStr of
        [] \<Rightarrow> Inl (Errorf ''invalid address format: %s'' [addrStr])
      | (ipStr, portStr) # _ \<Rightarrow>
          if portStr \<noteq> [] then ParseAddrPort (ipStr @ '':'' @ portStr)
          else (case ParseAddrPort ipStr of
                  Inr addrPort \<Rightarrow> Inr addrPort
                | Inl _ \<Rightarrow> bind_r (ParseAddr ipStr) (\<lambda>a. Inr \<lparr>ap_addr = a, ap_port = 0\<rparr>)))"

section \<open>The status file\<close>

record ClientInfo =
  ci_CommonName :: string
  ci_RealAddress :: AddrPort
  ci_VirtualAddress :: string
  ci_VirtualIPv6Address :: ip
  ci_BytesReceived :: nat
  ci_BytesSent :: nat
  ci_ConnectedSince :: int
  ci_Username :: string
  ci_ClientID :: string
  ci_PeerID :: string
  ci_DataChannelCipher :: string

record RoutingEntry =
  re_VirtualAddress :: string
  re_CommonName :: string
  re_RealAddress :: AddrPort
  re_LastRef :: int

record OpenVPNStatus =
  st_Version :: string
  st_UpdatedAt :: int
  st_Clients :: "ClientInfo list"
  st_RoutingTable :: "RoutingEntry list"
  st_GlobalStats :: "string \<rightharpoonup> string"

definition zero_status :: OpenVPNStatus where
  "zero_status = \<lparr>st_Version = [], st_UpdatedAt = 0, st_Clients = [], st_RoutingTable = [], st_GlobalStats = Map.empty\<rparr>"

definition ParseTime :: "string \<Rightarrow> go_error + int" where
  "ParseTime s = (case ParseDateTime s of Some t \<Rightarrow> Inr t | None \<Rightarrow> Inl (Foreign ''time.ParseError''))"

definition client_info :: "string list \<Rightarrow> go_error + ClientInfo" where
  "client_info parts =
     bind_r (ParseTime (parts ! 7)) (\<lambda>connectedSince.
       (let ipv6 = (case parse_ip (parts ! 4) of Some a \<Rightarrow> a | None \<Rightarrow> [])
        in case parseRealClientAddress (parts ! 2) of
             Inl e \<Rightarrow> Inl (Wrapf ''CLIENT_LIST: can't parse real client address: %s (%w)'' [parts ! 2] e)
           | Inr realAddress \<Rightarrow>
               bind_r (ParseUint 64 (parts ! 5)) (\<lambda>bytesReceived.
               bind_r (ParseUint 64 (parts ! 6)) (\<lambda>bytesSent.
                 Inr \<lparr>ci_CommonName = parts ! 1, ci_RealAddress = realAddress, ci_VirtualAddress = parts ! 3,
                      ci_VirtualIPv6Address = ipv6, ci_BytesReceived = bytesReceived, ci_BytesSent = bytesSent,
                      ci_ConnectedSince = connectedSince, ci_Username = parts ! 9, ci_ClientID = parts ! 10,
                      ci_PeerID = parts ! 11, ci_DataChannelCipher = parts ! 12\<rparr>))))"

definition routing_entry :: "string list \<Rightarrow> go_error + RoutingEntry" where
  "routing_entry parts =
     bind_r (ParseTime (parts ! 4)) (\<lambda>lastRef.
       (case parseRealClientAddress (parts ! 3) of
          Inl e \<Rightarrow> Inl (Wrapf ''ROUTING_TABLE: can't parse real client address: %s (%w)'' [parts ! 3] e)
        | Inr realAddress \<Rightarrow>
            Inr \<lparr>re_VirtualAddress = parts ! 1, re_CommonName = parts ! 2, re_RealAddress = realAddress, re_LastRef = lastRef\<rparr>))"

definition status_line :: "string \<Rightarrow> OpenVPNStatus \<Rightarrow> go_error + OpenVPNStatus" where
  "status_line line status =
     (if line = '''' \<or> line = ''END'' then Inr status
      else (let parts = split_on (CHR '','') line; kind = hd parts
        in if kind = ''TITLE'' then Inr (status\<lparr>st_Version := join_with '','' (tl parts)\<rparr>)
           else if kind = ''TIME''
           then (if 2 \<le> length parts then bind_r (ParseTime (parts ! 1)) (\<lambda>t. Inr (status\<lparr>st_UpdatedAt := t\<rparr>))
                 else Inl (Errorf ''invalid TIME line: %s'' [line]))
           else if kind = ''CLIENT_LIST''
           then (if 13 \<le> length parts
                 then bind_r (client_info parts) (\<lambda>c. Inr (status\<lparr>st_Clients := st_Clients status @ [c]\<rparr>))
                 else Inl (Errorf ''invalid CLIENT_LIST line: %s'' [line]))
           else if kind = ''ROUTING_TABLE''
           then (if 5 \<le> length parts
                 then bind_r (routing_entry parts) (\<lambda>r. Inr (status\<lparr>st_RoutingTable := st_RoutingTable status @ [r]\<rparr>))
                 else Inl (Errorf ''invalid ROUTING_TABLE line: %s'' [line]))
           else if kind = ''GLOBAL_STATS''
           then (if 2 \<le> length parts
                 then Inr (status\<lparr>st_GlobalStats := (st_GlobalStats status)(parts ! 1 \<mapsto> join_with '','' (drop 2 parts))\<rparr>)
                 else Inl (Errorf ''invalid GLOBAL_STATS line: %s'' [line]))
           else if kind = ''HEADER'' then Inr status
           else Inl (Errorf ''unknown line type: %s'' [line])))"

fun status_lines :: "string list \<Rightarrow> OpenVPNStatus \<Rightarrow> go_error + OpenVPNStatus" where
  "status_lines [] status = Inr status"
| "status_lines (l # ls) status = bind_r (status_line l status) (status_lines ls)"

definition ParseOpenVPNStatus :: "string \<Rightarrow> go_error + OpenVPNStatus" where
  "ParseOpenVPNStatus content =
     (let (ls, long) = scan_lines content
      in bind_r (status_lines ls zero_status) (\<lambda>status. if long then Inl ErrTooLong else Inr status))"

definition ParseFile :: "'w os \<Rightarrow> string \<Rightarrow> 'w \<Rightarrow> (go_error + OpenVPNStatus) \<times> 'w" where
  "ParseFile sys filePath w =
     (case ReadFile sys filePath w of
        (Inl e, w1) \<Rightarrow> (Inl e, w1)
      | (Inr content, w1) \<Rightarrow> (ParseOpenVPNStatus content, w1))"

section \<open>Liveness and readiness\<close>

text \<open>
  Differences of times saturate at the limits of a signed 64-bit number (\<^verbatim>\<open>time.Since\<close>); the product
  with \<^verbatim>\<open>time.Second\<close> wraps.
\<close>

definition saturate64 :: "int \<Rightarrow> int" where
  "saturate64 d = max (- (2 ^ 63)) (min d (2 ^ 63 - 1))"

definition wrap64 :: "int \<Rightarrow> int" where
  "wrap64 i = sint (word_of_int i :: 64 word)"

definition isUp :: "int \<Rightarrow> OpenVPNStatus option \<Rightarrow> int \<Rightarrow> bool" where
  "isUp now status updateInterval =
     (case status of
        None \<Rightarrow> False
      | Some st \<Rightarrow> saturate64 (now - st_UpdatedAt st) \<le> wrap64 (wrap64 (updateInterval + 2) * Second))"

text \<open>The loop over the clients of a highly available server: what was found of the two sides.\<close>

fun find_sides :: "ClientInfo list \<Rightarrow> bool \<Rightarrow> bool \<Rightarrow> bool \<times> bool" where
  "find_sides [] foundSeedClient foundShootClient = (foundSeedClient, foundShootClient)"
| "find_sides (c # cs) foundSeedClient foundShootClient =
     (if has_prefix (ci_CommonName c) SeedClientPrefix then find_sides cs True foundShootClient
      else if has_prefix (ci_CommonName c) ShootClientPrefix then find_sides cs foundSeedClient True
      else find_sides cs foundSeedClient foundShootClient)"

definition isReady :: "OpenVPNStatus option \<Rightarrow> bool \<Rightarrow> bool" where
  "isReady status isHA =
     (case status of
        None \<Rightarrow> False
      | Some st \<Rightarrow>
          if isHA
          then (if length (st_Clients st) < 2 then False
                else (let (foundSeedClient, foundShootClient) = find_sides (st_Clients st) False False
                      in foundSeedClient \<and> foundShootClient))
          else if length (st_Clients st) = 0 then True
          else list_ex (\<lambda>c. has_prefix (ci_CommonName c) ShootClientPrefix) (st_Clients st))"

record health_Config =
  hc_OpenVPNStatusPath :: string
  hc_OpenVPNStatusUpdateInterval :: int
  hc_IsHA :: bool

definition NewDefaultConfig :: health_Config where
  "NewDefaultConfig =
     \<lparr>hc_OpenVPNStatusPath = ''/srv/status/openvpn.status'', hc_OpenVPNStatusUpdateInterval = 15, hc_IsHA = False\<rparr>"

text \<open>\<open>Now\<close> is the clock, read after the file.\<close>

definition IsAlive :: "'w os \<Rightarrow> ('w \<Rightarrow> int) \<Rightarrow> health_Config \<Rightarrow> 'w \<Rightarrow> bool \<times> 'w" where
  "IsAlive sys Now cfg w =
     (case ParseFile sys (hc_OpenVPNStatusPath cfg) w of
        (Inl e, w1) \<Rightarrow> (False, w1)
      | (Inr status, w1) \<Rightarrow> (isUp (Now w1) (Some status) (hc_OpenVPNStatusUpdateInterval cfg), w1))"

definition IsReady :: "'w os \<Rightarrow> health_Config \<Rightarrow> 'w \<Rightarrow> bool \<times> 'w" where
  "IsReady sys cfg w =
     (case ParseFile sys (hc_OpenVPNStatusPath cfg) w of
        (Inl e, w1) \<Rightarrow> (False, w1)
      | (Inr status, w1) \<Rightarrow> (isReady (Some status) (hc_IsHA cfg), w1))"

end
