(* ===== verification/Health_Proofs.thy ===== *)
theory Health_Proofs
  imports Health CIDR_Text Machine
begin

text \<open>
  The status file of OpenVPN: what is written is read back, and what the probes conclude from it.
\<close>

section \<open>Characters of addresses\<close>

lemma hex_val_digit_char: "is_digit c \<Longrightarrow> hex_val c \<noteq> None"
  by (auto simp: hex_val_def is_digit_def)

lemma address_char_digit [simp]: "is_digit c \<Longrightarrow> address_char c"
  by (simp add: address_char_def hex_val_digit_char)

lemma address_char_marks [simp]: "address_char CHR '':''" "address_char CHR ''.''"
  by (simp_all add: address_char_def)

lemma not_address_char [simp]:
  "\<not> address_char CHR ''[''" "\<not> address_char CHR '']''" "\<not> address_char CHR '',''"
  "\<not> address_char CHR ''u''" "\<not> address_char CHR ''t''" "\<not> address_char CHR 0x0A" "\<not> address_char CHR 0x0D"
  by (simp_all add: address_char_def hex_val_def is_digit_def less_eq_char_def)

lemma address_ip4: "list_all address_char (ip4_string a)"
  unfolding list_all_iff using address_char_digit address_char_marks(2) ip4_string_chars by blast

lemma address_dec: "list_all address_char (dec_string n)"
  using dec_string_digits [of n] by (auto simp: list_all_iff)

lemma address_hex: "list_all address_char (hex_string n)"
  using hex_string_chars [of n] by (auto simp: list_all_iff is_hex_def address_char_def)

lemma list_all_join: "list_all P sep \<Longrightarrow> list_all (list_all P) fs \<Longrightarrow> list_all P (join_with sep fs)"
  by (induction sep fs rule: join_with.induct) auto

lemma address_ip6: "list_all address_char (ip6_string a)"
proof -
  have "list_all address_char (join_with '':'' (map hex_string gs))" for gs
    by (rule list_all_join) (auto simp: list_all_iff address_hex [unfolded list_all_iff])
  then show ?thesis by (simp add: ip6_string_def Let_def split: prod.split)
qed

section \<open>The pattern of an address\<close>

definition body_matches :: "string \<Rightarrow> (string \<times> string) list" where
  "body_matches r1 = concat (map (\<lambda>(ipStr, r2).
     map (\<lambda>(port, _). (ipStr, drop 1 port)) (filter (\<lambda>(_, r3). r3 = []) (re_opt re_port r2))) (re_opt re_address r1))"

lemma address_matches_body: "address_matches s = concat (map (\<lambda>(_, r). body_matches r) (re_opt re_protocol s))"
  by (simp add: address_matches_def body_matches_def)

definition protocols :: "string set" where
  "protocols = {base @ family @ side @ '':'' | base family side.
     base \<in> {''udp'', ''tcp''} \<and> family \<in> {'''', ''4'', ''6''} \<and> side \<in> {'''', ''-client'', ''-server''}}"

lemma re_text_simps [simp]:
  "re_text [] s = [([], s)]" "re_text (c # t) [] = []"
  "re_text (c # t) (d # s) = (if c = d then map (\<lambda>(x, r). (d # x, r)) (re_text t s) else [])"
  by (auto simp: re_text_def has_prefix_def)

lemma re_text_append [simp]: "re_text t (t @ s) = [(t, s)]"
  by (induction t) auto

lemmas re_simps = re_seq_def re_or_def re_opt_def

lemma side_read:
  assumes "side \<in> {'''', ''-client'', ''-server''}"
  shows "re_seq (re_opt (re_seq (re_text ''-'') (re_or (re_text ''client'') (re_text ''server'')))) (re_text '':'') (side @ '':'' @ s) =
    [(side @ '':'', s)]"
  using assms by (auto simp: re_simps)

lemma family_read:
  assumes "family \<in> {'''', ''4'', ''6''}" and "b r = [(y, t)]"
    and "b (''4'' @ r) = []" "b (''6'' @ r) = []" and "re_text ''4'' r = []" "re_text ''6'' r = []"
  shows "re_seq (re_opt (re_or (re_text ''4'') (re_text ''6''))) b (family @ r) = [(family @ y, t)]"
  using assms by (auto simp: re_simps)

lemma protocol_read: "proto \<in> protocols \<Longrightarrow> re_protocol (proto @ s) = [(proto, s)]"
proof -
  assume "proto \<in> protocols"
  then obtain base family side where base: "base \<in> {''udp'', ''tcp''}" and proto: "proto = base @ family @ side @ '':''"
    and rest: "family \<in> {'''', ''4'', ''6''}" "side \<in> {'''', ''-client'', ''-server''}"
    by (auto simp: protocols_def)
  have "re_or (re_text ''udp'') (re_text ''tcp'') (base @ r) = [(base, r)]" for r
    using base by (auto simp: re_or_def)
  moreover have "re_seq (re_opt (re_or (re_text ''4'') (re_text ''6'')))
     (re_seq (re_opt (re_seq (re_text ''-'') (re_or (re_text ''client'') (re_text ''server'')))) (re_text '':''))
     (family @ side @ '':'' @ s) = [(family @ side @ '':'', s)]"
    by (rule family_read [OF rest(1)], rule side_read [OF rest(2)]) (use rest(2) in \<open>auto simp: re_simps\<close>)
  ultimately show ?thesis
    by (simp add: re_protocol_def proto re_seq_def [of "re_or (re_text ''udp'') (re_text ''tcp'')"])
qed

lemma protocol_absent: "s \<noteq> [] \<Longrightarrow> hd s \<noteq> CHR ''u'' \<Longrightarrow> hd s \<noteq> CHR ''t'' \<Longrightarrow> re_protocol s = []"
  by (cases s) (auto simp: re_protocol_def re_seq_def re_or_def)

lemma plus_first:
  assumes "list_all P u" and "u \<noteq> []" and "v = [] \<or> \<not> P (hd v)"
  shows "\<exists>t. re_plus P (u @ v) = (u, v) # t"
proof -
  have "takeWhile P (u @ v) = u"
    using assms(1,3) by (cases v) (auto simp: list_all_iff takeWhile_tail)
  then show ?thesis using assms(2) by (cases u) (simp_all add: re_plus_def)
qed

lemma body_plain:
  assumes "list_all address_char s" and "s \<noteq> []"
  shows "\<exists>t. body_matches s = (s, []) # t"
proof -
  obtain t where "re_plus address_char s = (s, []) # t"
    using plus_first [OF assms, of "[]"] by auto
  moreover have "\<not> has_prefix s ''[''" using assms by (cases s) (auto simp: has_prefix_def)
  ultimately show ?thesis
    by (simp add: body_matches_def re_address_def re_opt_def re_seq_def re_text_def re_port_def has_prefix_def)
qed

lemma body_brackets:
  assumes "list_all address_char s" and "s \<noteq> []" and "list_all is_digit p" and "p \<noteq> []"
  shows "\<exists>t. body_matches (''['' @ s @ '']:'' @ p) = (''['' @ s @ '']'', p) # t"
proof -
  obtain t where t: "re_plus address_char (s @ '']:'' @ p) = (s, '']:'' @ p) # t"
    using plus_first [OF assms(1,2), of "'']:'' @ p"] by auto
  obtain u where u: "re_plus is_digit p = (p, []) # u"
    using plus_first [OF assms(3,4), of "[]"] by auto
  have "\<exists>v. re_address (''['' @ s @ '']:'' @ p) = (''['' @ s @ '']'', '':'' @ p) # v"
    using t by (simp add: re_address_def re_opt_def re_seq_def re_text_def has_prefix_def)
  moreover have "\<exists>v. re_port ('':'' @ p) = ('':'' @ p, []) # v"
    using u by (simp add: re_port_def re_seq_def re_text_def has_prefix_def)
  ultimately show ?thesis by (auto simp: body_matches_def re_opt_def)
qed

lemma address_first:
  assumes "proto = [] \<or> proto \<in> protocols" and "\<exists>t. body_matches s = m # t"
    and "s \<noteq> []" and "address_char (hd s) \<or> hd s = CHR ''[''"
  shows "\<exists>t. address_matches (proto @ s) = m # t"
proof -
  have "hd s \<noteq> CHR ''u''" "hd s \<noteq> CHR ''t''" using assms(4) not_address_char(4,5) by force+
  then have "re_opt re_protocol s = [([], s)]"
    using protocol_absent [OF assms(3)] by (simp add: re_opt_def)
  then show ?thesis
    using assms(1,2) by (auto simp: address_matches_body re_opt_def protocol_read)
qed

section \<open>Addresses and ports\<close>

lemma split_last_colon_append: "CHR '':'' \<notin> set t \<Longrightarrow> split_last_colon (s @ CHR '':'' # t) = Some (s, t)"
  by (simp add: split_last_colon_def split_on_parts split_on_no_sep join_split_on length_split_on Let_def)

lemma split_last_colon_text:
  assumes "split_last_colon s = Some (h, p)"
  shows "s = h @ CHR '':'' # p"
proof -
  let ?ps = "split_on (CHR '':'') s"
  have len: "length ?ps \<noteq> 1" "h = join_with '':'' (butlast ?ps)" "p = last ?ps"
    using assms by (auto simp: split_last_colon_def Let_def split: if_splits)
  have join: "join_with '':'' (xs @ [x]) = join_with '':'' xs @ '':'' @ x" if "xs \<noteq> []" for xs x
    using that by (induction "'':''" xs rule: join_with.induct) (auto simp: neq_Nil_conv)
  have "butlast ?ps \<noteq> []" using len(1) by (cases ?ps; cases "tl ?ps") auto
  from join [OF this, of p] have "join_with '':'' (butlast ?ps @ [last ?ps]) = h @ '':'' @ p" using len(2,3) by simp
  then show ?thesis using join_split_on [of "CHR '':''" s] append_butlast_last_id [OF split_on_nonempty [of "CHR '':''" s]] by simp
qed

lemma ParseUint_dec: "n < 2 ^ bits \<Longrightarrow> ParseUint bits (dec_string n) = Inr n"
  using dec_string_digits [of n] by (simp add: ParseUint_def parse_dec_def)

lemma dec_no_colon: "CHR '':'' \<notin> set (dec_string n)"
  by (simp add: dec_string_not_digit)

lemma ip4_no_colon: "CHR '':'' \<notin> set (ip4_string a)"
  using ip4_string_chars [of "CHR '':''" a] by auto

lemma address_head: "list_all address_char s \<Longrightarrow> s \<noteq> [] \<Longrightarrow> hd s \<noteq> CHR ''[''"
  by (cases s) auto

lemma AddrPort_v4:
  assumes "length a = 4" and "p < 2 ^ 16"
  shows "ParseAddrPort (ip4_string a @ '':'' @ dec_string p) = Inr \<lparr>ap_addr = a, ap_port = p\<rparr>"
proof -
  have ne: "ip4_string a \<noteq> []" using parse_addr_ip4_string [OF assms(1)] by (auto simp: parse_addr_def)
  then have "hd (ip4_string a) \<noteq> CHR ''[''" by (rule address_head [OF address_ip4])
  then show ?thesis
    using assms ne
    by (simp add: ParseAddrPort_def split_last_colon_append dec_no_colon in_brackets_def ParseUint_dec [of p 16, simplified]
        ParseAddr_def parse_addr_ip4_string)
qed

lemma AddrPort_v6:
  assumes "length a = 16" and "p < 2 ^ 16"
  shows "ParseAddrPort ((''['' @ ip6_string a @ '']'') @ '':'' @ dec_string p) = Inr \<lparr>ap_addr = a, ap_port = p\<rparr>"
  using assms split_last_colon_append [OF dec_no_colon, of "''['' @ ip6_string a @ '']''" p]
  by (simp add: ParseAddrPort_def in_brackets_def ParseUint_dec [of p 16, simplified] ParseAddr_def parse_addr_v6 butlast_append)

lemma AddrPort_bare:
  assumes "parse_addr s = Some a" and "length a = 16" and "hd s \<noteq> CHR ''[''"
  shows "\<exists>e. ParseAddrPort s = Inl e"
proof (rule ccontr)
  assume "\<nexists>e. ParseAddrPort s = Inl e"
  then obtain r where r: "ParseAddrPort s = Inr r" by (cases "ParseAddrPort s") auto
  then obtain h p where split: "split_last_colon s = Some (h, p)" by (auto simp: ParseAddrPort_def split: option.splits)
  have s: "s = h @ CHR '':'' # p" by (rule split_last_colon_text [OF split])
  have "h \<noteq> []" using r split by (auto simp: ParseAddrPort_def)
  then have "hd h \<noteq> CHR ''[''" using assms(3) s by (cases h) auto
  then obtain b where b: "parse_addr h = Some b" "length b \<noteq> 16"
    using r split by (auto simp: ParseAddrPort_def in_brackets_def Let_def ParseAddr_def result_simps
        split: if_splits sum.splits option.splits)
  let ?P = "\<lambda>c. c \<noteq> CHR ''.'' \<and> c \<noteq> CHR '':'' \<and> c \<noteq> CHR ''%''"
  obtain r where dot: "dropWhile ?P h = CHR ''.'' # r"
    using b parse_ip6_length [of h b] by (auto simp: parse_addr_def split: list.splits if_splits)
  have "dropWhile ?P s = CHR ''.'' # r @ CHR '':'' # p"
    using dot unfolding s by (induction h) (auto split: if_splits)
  then have "parse_ip4 s = Some a" using assms(1) by (simp add: parse_addr_def)
  then show False using parse_octets_ip4 assms(2) by fastforce
qed

text \<open>
  The texts in which OpenVPN writes the address of a client: with the protocol or without it, an
  IPv6 address in brackets when a port follows.
\<close>

definition real_text :: "string \<Rightarrow> AddrPort \<Rightarrow> string" where
  "real_text proto ap =
     proto @ (if length (ap_addr ap) = 4 then ip4_string (ap_addr ap) @ '':'' @ dec_string (ap_port ap)
              else if ap_port ap = 0 then ip6_string (ap_addr ap)
              else ''['' @ ip6_string (ap_addr ap) @ '']:'' @ dec_string (ap_port ap))"

definition real_ok :: "string \<Rightarrow> AddrPort \<Rightarrow> bool" where
  "real_ok proto ap \<longleftrightarrow> (proto = [] \<or> proto \<in> protocols) \<and> length (ap_addr ap) \<in> {4, 16} \<and> ap_port ap < 2 ^ 16"

lemma read_real:
  assumes "real_ok proto ap"
  shows "parseRealClientAddress (real_text proto ap) = Inr ap"
proof -
  obtain a p where ap: "ap = \<lparr>ap_addr = a, ap_port = p\<rparr>" by (cases ap) auto
  have proto: "proto = [] \<or> proto \<in> protocols" and p: "p < 2 ^ 16" and len: "length a = 4 \<or> length a = 16"
    using assms by (auto simp: real_ok_def ap)
  from len show ?thesis
  proof
    assume a: "length a = 4"
    let ?s = "ip4_string a @ '':'' @ dec_string p"
    have "list_all address_char ?s" by (simp add: address_ip4 address_dec)
    moreover have "?s \<noteq> []" by simp
    moreover have "address_char (hd ?s)" using calculation by (metis list.pred_inject(2) list.collapse)
    ultimately obtain t where "address_matches (proto @ ?s) = (?s, []) # t"
      using address_first [OF proto body_plain] by blast
    then show ?thesis
      using a AddrPort_v4 [OF a p] by (simp add: real_text_def ap parseRealClientAddress_def)
  next
    assume a: "length a = 16"
    let ?s = "ip6_string a"
    have chars: "list_all address_char ?s" by (rule address_ip6)
    have ne: "?s \<noteq> []" using parse_addr_v6 [OF a] by (auto simp: parse_addr_def)
    show ?thesis
    proof (cases "p = 0")
      case True
      obtain t where "address_matches (proto @ ?s) = (?s, []) # t"
        using address_first [OF proto body_plain [OF chars ne] ne] chars ne by (cases ?s) auto
      moreover obtain e where "ParseAddrPort ?s = Inl e"
        using AddrPort_bare [OF parse_addr_v6 [OF a] a address_head [OF chars ne]] by blast
      ultimately show ?thesis
        using a True by (simp add: real_text_def ap parseRealClientAddress_def ParseAddr_def parse_addr_v6)
    next
      case False
      obtain t where "address_matches (proto @ ''['' @ ?s @ '']:'' @ dec_string p) = (''['' @ ?s @ '']'', dec_string p) # t"
        using address_first [OF proto body_brackets [OF chars ne dec_string_digits [of p]]] by auto
      then show ?thesis
        using a False AddrPort_v6 [OF a p] by (simp add: real_text_def ap parseRealClientAddress_def)
    qed
  qed
qed

section \<open>Dates\<close>

record date =
  dt_year :: nat
  dt_month :: nat
  dt_day :: nat
  dt_hour :: nat
  dt_min :: nat
  dt_sec :: nat

definition date_ok :: "date \<Rightarrow> bool" where
  "date_ok t \<longleftrightarrow> dt_year t < 10000 \<and> 1 \<le> dt_month t \<and> dt_month t \<le> 12 \<and> 1 \<le> dt_day t \<and>
     dt_day t \<le> days_in_month (dt_year t) (dt_month t) \<and> dt_hour t < 24 \<and> dt_min t < 60 \<and> dt_sec t < 60"

definition date_time :: "date \<Rightarrow> int" where
  "date_time t = time_of (dt_year t) (dt_month t) (dt_day t) (dt_hour t) (dt_min t) (dt_sec t)"

definition pad2 :: "nat \<Rightarrow> string" where
  "pad2 n = [digit_char (n div 10 mod 10), digit_char (n mod 10)]"

definition date_text :: "date \<Rightarrow> string" where
  "date_text t = pad2 (dt_year t div 100) @ pad2 (dt_year t mod 100) @ ''-'' @ pad2 (dt_month t) @ ''-'' @ pad2 (dt_day t) @
     '' '' @ pad2 (dt_hour t) @ '':'' @ pad2 (dt_min t) @ '':'' @ pad2 (dt_sec t)"

lemma dec_value_2: "dec_value [a, b] = digit_val a * 10 + digit_val b"
  by (simp add: dec_value_def)

lemma two_digits_pad2: "n < 100 \<Longrightarrow> two_digits (pad2 n @ r) = Some (n, r)"
  by (simp add: two_digits_def pad2_def dec_value_2 digit_char_dec)

lemma one_or_two_pad2: "n < 100 \<Longrightarrow> one_or_two_digits (pad2 n @ r) = Some (n, r)"
  by (simp add: one_or_two_digits_def two_digits_pad2)

lemma digits_of_100: "(n :: nat) < 100 \<Longrightarrow> n div 10 mod 10 * 10 + n mod 10 = n"
  by simp

lemma dec_value_pad2: "m < 100 \<Longrightarrow> n < 100 \<Longrightarrow> dec_value (pad2 m @ pad2 n) = m * 100 + n"
  using digits_of_100 [of m] digits_of_100 [of n] by (simp add: pad2_def dec_value_def digit_char_dec)

lemma four_digits_Cons:
  "four_digits (a # b # c # d # r) = (if list_all is_digit [a, b, c, d] then Some (dec_value [a, b, c, d], r) else None)"
  by (simp add: four_digits_def take_Cons' drop_Cons')

lemma four_digits_pad2:
  assumes "y < 10000"
  shows "four_digits (pad2 (y div 100) @ pad2 (y mod 100) @ r) = Some (y, r)"
proof -
  have "dec_value (pad2 (y div 100) @ pad2 (y mod 100)) = y"
    using dec_value_pad2 [of "y div 100" "y mod 100"] assms by simp
  moreover have "four_digits (pad2 m @ pad2 n @ r) = Some (dec_value (pad2 m @ pad2 n), r)" for m n
    by (simp add: pad2_def four_digits_Cons digit_char_dec)
  ultimately show ?thesis by simp
qed

lemma skip_blank_pad2: "skip_blank ('' '' @ pad2 n @ r) = Some (pad2 n @ r)"
proof -
  have "\<not> is_digit (CHR '' '')" by (simp add: is_digit_def less_eq_char_def)
  then have "digit_char (n div 10 mod 10) \<noteq> CHR '' ''" using digit_char_dec(1) [of "n div 10 mod 10"] by force
  then show ?thesis by (simp add: skip_blank_def pad2_def)
qed

lemma days_in_month_max: "days_in_month y m \<le> 31" if "1 \<le> m" "m \<le> 12"
proof -
  have "m = 1 \<or> m = 2 \<or> m = 3 \<or> m = 4 \<or> m = 5 \<or> m = 6 \<or> m = 7 \<or> m = 8 \<or> m = 9 \<or> m = 10 \<or> m = 11 \<or> m = 12"
    using that by presburger
  then show ?thesis by (auto simp: days_in_month_def)
qed

lemma read_date:
  assumes "date_ok t"
  shows "ParseDateTime (date_text t) = Some (date_time t)"
proof -
  obtain y mo d h mi se where t: "t = \<lparr>dt_year = y, dt_month = mo, dt_day = d, dt_hour = h, dt_min = mi, dt_sec = se\<rparr>"
    by (cases t) auto
  have "d \<le> 31" using assms days_in_month_max [of mo y] by (simp add: date_ok_def t)
  moreover have "two_digits (pad2 se) = Some (se, [])"
    using two_digits_pad2 [of se "[]"] assms by (simp add: date_ok_def t)
  ultimately show ?thesis
    using assms skip_blank_pad2 [of h] unfolding ParseDateTime_def date_text_def
    by (simp add: date_ok_def t four_digits_pad2 two_digits_pad2 one_or_two_pad2 expect_def fraction_def date_time_def)
qed

lemma digit_plain: "is_digit c \<Longrightarrow> c \<noteq> CHR '','' \<and> c \<noteq> CHR 0x0A \<and> c \<noteq> CHR 0x0D"
  by (auto simp: is_digit_def less_eq_char_def)

section \<open>The status file\<close>

text \<open>A field, which has no comma.\<close>

definition field :: "string \<Rightarrow> bool" where
  "field f \<longleftrightarrow> CHR '','' \<notin> set f"

definition fields_line :: "string list \<Rightarrow> string" where
  "fields_line fs = join_with '','' fs"

lemma split_fields: "fs \<noteq> [] \<Longrightarrow> list_all field fs \<Longrightarrow> split_on (CHR '','') (fields_line fs) = fs"
  unfolding fields_line_def by (rule split_on_join) (auto simp: field_def list_all_iff)

lemma field_address: "list_all address_char s \<Longrightarrow> field s"
  by (auto simp: field_def list_all_iff)

lemma field_append [simp]: "field (s @ t) \<longleftrightarrow> field s \<and> field t"
  by (auto simp: field_def)

lemma field_literal [simp]: "field []" "field (c # s) \<longleftrightarrow> c \<noteq> CHR '','' \<and> field s"
  by (auto simp: field_def)

lemma field_dec [simp]: "field (dec_string n)"
  by (rule field_address [OF address_dec])

lemma field_date [simp]: "field (date_text t)"
proof -
  have "field (pad2 n)" for n using digit_char_dec(1) digit_plain by (simp add: pad2_def)
  then show ?thesis by (simp add: date_text_def)
qed

lemma field_real: "real_ok proto ap \<Longrightarrow> field (real_text proto ap)"
proof -
  assume "real_ok proto ap"
  then have "field proto" by (auto simp: real_ok_def protocols_def)
  then show ?thesis by (simp add: real_text_def field_address address_ip4 address_ip6)
qed

text \<open>
  What OpenVPN writes: the entries of a status file, each with the dates and the addresses as they
  were printed (\<open>proto\<close> is the protocol before an address, \<open>epoch\<close> the same time once more in seconds).
\<close>

datatype status_entry =
    Title string
  | Updated date string
  | Header string
  | Client ClientInfo string date string
  | Route RoutingEntry string date string
  | Statistic string string
  | End

fun entry_fields :: "status_entry \<Rightarrow> string list" where
  "entry_fields (Title version) = ''TITLE'' # split_on (CHR '','') version"
| "entry_fields (Updated t epoch) = [''TIME'', date_text t, epoch]"
| "entry_fields (Header h) = ''HEADER'' # split_on (CHR '','') h"
| "entry_fields (Client c proto since epoch) =
     [''CLIENT_LIST'', ci_CommonName c, real_text proto (ci_RealAddress c), ci_VirtualAddress c,
      if ci_VirtualIPv6Address c = [] then [] else ip_string (ci_VirtualIPv6Address c),
      dec_string (ci_BytesReceived c), dec_string (ci_BytesSent c), date_text since, epoch, ci_Username c,
      ci_ClientID c, ci_PeerID c, ci_DataChannelCipher c]"
| "entry_fields (Route r proto last_ref epoch) =
     [''ROUTING_TABLE'', re_VirtualAddress r, re_CommonName r, real_text proto (re_RealAddress r), date_text last_ref, epoch]"
| "entry_fields (Statistic name val) = ''GLOBAL_STATS'' # name # split_on (CHR '','') val"
| "entry_fields End = [''END'']"

definition entry_line :: "status_entry \<Rightarrow> string" where
  "entry_line e = fields_line (entry_fields e)"

fun entry_ok :: "status_entry \<Rightarrow> bool" where
  "entry_ok (Updated t epoch) \<longleftrightarrow> date_ok t \<and> field epoch"
| "entry_ok (Client c proto since epoch) \<longleftrightarrow>
     real_ok proto (ci_RealAddress c) \<and> date_ok since \<and> ci_ConnectedSince c = date_time since \<and>
     ci_BytesReceived c < 2 ^ 64 \<and> ci_BytesSent c < 2 ^ 64 \<and>
     (ci_VirtualIPv6Address c = [] \<or> length (ci_VirtualIPv6Address c) = 16) \<and>
     list_all field [ci_CommonName c, ci_VirtualAddress c, epoch, ci_Username c, ci_ClientID c, ci_PeerID c, ci_DataChannelCipher c]"
| "entry_ok (Route r proto last_ref epoch) \<longleftrightarrow>
     real_ok proto (re_RealAddress r) \<and> date_ok last_ref \<and> re_LastRef r = date_time last_ref \<and>
     list_all field [re_VirtualAddress r, re_CommonName r, epoch]"
| "entry_ok (Statistic name val) \<longleftrightarrow> field name"
| "entry_ok _ \<longleftrightarrow> True"

fun add_entry :: "status_entry \<Rightarrow> OpenVPNStatus \<Rightarrow> OpenVPNStatus" where
  "add_entry (Title version) st = st\<lparr>st_Version := version\<rparr>"
| "add_entry (Updated t _) st = st\<lparr>st_UpdatedAt := date_time t\<rparr>"
| "add_entry (Client c _ _ _) st = st\<lparr>st_Clients := st_Clients st @ [c]\<rparr>"
| "add_entry (Route r _ _ _) st = st\<lparr>st_RoutingTable := st_RoutingTable st @ [r]\<rparr>"
| "add_entry (Statistic name val) st = st\<lparr>st_GlobalStats := (st_GlobalStats st)(name \<mapsto> val)\<rparr>"
| "add_entry _ st = st"

lemma field_ip: "field (ip_string a)" if "length a = 16"
  using that by (simp add: ip_string_def address_ip4 address_ip6 field_address split: option.split)

lemma entry_fields_ok:
  assumes "entry_ok e"
  shows "split_on (CHR '','') (entry_line e) = entry_fields e"
  unfolding entry_line_def
proof (rule split_fields)
  have *: "list_all field (split_on (CHR '','') s)" for s
    using split_on_fields [of _ "CHR '',''" s] by (auto simp: list_all_iff field_def)
  show "list_all field (entry_fields e)"
    using assms by (cases e) (auto simp: * field_real field_ip)
qed (cases e; simp)

lemma parse_ip_empty: "parse_ip [] = None"
  by (simp add: parse_ip_def parse_addr_def)

lemma ParseTime_date: "date_ok t \<Longrightarrow> ParseTime (date_text t) = Inr (date_time t)"
  by (simp add: ParseTime_def read_date)

lemma client_entry:
  assumes "entry_ok (Client c proto since epoch)"
  shows "client_info (entry_fields (Client c proto since epoch)) = Inr c"
proof -
  have ip: "(case parse_ip (if ci_VirtualIPv6Address c = [] then [] else ip_string (ci_VirtualIPv6Address c)) of
      Some a \<Rightarrow> a | None \<Rightarrow> []) = ci_VirtualIPv6Address c"
    using assms by (auto simp: parse_ip_empty parse_ip_printed to16_def)
  show ?thesis
    using assms ip ParseUint_dec [of _ 64]
    by (simp add: client_info_def ParseTime_date read_real)
qed

lemma route_entry:
  "entry_ok (Route r proto last_ref epoch) \<Longrightarrow> routing_entry (entry_fields (Route r proto last_ref epoch)) = Inr r"
  by (simp add: routing_entry_def ParseTime_date read_real)

lemma join_split_Cons: "join_with '','' (split_on (CHR '','') s) = s"
  by (rule join_split_on)

lemma line_of_entry:
  assumes "entry_ok e"
  shows "status_line (entry_line e) st = Inr (add_entry e st)"
proof (cases "e = End")
  case True
  then show ?thesis by (simp add: entry_line_def fields_line_def status_line_def)
next
  case False
  have parts: "split_on (CHR '','') (entry_line e) = entry_fields e" by (rule entry_fields_ok [OF assms])
  have "1 < length (entry_fields e)" using False length_split_on by (cases e) auto
  then have "length (split_on (CHR '','') (entry_line e)) \<noteq> 1" by (simp add: parts)
  then have "entry_line e \<noteq> [] \<and> entry_line e \<noteq> ''END''" by (auto simp: split_on_no_sep)
  moreover have "e = Client c proto since epoch \<Longrightarrow> client_info (entry_fields e) = Inr c" for c proto since epoch
    using client_entry assms by blast
  moreover have "e = Route r proto last_ref epoch \<Longrightarrow> routing_entry (entry_fields e) = Inr r" for r proto last_ref epoch
    using route_entry assms by blast
  ultimately show ?thesis
    using assms False parts by (cases e) (simp_all add: status_line_def Let_def ParseTime_date join_split_Cons)
qed

lemma lines_of_entries: "list_all entry_ok es \<Longrightarrow> status_lines (map entry_line es) st = Inr (fold add_entry es st)"
  by (induction es arbitrary: st) (auto simp: line_of_entry)

lemma parse_entries:
  assumes "list_all entry_ok es" and "list_all (\<lambda>e. readable (entry_line e)) es"
  shows "ParseOpenVPNStatus (unlines (map entry_line es)) = Inr (fold add_entry es zero_status)"
  using assms scan_unlines [of "map entry_line es"]
  by (simp add: ParseOpenVPNStatus_def lines_of_entries list_all_iff)

section \<open>What the entries say\<close>

definition clients_of :: "status_entry list \<Rightarrow> ClientInfo list" where
  "clients_of es = concat (map (\<lambda>e. case e of Client c _ _ _ \<Rightarrow> [c] | _ \<Rightarrow> []) es)"

definition routes_of :: "status_entry list \<Rightarrow> RoutingEntry list" where
  "routes_of es = concat (map (\<lambda>e. case e of Route r _ _ _ \<Rightarrow> [r] | _ \<Rightarrow> []) es)"

definition updates_of :: "status_entry list \<Rightarrow> int list" where
  "updates_of es = concat (map (\<lambda>e. case e of Updated t _ \<Rightarrow> [date_time t] | _ \<Rightarrow> []) es)"

definition statistics_of :: "status_entry list \<Rightarrow> (string \<times> string) list" where
  "statistics_of es = concat (map (\<lambda>e. case e of Statistic n v \<Rightarrow> [(n, v)] | _ \<Rightarrow> []) es)"

lemma fold_entries:
  "st_Clients (fold add_entry es st) = st_Clients st @ clients_of es"
  "st_RoutingTable (fold add_entry es st) = st_RoutingTable st @ routes_of es"
  "st_UpdatedAt (fold add_entry es st) = last (st_UpdatedAt st # updates_of es)"
  "st_GlobalStats (fold add_entry es st) = st_GlobalStats st ++ map_of (rev (statistics_of es))"
proof (induction es arbitrary: st)
  case (Cons e es)
  {
    case 1
    show ?case using Cons.IH(1) by (cases e) (simp_all add: clients_of_def)
  next
    case 2
    show ?case using Cons.IH(2) by (cases e) (simp_all add: routes_of_def)
  next
    case 3
    show ?case using Cons.IH(3) by (cases e) (simp_all add: updates_of_def)
  next
    case 4
    show ?case
      using Cons.IH(4) by (cases e) (auto simp: statistics_of_def fun_eq_iff map_add_def split: option.split)
  }
qed (simp_all add: clients_of_def routes_of_def updates_of_def statistics_of_def)

section \<open>The probes\<close>

abbreviation seed_client :: "ClientInfo \<Rightarrow> bool" where
  "seed_client c \<equiv> has_prefix (ci_CommonName c) SeedClientPrefix"

abbreviation shoot_client :: "ClientInfo \<Rightarrow> bool" where
  "shoot_client c \<equiv> has_prefix (ci_CommonName c) ShootClientPrefix"

lemma take_has_prefix: "has_prefix s p \<Longrightarrow> n \<le> length p \<Longrightarrow> take n s = take n p"
  by (metis has_prefix_def min.absorb1 take_take)

lemma sides_apart: "has_prefix s SeedClientPrefix \<Longrightarrow> \<not> has_prefix s ShootClientPrefix"
  using take_has_prefix [of s SeedClientPrefix 6] take_has_prefix [of s ShootClientPrefix 6]
  by (auto simp: SeedClientPrefix_def ShootClientPrefix_def)

lemma find_sides_iff: "find_sides cs a b = (a \<or> list_ex seed_client cs, b \<or> list_ex shoot_client cs)"
  by (induction cs arbitrary: a b) (auto dest: sides_apart)

lemma isReady_iff:
  "isReady (Some st) isHA \<longleftrightarrow>
    (if isHA then list_ex seed_client (st_Clients st) \<and> list_ex shoot_client (st_Clients st)
     else st_Clients st = [] \<or> list_ex shoot_client (st_Clients st))"
proof -
  have "2 \<le> length cs" if sides: "list_ex seed_client cs" "list_ex shoot_client cs" for cs
  proof -
    obtain c d where "c \<in> set cs" "d \<in> set cs" "c \<noteq> d"
      using sides sides_apart unfolding list_ex_iff by metis
    then show ?thesis by (cases cs; cases "tl cs") auto
  qed
  from this [of "st_Clients st"] show ?thesis by (auto simp: isReady_def find_sides_iff)
qed

lemma wrap64_id: "- (2 ^ 63) \<le> i \<Longrightarrow> i < 2 ^ 63 \<Longrightarrow> wrap64 i = i"
  by (simp add: wrap64_def signed_of_int signed_take_bit_int_eq_self)

lemma isUp_iff:
  assumes "0 \<le> updateInterval" and "updateInterval < 2 ^ 32"
  shows "isUp now (Some st) updateInterval \<longleftrightarrow> now \<le> st_UpdatedAt st + (updateInterval + 2) * Second"
proof -
  have "wrap64 (updateInterval + 2) = updateInterval + 2" using assms by (intro wrap64_id) simp_all
  moreover have "wrap64 ((updateInterval + 2) * Second) = (updateInterval + 2) * Second"
    using assms by (intro wrap64_id) (simp_all add: Second_def)
  moreover have "0 \<le> (updateInterval + 2) * Second" "(updateInterval + 2) * Second < 2 ^ 63 - 1"
    using assms by (simp_all add: Second_def)
  ultimately show ?thesis by (auto simp: isUp_def saturate64_def max_def min_def)
qed

section \<open>Properties\<close>

text \<open>
  C36: a status file in OpenVPN's format is read back: the clients and routes in their order with
  their addresses and dates, the time of the last update, and the last value of every statistic.
\<close>

theorem ParseOpenVPNStatus_roundtrip:
  assumes "list_all entry_ok es" and "list_all (\<lambda>e. readable (entry_line e)) es"
  shows "\<exists>st. ParseOpenVPNStatus (unlines (map entry_line es)) = Inr st \<and> st_Clients st = clients_of es \<and>
    st_RoutingTable st = routes_of es \<and> st_UpdatedAt st = last (0 # updates_of es) \<and>
    st_GlobalStats st = map_of (rev (statistics_of es))"
  using parse_entries [OF assms] by (simp add: fold_entries zero_status_def)

text \<open>
  The address of a client is read in each of the forms that versions 2.6 and 2.7 of OpenVPN
  write: with or without the protocol in front, IPv4 with a port, IPv6 alone or in brackets with a port.
\<close>

theorem parseRealClientAddress_roundtrip:
  assumes "proto = [] \<or> proto \<in> protocols" and "length (ap_addr ap) \<in> {4, 16}" and "ap_port ap < 2 ^ 16"
  shows "parseRealClientAddress (real_text proto ap) = Inr ap"
  using assms by (intro read_real) (auto simp: real_ok_def)

text \<open>
  The readiness probe, on a status file in OpenVPN's format: a highly available server is ready
  exactly if a client of each side is connected, another one if no client or one of the shoot is.
\<close>

theorem IsReady_status:
  assumes "list_all entry_ok es" and "list_all (\<lambda>e. readable (entry_line e)) es"
    and "ReadFile sys (hc_OpenVPNStatusPath cfg) w = (Inr (unlines (map entry_line es)), w')"
  shows "IsReady sys cfg w =
    ((if hc_IsHA cfg
      then list_ex seed_client (clients_of es) \<and> list_ex shoot_client (clients_of es)
      else clients_of es = [] \<or> list_ex shoot_client (clients_of es)), w')"
  using parse_entries [OF assms(1,2)] assms(3)
  by (simp add: IsReady_def ParseFile_def isReady_iff fold_entries zero_status_def)

text \<open>
  The liveness probe, on a status file in OpenVPN's format: the server is alive exactly if its
  last update is not older than the interval and two seconds more, wherever the clock stands.
\<close>

theorem IsAlive_status:
  assumes "list_all entry_ok es" and "list_all (\<lambda>e. readable (entry_line e)) es"
    and "ReadFile sys (hc_OpenVPNStatusPath cfg) w = (Inr (unlines (map entry_line es)), w')"
    and "0 \<le> hc_OpenVPNStatusUpdateInterval cfg" and "hc_OpenVPNStatusUpdateInterval cfg < 2 ^ 32"
  shows "IsAlive sys Now cfg w =
    (Now w' \<le> last (0 # updates_of es) + (hc_OpenVPNStatusUpdateInterval cfg + 2) * Second, w')"
  using parse_entries [OF assms(1,2)] assms(3) isUp_iff [OF assms(4,5)]
  by (simp add: IsAlive_def ParseFile_def fold_entries zero_status_def)

section \<open>Witnesses\<close>

text \<open>A status file with a client of each side.\<close>

definition sample_date :: date where
  "sample_date = \<lparr>dt_year = 2025, dt_month = 12, dt_day = 19, dt_hour = 11, dt_min = 12, dt_sec = 4\<rparr>"

definition sample_client :: "string \<Rightarrow> ip \<Rightarrow> ClientInfo" where
  "sample_client cn a = \<lparr>ci_CommonName = cn, ci_RealAddress = \<lparr>ap_addr = a, ap_port = 41392\<rparr>, ci_VirtualAddress = '''',
     ci_VirtualIPv6Address = [], ci_BytesReceived = 8, ci_BytesSent = 9, ci_ConnectedSince = date_time sample_date,
     ci_Username = ''UNDEF'', ci_ClientID = ''3'', ci_PeerID = ''0'', ci_DataChannelCipher = ''AES-256-GCM''\<rparr>"

definition sample_entries :: "status_entry list" where
  "sample_entries =
     [Title ''OpenVPN 2.7'', Updated sample_date ''1766142724'', Header ''CLIENT_LIST'',
      Client (sample_client ''vpn-seed-client'' [100, 64, 3, 32]) '''' sample_date ''1766128404'',
      Client (sample_client ''vpn-shoot-client-0'' [100, 64, 2, 43]) ''tcp4-server:'' sample_date ''1766128404'', End]"

lemma tcp4_server: "''tcp4-server:'' \<in> protocols"
proof -
  have "''tcp4-server:'' = ''tcp'' @ ''4'' @ ''-server'' @ '':''" by simp
  then show ?thesis unfolding protocols_def by blast
qed

lemma sample_ok: "list_all entry_ok sample_entries"
proof -
  have "date_ok sample_date" by (simp add: sample_date_def date_ok_def days_in_month_def)
  then show ?thesis by (simp add: sample_entries_def sample_client_def real_ok_def tcp4_server)
qed

lemma sample_readable: "list_all (\<lambda>e. readable (entry_line e)) sample_entries"
  by (simp add: sample_entries_def sample_client_def sample_date_def entry_line_def fields_line_def readable_def
      real_text_def ip4_string_def byte_string_def date_text_def pad2_def net_eval)

lemmas sample_simps = sample_entries_def sample_client_def sample_date_def clients_of_def updates_of_def routes_of_def
  statistics_of_def date_time_def time_of_def days_before_year_def days_in_month_def leap_year_def Second_def upt_rec

text \<open>A machine whose status file has these entries.\<close>

definition status_machine :: machine where
  "status_machine = \<lparr>mach_host = \<lparr>devices = [], host_up = {}, host_master = Map.empty, host_addresses = (\<lambda>_. []),
     host_routes = Map.empty\<rparr>, mach_chains = (\<lambda>_. []),
     mach_files = [''/srv/status/openvpn.status'' \<mapsto> unlines (map entry_line sample_entries)], mach_ctl = Map.empty\<rparr>"

lemma status_machine_file:
  "ReadFile machine_os (hc_OpenVPNStatusPath NewDefaultConfig) status_machine =
    (Inr (unlines (map entry_line sample_entries)), status_machine)"
  by (simp add: machine_os_def status_machine_def NewDefaultConfig_def)

theorem ParseOpenVPNStatus_roundtrip_witness:
  "\<exists>st. ParseOpenVPNStatus (unlines (map entry_line sample_entries)) = Inr st \<and>
    map ci_CommonName (st_Clients st) = [''vpn-seed-client'', ''vpn-shoot-client-0''] \<and> st_UpdatedAt st = 63901739524 * Second"
proof -
  obtain st where st: "ParseOpenVPNStatus (unlines (map entry_line sample_entries)) = Inr st" "st_Clients st = clients_of sample_entries"
    "st_UpdatedAt st = last (0 # updates_of sample_entries)"
    using ParseOpenVPNStatus_roundtrip [OF sample_ok sample_readable] by blast
  have "map ci_CommonName (clients_of sample_entries) = [''vpn-seed-client'', ''vpn-shoot-client-0'']"
    by (simp add: sample_entries_def sample_client_def clients_of_def)
  moreover have "last (0 # updates_of sample_entries) = 63901739524 * Second"
    by (simp add: sample_simps)
  ultimately show ?thesis using st by auto
qed

theorem parseRealClientAddress_roundtrip_witness:
  "parseRealClientAddress ''tcp4-server:100.64.5.13:477'' = Inr \<lparr>ap_addr = [100, 64, 5, 13], ap_port = 477\<rparr>"
proof -
  let ?ap = "\<lparr>ap_addr = [100, 64, 5, 13], ap_port = 477\<rparr>"
  have "real_text ''tcp4-server:'' ?ap = ''tcp4-server:100.64.5.13:477''"
    by (simp add: real_text_def ip4_string_def byte_string_def net_eval)
  then show ?thesis using parseRealClientAddress_roundtrip [of "''tcp4-server:''" ?ap] tcp4_server by simp
qed

theorem IsReady_status_witness:
  "fst (IsReady machine_os (NewDefaultConfig\<lparr>hc_IsHA := True\<rparr>) status_machine)"
proof -
  have "list_ex seed_client (clients_of sample_entries)" "list_ex shoot_client (clients_of sample_entries)"
    by (simp_all add: sample_entries_def sample_client_def clients_of_def has_prefix_def SeedClientPrefix_def ShootClientPrefix_def)
  moreover have "ReadFile machine_os (hc_OpenVPNStatusPath (NewDefaultConfig\<lparr>hc_IsHA := True\<rparr>)) status_machine =
      (Inr (unlines (map entry_line sample_entries)), status_machine)"
    using status_machine_file by simp
  note IsReady_status [OF sample_ok sample_readable this]
  ultimately show ?thesis by (simp del: health_Config.update_convs)
qed

theorem IsAlive_status_witness:
  "fst (IsAlive machine_os (\<lambda>_. 63901739541 * Second) NewDefaultConfig status_machine) \<and>
   \<not> fst (IsAlive machine_os (\<lambda>_. 63901739541 * Second + 1) NewDefaultConfig status_machine)"
proof -
  have "last (0 # updates_of sample_entries) = 63901739524 * Second" by (simp add: sample_simps)
  then have "IsAlive machine_os Now NewDefaultConfig status_machine =
      (Now status_machine \<le> 63901739524 * Second + 17 * Second, status_machine)" for Now
    using IsAlive_status [OF sample_ok sample_readable status_machine_file, of Now] by (simp add: NewDefaultConfig_def)
  then show ?thesis by (simp add: Second_def)
qed

end
