(* ===== verification/Exporter.thy ===== *)
theory Exporter
  imports Netstat Config Machine
begin

text \<open>
  \<^verbatim>\<open>pkg/openvpn/exporter\<close> and \<^verbatim>\<open>cmd/vpn_server/app/exporter.go\<close>: the metrics of a server.  The libraries
  that read OpenVPN's statistics, keep the registered collectors and serve them over HTTP are
  parameters, and so is \<^verbatim>\<open>strconv.ParseFloat\<close>, whose numbers are only passed on.
\<close>

section \<open>The collector of network statistics (\<^verbatim>\<open>netstat.go\<close>)\<close>

record 'f metric =
  metric_name :: string
  metric_help :: string
  metric_value :: 'f

text \<open>The pattern \<^verbatim>\<open>^Tcp_(OutSegs|RetransSegs)$\<close> of the statistics that are published.\<close>

definition netStatFields :: regex where
  "netStatFields = re_seq (re_text ''Tcp_'') (re_or (re_text ''OutSegs'') (re_text ''RetransSegs''))"

definition MatchString :: "regex \<Rightarrow> string \<Rightarrow> bool" where
  "MatchString pattern s = list_ex (\<lambda>(_, rest). rest = []) (pattern s)"

definition BuildFQName :: "string \<Rightarrow> string \<Rightarrow> string \<Rightarrow> string" where
  "BuildFQName namespace subsystem name =
     (if name = [] then [] else join_with ''_'' (filter (\<lambda>p. p \<noteq> []) [namespace, subsystem, name]))"

definition stat_key :: "string \<Rightarrow> string \<Rightarrow> string" where
  "stat_key protocol name = protocol @ ''_'' @ name"

text \<open>The metric of one statistic, if it is published; a value that is no number is skipped.\<close>

definition stat_metric :: "(string \<Rightarrow> go_error + 'f) \<Rightarrow> string \<times> string \<times> string \<Rightarrow> 'f metric list" where
  "stat_metric ParseFloat stat =
     (let (protocol, name, val) = stat; key = stat_key protocol name
      in case ParseFloat val of
           Inl err \<Rightarrow> []
         | Inr v \<Rightarrow>
             if \<not> MatchString netStatFields key then []
             else [\<lparr>metric_name = BuildFQName ''openvpn'' ''netstat'' key,
                    metric_help = ''Statistic '' @ protocol @ name @ ''.'', metric_value = v\<rparr>])"

text \<open>
  What a collection sends.  \<open>visit\<close> is the order in which Go's loops visit the statistics, which is
  unspecified.
\<close>

definition Collect ::
  "'w os \<Rightarrow> (string \<Rightarrow> go_error + 'f) \<Rightarrow> (net_stats \<Rightarrow> (string \<times> string \<times> string) list) \<Rightarrow> 'w \<Rightarrow> 'f metric list \<times> 'w"
where
  "Collect sys ParseFloat visit w =
     (case GetNetStats sys ''/proc'' w of
        (Inl err, w1) \<Rightarrow> ([], w1)
      | (Inr netStats, w1) \<Rightarrow> (concat (map (stat_metric ParseFloat) (visit netStats)), w1))"

section \<open>The exporter (\<^verbatim>\<open>exporter.go\<close>)\<close>

record exporter_Config =
  ec_ListenAddress :: string
  ec_MetricsPath :: string
  ec_OpenvpnStatusPaths :: string
  ec_IgnoreIndividuals :: bool

definition exporter_NewDefaultConfig :: exporter_Config where
  "exporter_NewDefaultConfig = \<lparr>ec_ListenAddress = '':9176'', ec_MetricsPath = ''/metrics'',
     ec_OpenvpnStatusPaths = ''openvpn.status'', ec_IgnoreIndividuals = False\<rparr>"

text \<open>
  The libraries: the collector of OpenVPN's own statistics, the registry, and a server that answers
  with the metrics under a path and with a page that links to it elsewhere.
\<close>

record ('c, 'w) metrics_lib =
  NewOpenVPNExporter :: "string list \<Rightarrow> bool \<Rightarrow> 'w \<Rightarrow> (go_error + 'c) \<times> 'w"
  NetStatCollector :: 'c
  Register :: "'c \<Rightarrow> (go_error, 'w) effect"
  ListenAndServe :: "string \<Rightarrow> string \<Rightarrow> (go_error, 'w) effect"

definition exporter_Start :: "('c, 'w) metrics_lib \<Rightarrow> exporter_Config \<Rightarrow> (go_error, 'w) effect" where
  "exporter_Start lib cfg =
     with_result (NewOpenVPNExporter lib (split_on (CHR '','') (ec_OpenvpnStatusPaths cfg)) (ec_IgnoreIndividuals cfg))
       (\<lambda>exporter. and_then (Register lib exporter)
         (and_then (Register lib (NetStatCollector lib)) (ListenAndServe lib (ec_ListenAddress cfg) (ec_MetricsPath cfg))))"

definition metricsPort :: int where "metricsPort = 15000"

definition runExporter :: "('c, 'w) metrics_lib \<Rightarrow> CIDR \<Rightarrow> go_error + VPNServer \<Rightarrow> (go_error, 'w) effect" where
  "runExporter lib defaultNet parsed =
     (case GetVPNServerConfig defaultNet parsed of
        Inl _ \<Rightarrow> fail (Errorf ''could not parse environment'' [])
      | Inr cfg \<Rightarrow>
          wrapping (Wrapf ''starting metrics exporter failed: %w'' [])
            (exporter_Start lib (exporter_NewDefaultConfig\<lparr>ec_OpenvpnStatusPaths := srv_StatusPath cfg,
               ec_ListenAddress := '':'' @ int_string metricsPort\<rparr>)))"

section \<open>What is published\<close>

lemma re_text_match: "re_text t s = (if \<exists>r. s = t @ r then [(t, drop (length t) s)] else [])"
proof (cases "\<exists>r. s = t @ r")
  case False
  moreover have "s = take (length t) s @ drop (length t) s" by simp
  ultimately have "take (length t) s \<noteq> t" by metis
  with False show ?thesis by (simp add: re_text_def has_prefix_def)
qed (auto simp: re_text_def has_prefix_def)

lemma MatchString_netStatFields: "MatchString netStatFields key \<longleftrightarrow> key \<in> {''Tcp_OutSegs'', ''Tcp_RetransSegs''}"
  by (auto simp: MatchString_def netStatFields_def re_seq_def re_or_def re_text_match)

lemma split_key:
  assumes "stat_key p n = a @ ''_'' @ b" and "CHR ''_'' \<notin> set a" and "CHR ''_'' \<notin> set b"
  shows "p = a \<and> n = b"
proof -
  have "split_on CHR ''_'' p @ split_on CHR ''_'' n = [a, b]"
    using arg_cong [OF assms(1), of "split_on CHR ''_''"] assms(2,3)
    by (simp add: stat_key_def split_on_parts split_on_no_sep)
  then have "split_on CHR ''_'' p = [a]" "split_on CHR ''_'' n = [b]"
    by (cases "split_on CHR ''_'' p"; cases "tl (split_on CHR ''_'' p)"; auto)+
  then show ?thesis
    using join_split_on [of "CHR ''_''" p] join_split_on [of "CHR ''_''" n] by simp
qed

lemma published_key:
  "MatchString netStatFields (stat_key p n) \<longleftrightarrow> p = ''Tcp'' \<and> n \<in> {''OutSegs'', ''RetransSegs''}"
proof -
  have "stat_key p n = ''Tcp_OutSegs'' \<Longrightarrow> p = ''Tcp'' \<and> n = ''OutSegs''"
    "stat_key p n = ''Tcp_RetransSegs'' \<Longrightarrow> p = ''Tcp'' \<and> n = ''RetransSegs''"
    using split_key [of p n "''Tcp''" "''OutSegs''"] split_key [of p n "''Tcp''" "''RetransSegs''"] by simp_all
  then show ?thesis by (auto simp: MatchString_netStatFields stat_key_def)
qed

lemma metric_of_key: "BuildFQName ''openvpn'' ''netstat'' (stat_key p n) = ''openvpn_netstat_'' @ stat_key p n"
  by (simp add: BuildFQName_def stat_key_def)

lemma stat_metric_published:
  "(\<lambda>m. (metric_name m, metric_value m)) ` set (stat_metric ParseFloat (p, n, v)) =
    {(''openvpn_netstat_Tcp_'' @ n, x) | x. p = ''Tcp'' \<and> n \<in> {''OutSegs'', ''RetransSegs''} \<and> ParseFloat v = Inr x}"
proof (cases "p = ''Tcp'' \<and> n \<in> {''OutSegs'', ''RetransSegs''}")
  case True
  moreover from this have "MatchString netStatFields (stat_key p n)" using published_key by blast
  moreover have "BuildFQName ''openvpn'' ''netstat'' (stat_key p n) = ''openvpn_netstat_Tcp_'' @ n"
    unfolding metric_of_key using True by (simp add: stat_key_def)
  ultimately show ?thesis by (cases "ParseFloat v") (simp_all add: stat_metric_def Let_def)
next
  case False
  then have "\<not> MatchString netStatFields (stat_key p n)" using published_key by blast
  with False show ?thesis by (auto simp: stat_metric_def Let_def split: sum.splits)
qed

lemma published_union:
  "(\<Union>(p, n, v) \<in> {(p, n, v). \<exists>t. f p = Some t \<and> t n = Some v}. {(pre @ n, x) | x. p = a \<and> n \<in> S \<and> F v = Inr x}) =
    {(pre @ n, x) | n x. n \<in> S \<and> (\<exists>t v. f a = Some t \<and> t n = Some v \<and> F v = Inr x)}"
  by auto

text \<open>
  C39: a collection publishes, in whatever order it visits the statistics, the number of segments that
  TCP sent and the number of those it sent again, as far as the kernel reports them as numbers, and
  nothing else.
\<close>

theorem Collect_publishes:
  assumes "GetNetStats sys ''/proc'' w = (Inr stats, w')"
    and "set (visit stats) = {(p, n, v). \<exists>t. stats p = Some t \<and> t n = Some v}"
  shows "(\<lambda>m. (metric_name m, metric_value m)) ` set (fst (Collect sys ParseFloat visit w)) =
    {(''openvpn_netstat_Tcp_'' @ n, x) | n x. n \<in> {''OutSegs'', ''RetransSegs''} \<and>
       (\<exists>t v. stats ''Tcp'' = Some t \<and> t n = Some v \<and> ParseFloat v = Inr x)}"
proof -
  have "(\<lambda>m. (metric_name m, metric_value m)) ` set (fst (Collect sys ParseFloat visit w)) =
      (\<Union>(p, n, v) \<in> set (visit stats). (\<lambda>m. (metric_name m, metric_value m)) ` set (stat_metric ParseFloat (p, n, v)))"
    using assms(1) by (auto simp: Collect_def)
  also have "\<dots> = (\<Union>(p, n, v) \<in> set (visit stats).
      {(''openvpn_netstat_Tcp_'' @ n, x) | x. p = ''Tcp'' \<and> n \<in> {''OutSegs'', ''RetransSegs''} \<and> ParseFloat v = Inr x})"
    by (simp only: stat_metric_published)
  finally show ?thesis unfolding assms(2) by (simp only: published_union)
qed

text \<open>A machine with the statistics of TCP.\<close>

definition stats_machine :: machine where
  "stats_machine = \<lparr>mach_host = \<lparr>devices = [], host_up = {}, host_master = Map.empty, host_addresses = (\<lambda>_. []),
     host_routes = Map.empty\<rparr>, mach_chains = (\<lambda>_. []),
     mach_files = [''/proc/net/netstat'' \<mapsto> ''TcpExt: A'' @ newline @ ''TcpExt: 1'' @ newline,
       ''/proc/net/snmp'' \<mapsto> ''Tcp: InSegs OutSegs'' @ newline @ ''Tcp: 9 7'' @ newline], mach_ctl = Map.empty\<rparr>"

lemma stats_machine_read:
  "GetNetStats machine_os ''/proc'' stats_machine =
    (Inr [''TcpExt'' \<mapsto> [''A'' \<mapsto> ''1''], ''Tcp'' \<mapsto> [''InSegs'' \<mapsto> ''9'', ''OutSegs'' \<mapsto> ''7'']], stats_machine)"
proof -
  have paths: "Join [''/proc'', ''net/netstat''] = ''/proc/net/netstat''" "Join [''/proc'', ''net/snmp''] = ''/proc/net/snmp''"
    "Join [''/proc'', ''net/snmp6''] = ''/proc/net/snmp6''"
    by code_simp+
  have "ReadFile machine_os ''/proc/net/netstat'' stats_machine =
      (Inr (''TcpExt: A'' @ newline @ ''TcpExt: 1'' @ newline), stats_machine)"
    "ReadFile machine_os ''/proc/net/snmp'' stats_machine =
      (Inr (''Tcp: InSegs OutSegs'' @ newline @ ''Tcp: 9 7'' @ newline), stats_machine)"
    "ReadFile machine_os ''/proc/net/snmp6'' stats_machine = (Inl (Foreign ''no such file''), stats_machine)"
    "IsNotExist machine_os (Foreign ''no such file'')"
    by (simp_all add: stats_machine_def machine_os_def)
  moreover have "parseNetStats (''TcpExt: A'' @ newline @ ''TcpExt: 1'' @ newline) f = Inr [''TcpExt'' \<mapsto> [''A'' \<mapsto> ''1'']]" for f
    by (simp add: parseNetStats_def scan_lines_def newline_def drop_cr_def parse_pair_def)
  moreover have "parseNetStats (''Tcp: InSegs OutSegs'' @ newline @ ''Tcp: 9 7'' @ newline) f =
      Inr [''Tcp'' \<mapsto> [''InSegs'' \<mapsto> ''9'', ''OutSegs'' \<mapsto> ''7'']]" for f
    by (simp add: parseNetStats_def scan_lines_def newline_def drop_cr_def parse_pair_def)
  ultimately show ?thesis
    by (simp add: GetNetStats_def getNetStats_def getSNMP6Stats_def paths)
qed

lemma single_stat:
  "s = Some t \<Longrightarrow> t a = Some v \<Longrightarrow> t b = None \<Longrightarrow> F v = Inr x \<Longrightarrow>
    {(pre @ n, x) | n x. n \<in> {a, b} \<and> (\<exists>t v. s = Some t \<and> t n = Some v \<and> F v = Inr x)} = {(pre @ a, x)}"
  by auto

theorem Collect_publishes_witness:
  "\<exists>visit. (\<lambda>m. (metric_name m, metric_value m)) `
       set (fst (Collect machine_os (\<lambda>v. Inr (length v)) visit stats_machine)) = {(''openvpn_netstat_Tcp_OutSegs'', 1)}"
proof -
  let ?stats = "[''TcpExt'' \<mapsto> [''A'' \<mapsto> ''1''], ''Tcp'' \<mapsto> [''InSegs'' \<mapsto> ''9'', ''OutSegs'' \<mapsto> ''7'']] :: net_stats"
  let ?visit = "\<lambda>_ :: net_stats. [(''TcpExt'', ''A'', ''1''), (''Tcp'', ''InSegs'', ''9''), (''Tcp'', ''OutSegs'', ''7'')]"
  have visit: "set (?visit ?stats) = {(p, n, v). \<exists>t. ?stats p = Some t \<and> t n = Some v}"
    by (auto split: if_splits)
  note Collect_publishes [OF stats_machine_read, of ?visit "\<lambda>v. Inr (length v)", OF visit]
  also have "{(''openvpn_netstat_Tcp_'' @ n, x) | n x. n \<in> {''OutSegs'', ''RetransSegs''} \<and>
      (\<exists>t v. ?stats ''Tcp'' = Some t \<and> t n = Some v \<and> (Inr (length v) :: go_error + nat) = Inr x)} =
      {(''openvpn_netstat_Tcp_'' @ ''OutSegs'', 1)}"
    by (rule single_stat [where t = "[''InSegs'' \<mapsto> ''9'', ''OutSegs'' \<mapsto> ''7'']" and v = "''7''"]) simp_all
  also have "''openvpn_netstat_Tcp_'' @ ''OutSegs'' = ''openvpn_netstat_Tcp_OutSegs''" by simp
  finally show ?thesis by (rule exI [of _ ?visit])
qed

end
