(* ===== verification/Commands.thy ===== *)
theory Commands
  imports Health Client_Setup
begin

text \<open>
  The commands of the two programs (\<^verbatim>\<open>cmd/vpn_server/app\<close>, \<^verbatim>\<open>cmd/vpn_client/app\<close>): how the components
  are put together.  \<open>parsed\<close> is what the library \<^verbatim>\<open>env\<close> read from the environment; logging is left out.
\<close>

section \<open>The server\<close>

text \<open>The MTU of the tunnel, 0 for OpenVPN's own choice (\<^verbatim>\<open>run\<close> in \<^verbatim>\<open>vpn_server/app/app.go\<close>).\<close>

definition server_mtu :: "'w netlink \<Rightarrow> VPNServer \<Rightarrow> 'w \<Rightarrow> (go_error + int) \<times> 'w" where
  "server_mtu nl cfg w =
     (if srv_AutoMTU cfg
      then (case DetectTunnelMTU nl TunnelMTUOverhead w of
              (Inl e, w1) \<Rightarrow> (Inl (Wrapf ''failed to detect tunnel MTU: %w'' [] e), w1)
            | (Inr m, w1) \<Rightarrow> (Inr m, w1))
      else (Inr 0, w))"

definition could_not_parse :: go_error where
  "could_not_parse = Errorf ''could not parse environment'' []"

definition vpn_server_run ::
  "'w os \<Rightarrow> 'w iptables \<Rightarrow> 'w netlink \<Rightarrow> mapped_ranges \<Rightarrow> ((CIDR \<Rightarrow> string) \<Rightarrow> CIDR list \<Rightarrow> CIDR list)
   \<Rightarrow> ((srcInfo \<Rightarrow> int) \<Rightarrow> srcInfo list \<Rightarrow> srcInfo list) \<Rightarrow> ((string \<times> string) list \<Rightarrow> (string \<times> string) list)
   \<Rightarrow> ((CIDR \<times> CIDR) list \<Rightarrow> (CIDR \<times> CIDR) list) \<Rightarrow> int \<Rightarrow> CIDR \<Rightarrow> go_error + VPNServer \<Rightarrow> (go_error, 'w) effect"
where
  "vpn_server_run sys ipt nl rng csorter sorter visit order gid defaultNet parsed =
     (case GetVPNServerConfig defaultNet parsed of
        Inl _ \<Rightarrow> fail could_not_parse
      | Inr cfg \<Rightarrow>
     (case BuildValues rng csorter cfg of
        Inl e \<Rightarrow> fail e
      | Inr v \<Rightarrow>
          and_then (server_SetIPTableRules sys ipt rng sorter visit order gid cfg)
            (with_result (server_mtu nl cfg) (\<lambda>tunMTU. WriteServerConfigFiles sys (v\<lparr>sv_TunMTU := tunMTU\<rparr>)))))"

definition vpn_server_setup :: "'w sysctl \<Rightarrow> (go_error, 'w) effect" where
  "vpn_server_setup ctl = EnableIPv6Networking ctl"

text \<open>
  The probes: the process ends with the exit status 1 when the probe fails, and with an error when
  the environment cannot be read.
\<close>

datatype exit = Done | Failed go_error | Exit nat

definition health_config :: "VPNServer \<Rightarrow> health_Config" where
  "health_config cfg = NewDefaultConfig\<lparr>hc_OpenVPNStatusPath := srv_StatusPath cfg, hc_IsHA := srv_IsHA cfg\<rparr>"

definition runLiveness :: "'w os \<Rightarrow> ('w \<Rightarrow> int) \<Rightarrow> CIDR \<Rightarrow> go_error + VPNServer \<Rightarrow> 'w \<Rightarrow> exit \<times> 'w" where
  "runLiveness sys Now defaultNet parsed w =
     (case GetVPNServerConfig defaultNet parsed of
        Inl _ \<Rightarrow> (Failed could_not_parse, w)
      | Inr cfg \<Rightarrow>
          (let (alive, w1) = IsAlive sys Now (health_config cfg) w in (if \<not> alive then Exit 1 else Done, w1)))"

definition runReadiness :: "'w os \<Rightarrow> CIDR \<Rightarrow> go_error + VPNServer \<Rightarrow> 'w \<Rightarrow> exit \<times> 'w" where
  "runReadiness sys defaultNet parsed w =
     (case GetVPNServerConfig defaultNet parsed of
        Inl _ \<Rightarrow> (Failed could_not_parse, w)
      | Inr cfg \<Rightarrow>
          (let (ready, w1) = IsReady sys (health_config cfg) w in (if \<not> ready then Exit 1 else Done, w1)))"

section \<open>The client\<close>

text \<open>
  The number that \<^verbatim>\<open>strconv.Atoi\<close> returns next to its error, which the code ignores: 0 for a text
  that is no number, the nearest number of 64 bits for one out of range.
\<close>

definition Atoi_value :: "string \<Rightarrow> int" where
  "Atoi_value s =
     (case Atoi s of
        Some i \<Rightarrow> i
      | None \<Rightarrow>
          (let neg = has_prefix s ''-''; digits = (if neg \<or> has_prefix s ''+'' then tl s else s)
           in if parse_dec digits = None then 0 else if neg then - (2 ^ 63) else 2 ^ 63 - 1))"

definition vpnConfig :: "mapped_ranges \<Rightarrow> VPNClient \<Rightarrow> int \<Rightarrow> ClientValues" where
  "vpnConfig rng cfg tunMTU =
     (let v = \<lparr>cv_IPFamily = VPNClient_PrimaryIPFamily cfg, cv_ReversedVPNHeader = ReversedVPNHeader cfg,
                cv_ReversedVPNHeaderKey = ReversedVPNHeaderKey cfg, cv_Endpoint = Endpoint cfg,
                cv_OpenVPNPort = OpenVPNPort cfg, cv_ManagementPort = nat ManagementPort, cv_VPNClientIndex = VPNClientIndex cfg,
                cv_IsShootClient = IsShootClient cfg, cv_IsHA = IsHA cfg, cv_Device = TunnelDevice,
                cv_SeedPodNetwork = CIDR_String (SeedPodNetwork cfg), cv_IsDualStack = False, cv_TunMTU = tunMTU\<rparr>;
          v = (if length (IPFamilies cfg) = 2 then v\<lparr>cv_IsDualStack := True\<rparr> else v);
          v = (if \<not> IsHA cfg \<and> CIDR_IsIPv4 (SeedPodNetwork cfg)
               then v\<lparr>cv_SeedPodNetwork := SeedPodNetworkMapped rng\<rparr> else v)
      in if VPNServerIndex cfg \<noteq> ''''
         then v\<lparr>cv_Device := ''tap'' @ VPNServerIndex cfg,
                cv_ManagementPort := nat ((int (cv_ManagementPort v) + Atoi_value (VPNServerIndex cfg)) mod 2 ^ 64)\<rparr>
         else v)"

definition vpn_client_run ::
  "'w os \<Rightarrow> 'w iptables \<Rightarrow> 'w netlink \<Rightarrow> (Addr \<Rightarrow> string) \<Rightarrow> mapped_ranges
   \<Rightarrow> ((srcInfo \<Rightarrow> int) \<Rightarrow> srcInfo list \<Rightarrow> srcInfo list) \<Rightarrow> ((string \<times> string) list \<Rightarrow> (string \<times> string) list)
   \<Rightarrow> ((CIDR \<times> CIDR) list \<Rightarrow> (CIDR \<times> CIDR) list) \<Rightarrow> int \<Rightarrow> CIDR \<Rightarrow> go_error + VPNClient \<Rightarrow> (go_error, 'w) effect"
where
  "vpn_client_run sys ipt nl show_addr rng sorter visit order gid defaultNet parsed =
     (case GetVPNClientConfig defaultNet parsed of
        Inl e \<Rightarrow> fail e
      | Inr cfg \<Rightarrow>
          with_result (tunnel_mtu nl cfg) (\<lambda>tunMTU.
            and_then (client_SetIPTableRules sys ipt rng sorter visit order gid cfg)
              (let values = vpnConfig rng cfg tunMTU
               in and_then (Cleanup nl show_addr (cv_Device values)) (WriteClientConfigFile sys values))))"

definition vpn_client_setup ::
  "'w Runtime \<Rightarrow> 'w netlink \<Rightarrow> 'w sysctl \<Rightarrow> 'w kubernetes \<Rightarrow> CIDR \<Rightarrow> go_error + VPNClient
   \<Rightarrow> (go_error, 'w) effect"
where
  "vpn_client_setup rt nl ctl k defaultNet parsed =
     (case GetVPNClientConfig defaultNet parsed of
        Inl e \<Rightarrow> fail e
      | Inr cfg \<Rightarrow>
          and_then (KernelSettings ctl cfg) (if IsHA cfg then ConfigureBonding rt nl k cfg else skip))"

end
