(* ===== verification/Commands_Proofs.thy ===== *)
theory Commands_Proofs
  imports Commands Firewall Health_Proofs Server_Values_Proofs
begin

text \<open>
  What the commands leave behind, and what OpenVPN does with the files they wrote.
\<close>

section \<open>The files of a server\<close>

definition client_file :: "nat \<Rightarrow> string" where
  "client_file i = client_config_path @ ''-'' @ int_string (int i)"

lemma client_file_apart: "client_file i \<noteq> client_config_path" "client_file i \<noteq> defaultOpenVPNServerConfigFile"
    "client_config_path \<noteq> defaultOpenVPNServerConfigFile"
  by (simp_all add: client_file_def client_config_path_def defaultOpenVPNServerConfigFile_def clientConfigDir_def ShootClientPrefix_def)

context file_laws
begin

lemma make_dir_files: "make_dir sys w = (None, w') \<Longrightarrow> files w' = files w"
  by (auto simp: make_dir_def split: prod.splits option.splits if_splits dest: mkdir)

lemma client_files:
  assumes "each (\<lambda>i. WriteFile sys (client_file i) '''' m) [0..<n] w = (None, w')"
  shows "files w' p = (if p \<in> client_file ` {0..<n} then Some '''' else files w p)"
  using assms
proof (induction n arbitrary: w')
  case (Suc n)
  then obtain w1 where "each (\<lambda>i. WriteFile sys (client_file i) '''' m) [0..<n] w = (None, w1)"
    "WriteFile sys (client_file n) '''' m w1 = (None, w')"
    by (auto simp: each_append effect_ok)
  then show ?case using Suc.IH by (auto simp: atLeast0_lessThan_Suc dest!: write_file)
qed (simp add: effect_ok)

lemma server_files:
  assumes "WriteServerConfigFiles sys v w = (None, w')"
  shows "files w' defaultOpenVPNServerConfigFile = Some (generateSeedServerConfig v)"
    and "files w' client_config_path = Some (generateConfigForClientFromServer v)"
    and "sv_IsHA v \<Longrightarrow> int i < sv_HAVPNClients v \<Longrightarrow> files w' (client_file i) = Some ''''"
proof -
  let ?last = "if sv_IsHA v then each (\<lambda>i. WriteFile sys (client_file i) '''' defaultConfigFilePermissions) [0..<nat (sv_HAVPNClients v)]
      else skip"
  obtain w1 w2 w3 where
    "WriteFile sys defaultOpenVPNServerConfigFile (generateSeedServerConfig v) defaultConfigFilePermissions w = (None, w1)"
    "make_dir sys w1 = (None, w2)"
    "WriteFile sys client_config_path (generateConfigForClientFromServer v) defaultConfigFilePermissions w2 = (None, w3)"
    and rest: "?last w3 = (None, w')"
    using assms by (auto simp only: WriteServerConfigFiles_def and_then_ok client_file_def)
  then have w3: "files w3 = (files w)(defaultOpenVPNServerConfigFile \<mapsto> generateSeedServerConfig v,
      client_config_path \<mapsto> generateConfigForClientFromServer v)"
    by (auto dest!: write_file make_dir_files)
  have w': "files w' p = (if sv_IsHA v \<and> p \<in> client_file ` {0..<nat (sv_HAVPNClients v)} then Some '''' else files w3 p)" for p
    using rest client_files by (cases "sv_IsHA v") (auto simp: skip_ok)
  show "files w' defaultOpenVPNServerConfigFile = Some (generateSeedServerConfig v)"
    and "files w' client_config_path = Some (generateConfigForClientFromServer v)"
    using client_file_apart client_file_apart [THEN not_sym] by (auto simp: w' w3)
  show "files w' (client_file i) = Some ''''" if "sv_IsHA v" "int i < sv_HAVPNClients v"
    using that by (auto simp: w')
qed

end

lemma server_run_ok:
  assumes "vpn_server_run sys ipt nl rng csorter sorter visit order gid defaultNet parsed w = (None, w')"
  obtains cfg v mtu w1 w2 where "GetVPNServerConfig defaultNet parsed = Inr cfg" and "BuildValues rng csorter cfg = Inr v"
    and "server_SetIPTableRules sys ipt rng sorter visit order gid cfg w = (None, w1)"
    and "server_mtu nl cfg w1 = (Inr mtu, w2)" and "WriteServerConfigFiles sys (v\<lparr>sv_TunMTU := mtu\<rparr>) w2 = (None, w')"
  using assms by (auto simp: vpn_server_run_def effect_ok split: sum.splits)

lemma server_mtu_bounds: "server_mtu nl cfg w = (Inr mtu, w') \<Longrightarrow> if srv_AutoMTU cfg then MinimumMTU \<le> mtu else mtu = 0"
  by (auto simp: server_mtu_def DetectTunnelMTU_def Let_def split: prod.splits sum.splits if_splits)

section \<open>Lines of the files\<close>

lemma split_lines_after:
  "\<forall>l \<in> set ls. c \<notin> set l \<Longrightarrow> split_on c (concat (map (\<lambda>l. c # l) ls) @ c # t) = [] # ls @ split_on c t"
proof (induction ls)
  case (Cons l ls)
  obtain r where r: "concat (map (\<lambda>l. c # l) ls) @ c # t = c # r" by (cases ls) auto
  then have "split_on c (c # r) = [] # ls @ split_on c t" using Cons by simp
  then have "split_on c r = ls @ split_on c t" by simp
  then show ?case using Cons.prems r by (simp add: split_on_append)
qed simp

text \<open>Characters that neither end a line nor separate words, networks or arguments.\<close>

definition plain :: "char \<Rightarrow> bool" where
  "plain c \<longleftrightarrow> c \<noteq> CHR 0x0A \<and> c \<noteq> CHR '' '' \<and> c \<noteq> CHR '','' \<and> c \<noteq> CHR 0x22 \<and> c \<noteq> CHR 0x0D"

lemma plain_digit: "is_digit c \<Longrightarrow> plain c"
  by (auto simp: plain_def is_digit_def less_eq_char_def)

lemma plain_address: "address_char c \<Longrightarrow> plain c"
  by (auto simp: plain_def address_char_def hex_val_def is_digit_def less_eq_char_def)

lemma plain_dec: "list_all plain (dec_string n)"
  using dec_string_digits [of n] plain_digit by (auto simp: list_all_iff)

lemma plain_int: "list_all plain (int_string i)"
  by (simp add: int_string_def plain_dec) (simp add: plain_def)

lemma plain_hex2: "list_all plain (hex2 b)"
proof -
  have "plain (digit_char n)" if "n < 16" for n
    using is_hex_digit [OF that] plain_address by (simp add: is_hex_def address_char_def)
  moreover have "unat b div 16 < 16"
    using unsigned_less [of b, where ?'a = nat] by simp
  ultimately show ?thesis by (simp add: hex2_def)
qed

lemma plain_ip: "list_all plain (ip_string a)"
proof -
  have "list_all plain (concat (map hex2 a))"
    using plain_hex2 by (auto simp: list_all_iff)
  moreover have "list_all plain (ip4_string p)" "list_all plain (ip6_string p)" for p
    using address_ip4 [of p] address_ip6 [of p] plain_address by (auto simp: list_all_iff)
  ultimately show ?thesis by (simp add: ip_string_def plain_def split: option.split)
qed

lemma plain_CIDR: "list_all plain (CIDR_String n)"
  using plain_ip plain_int by (simp add: CIDR_String_def Let_def plain_def split: prod.split)

lemma plain_no: "list_all plain s \<Longrightarrow> CHR 0x0A \<notin> set s \<and> CHR '' '' \<notin> set s \<and> CHR '','' \<notin> set s \<and> CHR 0x22 \<notin> set s \<and> CHR 0x0D \<notin> set s"
  by (auto simp: list_all_iff plain_def)

section \<open>Properties\<close>

text \<open>
  A server that started has written its configuration, built from the environment with a tunnel
  MTU that IPv6 can work with, the file with the routes of the shoot client, and, if it is highly
  available, an empty file for each of the clients of the shoot.
\<close>

theorem server_run_writes:
  assumes "file_laws sys files"
    and "vpn_server_run sys ipt nl rng csorter sorter visit order gid defaultNet parsed w = (None, w')"
  shows "\<exists>cfg v mtu. GetVPNServerConfig defaultNet parsed = Inr cfg \<and> BuildValues rng csorter cfg = Inr v \<and>
    (if srv_AutoMTU cfg then MinimumMTU \<le> mtu else mtu = 0) \<and>
    files w' ''/openvpn-server.config'' = Some (generateSeedServerConfig (v\<lparr>sv_TunMTU := mtu\<rparr>)) \<and>
    files w' ''/client-config-dir/vpn-shoot-client'' = Some (generateConfigForClientFromServer v) \<and>
    (srv_IsHA cfg \<longrightarrow> (\<forall>i. int i < srv_HAVPNClients cfg \<longrightarrow>
       files w' (''/client-config-dir/vpn-shoot-client-'' @ int_string (int i)) = Some ''''))"
proof -
  have paths: "''/openvpn-server.config'' = defaultOpenVPNServerConfigFile"
    "''/client-config-dir/vpn-shoot-client'' = client_config_path"
    "''/client-config-dir/vpn-shoot-client-'' @ int_string (int i) = client_file i" for i
    by (simp_all add: defaultOpenVPNServerConfigFile_def client_config_path_def client_file_def clientConfigDir_def ShootClientPrefix_def)
  obtain cfg v mtu w1 w2 where run: "GetVPNServerConfig defaultNet parsed = Inr cfg" "BuildValues rng csorter cfg = Inr v"
    "server_mtu nl cfg w1 = (Inr mtu, w2)" "WriteServerConfigFiles sys (v\<lparr>sv_TunMTU := mtu\<rparr>) w2 = (None, w')"
    by (rule server_run_ok [OF assms(2)]) blast
  note written = file_laws.server_files [OF assms(1) run(4)]
  have "generateConfigForClientFromServer (v\<lparr>sv_TunMTU := mtu\<rparr>) = generateConfigForClientFromServer v"
    by (simp add: generateConfigForClientFromServer_def)
  then show ?thesis
    unfolding paths using run(1,2) server_mtu_bounds [OF run(3)] written BuildValues_ok(7,9) [OF run(2)]
    by (intro exI [of _ cfg] exI [of _ v] exI [of _ mtu]) simp
qed

section \<open>Routes to the client\<close>

lemma map2_and_ones: "length m = 4 \<Longrightarrow> map2 (AND) [255, 255, 255, 255] m = (m :: ip)"
proof -
  have "(255 :: byte) AND x = x" for x
  proof -
    have "(255 :: byte) = - 1" by simp
    then show ?thesis by (metis and.left_neutral)
  qed
  moreover assume "length m = 4"
  then obtain a b c d where "m = [a, b, c, d]" using list4_cases by blast
  ultimately show ?thesis by simp
qed

lemma dotted_mask:
  assumes "ParseIPNet s = Inr n" and "length (net_ip n) = 4"
  shows "parse_ip4 (ip_string (net_ip n)) = Some (net_ip n)" and "parse_ip4 (cidrMask n) = Some (net_mask n)"
proof -
  obtain q where q: "q \<le> 32" "net_mask n = mask_bytes 4 q"
    by (rule parsed_shape [OF assms(1)]) (use assms(2) in auto)
  show "parse_ip4 (ip_string (net_ip n)) = Some (net_ip n)"
    using assms(2) parse_ip4_string by (auto simp: ip_string_def)
  have size: "mask_size (mask_bytes 4 q) = (int q, 32)"
    using mask_size_cidr_mask [of 32 "int q"] q(1) by (simp add: cidr_mask_def)
  have "cidr_mask (int q) 32 = mask_bytes 4 q" using q(1) by (simp add: cidr_mask_def)
  moreover have "map2 (AND) [255, 255, 255, 255] (mask_bytes 4 q) = mask_bytes 4 q"
    by (rule map2_and_ones) simp
  ultimately have "ip_mask (ipv4 255 255 255 255) (cidr_mask (int q) 32) = mask_bytes 4 q"
    by (simp add: ipv4_def ip_mask_v4)
  then have "cidrMask n = ip_string (mask_bytes 4 q)" using size q(2) by (simp add: cidrMask_def)
  moreover have "length (mask_bytes 4 q) = 4" by simp
  ultimately show "parse_ip4 (cidrMask n) = Some (net_mask n)"
    using parse_ip4_string [of "mask_bytes 4 q"] q(2) by (auto simp: ip_string_def simp del: mask_bytes_length)
qed

lemma cidrMask_plain: "list_all plain (cidrMask n)"
  by (simp add: cidrMask_def plain_ip split: prod.split)

text \<open>
  C34: the file that the server writes for the shoot client has one line for each network of the
  shoot, from which the network can be read back: address and dotted mask for IPv4, the usual text
  for IPv6.
\<close>

theorem iroute_lines:
  assumes "\<forall>n \<in> set (sv_ShootNetworksV4 v). (\<exists>s. ParseIPNet s = Inr n) \<and> length (net_ip n) = 4"
    and "\<forall>n \<in> set (sv_ShootNetworksV6 v). (\<exists>s. ParseIPNet s = Inr n) \<and> \<not> CIDR_IsIPv4 n"
  shows "\<exists>ls4 ls6. split_on CHR 0x0A (generateConfigForClientFromServer v) = [''''] @ ls4 @ ls6 @ [''''] \<and>
    list_all2 (\<lambda>n l. \<exists>a m. l = ''iroute '' @ a @ '' '' @ m \<and> parse_ip4 a = Some (net_ip n) \<and> parse_ip4 m = Some (net_mask n))
      (sv_ShootNetworksV4 v) ls4 \<and>
    list_all2 (\<lambda>n l. \<exists>t. l = ''iroute-ipv6 '' @ t \<and> ParseIPNet t = Inr n) (sv_ShootNetworksV6 v) ls6"
proof -
  let ?l4 = "\<lambda>n. ''iroute '' @ ip_string (net_ip n) @ '' '' @ cidrMask n"
  let ?l6 = "\<lambda>n. ''iroute-ipv6 '' @ CIDR_String n"
  let ?ls = "map ?l4 (sv_ShootNetworksV4 v) @ map ?l6 (sv_ShootNetworksV6 v)"
  have "\<forall>l \<in> set ?ls. CHR 0x0A \<notin> set l"
    using plain_no [OF plain_ip] plain_no [OF cidrMask_plain] plain_no [OF plain_CIDR] by auto
  then have "split_on CHR 0x0A (concat (map (\<lambda>l. CHR 0x0A # l) ?ls) @ CHR 0x0A # []) = [''''] @ ?ls @ split_on CHR 0x0A []"
    using split_lines_after [of ?ls "CHR 0x0A" "[]"] by simp
  moreover have "generateConfigForClientFromServer v = concat (map (\<lambda>l. CHR 0x0A # l) ?ls) @ CHR 0x0A # []"
    by (simp add: generateConfigForClientFromServer_def newline_def comp_def)
  ultimately have "split_on CHR 0x0A (generateConfigForClientFromServer v) =
      [''''] @ map ?l4 (sv_ShootNetworksV4 v) @ map ?l6 (sv_ShootNetworksV6 v) @ ['''']" by simp
  moreover have "list_all2 (\<lambda>n l. \<exists>a m. l = ''iroute '' @ a @ '' '' @ m \<and> parse_ip4 a = Some (net_ip n) \<and> parse_ip4 m = Some (net_mask n))
      (sv_ShootNetworksV4 v) (map ?l4 (sv_ShootNetworksV4 v))"
    unfolding list_all2_map2 list_all2_same using assms(1) dotted_mask by blast
  moreover have "list_all2 (\<lambda>n l. \<exists>t. l = ''iroute-ipv6 '' @ t \<and> ParseIPNet t = Inr n) (sv_ShootNetworksV6 v) (map ?l6 (sv_ShootNetworksV6 v))"
    unfolding list_all2_map2 list_all2_same using assms(2) parse_cidr_String by (fastforce simp: ParseIPNet_def)
  ultimately show ?thesis by blast
qed

section \<open>The client\<close>

lemma client_run_ok:
  assumes "vpn_client_run sys ipt nl show_addr rng sorter visit order gid defaultNet parsed w = (None, w')"
  obtains cfg mtu w1 w2 w3 where "GetVPNClientConfig defaultNet parsed = Inr cfg" and "tunnel_mtu nl cfg w = (Inr mtu, w1)"
    and "client_SetIPTableRules sys ipt rng sorter visit order gid cfg w1 = (None, w2)"
    and "WriteClientConfigFile sys (vpnConfig rng cfg mtu) w3 = (None, w')"
  using assms by (auto simp: vpn_client_run_def effect_ok Let_def split: sum.splits)

lemma tunnel_mtu_bounds: "tunnel_mtu nl cfg w = (Inr mtu, w') \<Longrightarrow> if AutoMTU cfg then MinimumMTU \<le> mtu else mtu = 0"
  by (auto simp: tunnel_mtu_def DetectTunnelMTU_def Let_def split: prod.splits sum.splits if_splits)

lemma vpnConfig_tap:
  assumes "VPNServerIndex cfg = dec_string i" and "i < 2 ^ 62"
  shows "cv_Device (vpnConfig rng cfg mtu) = tap_name i" and "cv_ManagementPort (vpnConfig rng cfg mtu) = 7505 + i"
proof -
  have "Atoi (dec_string i) = Some (int i)" using assms(2) by (intro Atoi_dec_string) simp
  moreover have "(7505 + int i) mod 2 ^ 64 = 7505 + int i" using assms(2) by (intro mod_pos_pos_trivial) auto
  ultimately show "cv_Device (vpnConfig rng cfg mtu) = tap_name i" "cv_ManagementPort (vpnConfig rng cfg mtu) = 7505 + i"
    using assms(1) by (simp_all add: vpnConfig_def Let_def Atoi_value_def tap_name_def nat_add_distrib ManagementPort_def)
qed

text \<open>
  A client that started has written its configuration, with a tunnel MTU that IPv6 can work with.
  If it belongs to the \<open>i\<close>-th server of a highly available set, its device is the \<open>i\<close>-th tap device and
  its management port the \<open>i\<close>-th one from the default; if it is the only client of a shoot, OpenVPN
  routes the pod network of the seed over the VPN when the tunnel is up, in its mapped form for IPv4.
\<close>

theorem client_run_writes:
  assumes "file_laws sys files"
    and "vpn_client_run sys ipt nl show_addr rng sorter visit order gid defaultNet parsed w = (None, w')"
  shows "\<exists>cfg v. GetVPNClientConfig defaultNet parsed = Inr cfg \<and> files w' ''/openvpn-client.config'' = Some (generateClientConfig v) \<and>
    (if AutoMTU cfg then MinimumMTU \<le> cv_TunMTU v else cv_TunMTU v = 0) \<and>
    (\<forall>i < 2 ^ 62. VPNServerIndex cfg = dec_string i \<longrightarrow> ''dev '' @ tap_name i \<in> set (client_lines v) \<and>
       (IsShootClient cfg \<longrightarrow> ''management 127.0.0.1 '' @ dec_string (7505 + i) \<in> set (client_lines v))) \<and>
    (\<not> IsHA cfg \<and> IsShootClient cfg \<longrightarrow> last (client_lines v) =
       ''up \"/bin/sh -c '' @ [CHR 0x27] @ ''/sbin/ip route replace '' @
       (if CIDR_IsIPv4 (SeedPodNetwork cfg) then SeedPodNetworkMapped rng else CIDR_String (SeedPodNetwork cfg)) @
       '' dev $1'' @ [CHR 0x27] @ '' -- \"'')"
proof -
  obtain cfg mtu w1 w2 w3 where run: "GetVPNClientConfig defaultNet parsed = Inr cfg" "tunnel_mtu nl cfg w = (Inr mtu, w1)"
    "WriteClientConfigFile sys (vpnConfig rng cfg mtu) w3 = (None, w')"
    by (rule client_run_ok [OF assms(2)]) blast
  let ?v = "vpnConfig rng cfg mtu"
  have "files w' ''/openvpn-client.config'' = Some (generateClientConfig ?v)"
    using file_laws.write_file [OF assms(1)] run(3) by (auto simp: WriteClientConfigFile_def defaultOpenVPNClientConfigFile_def)
  moreover have "cv_TunMTU ?v = mtu" by (simp add: vpnConfig_def Let_def)
  moreover have lines: "''dev '' @ cv_Device v \<in> set (client_lines v)"
    "cv_IsShootClient v \<Longrightarrow> ''management 127.0.0.1 '' @ dec_string (cv_ManagementPort v) \<in> set (client_lines v)" for v
    by (simp_all add: client_lines_def)
  moreover have "cv_IsShootClient ?v = IsShootClient cfg" by (simp add: vpnConfig_def Let_def)
  moreover have "last (client_lines ?v) = ''up \"/bin/sh -c '' @ [CHR 0x27] @ ''/sbin/ip route replace '' @
       (if CIDR_IsIPv4 (SeedPodNetwork cfg) then SeedPodNetworkMapped rng else CIDR_String (SeedPodNetwork cfg)) @
       '' dev $1'' @ [CHR 0x27] @ '' -- \"''" if "\<not> IsHA cfg" "IsShootClient cfg"
    using that by (simp add: client_lines_def vpnConfig_def Let_def)
  ultimately show ?thesis
    using run(1) tunnel_mtu_bounds [OF run(2)] vpnConfig_tap [of cfg _ rng mtu]
    by (intro exI [of _ cfg] exI [of _ ?v]) metis
qed

text \<open>
  The exit of the two probes of a server whose OpenVPN has written its status file: readiness
  succeeds if a client of each side is connected for a highly available server, and if no client or
  one of the shoot is for another one; liveness succeeds if the file is at most 17 seconds old.
\<close>

theorem probes_exit:
  assumes "GetVPNServerConfig defaultNet parsed = Inr cfg"
    and "list_all entry_ok es" and "list_all (\<lambda>e. readable (entry_line e)) es"
    and "ReadFile sys (srv_StatusPath cfg) w = (Inr (unlines (map entry_line es)), w')"
  shows "runReadiness sys defaultNet parsed w =
      (if (if srv_IsHA cfg then list_ex seed_client (clients_of es) \<and> list_ex shoot_client (clients_of es)
           else clients_of es = [] \<or> list_ex shoot_client (clients_of es)) then Done else Exit 1, w') \<and>
    runLiveness sys Now defaultNet parsed w =
      (if Now w' - last (0 # updates_of es) \<le> 17 * Second then Done else Exit 1, w')"
proof -
  have content: "ReadFile sys (hc_OpenVPNStatusPath (health_config cfg)) w = (Inr (unlines (map entry_line es)), w')"
    using assms(4) by (simp add: health_config_def)
  have "hc_OpenVPNStatusUpdateInterval (health_config cfg) = 15" "hc_IsHA (health_config cfg) = srv_IsHA cfg"
    by (simp_all add: health_config_def NewDefaultConfig_def)
  then show ?thesis
    using IsReady_status [OF assms(2,3) content] IsAlive_status [OF assms(2,3) content, of Now] assms(1)
    by (auto simp: runReadiness_def runLiveness_def)
qed

section \<open>Witnesses\<close>

text \<open>A server that is not highly available, on a machine that has its tunnel device.\<close>

lemma default_server_values: "\<exists>v. BuildValues default_ranges sort_key default_server = Inr v"
proof -
  have "to16 (net_ip vpn_nw) = Some (net_ip vpn_nw)" "\<not> CIDR_IsIPv4 vpn_nw" "net_ip vpn_nw \<noteq> []"
    "fst (mask_size (net_mask vpn_nw)) = VPNNetworkMask"
    by (simp_all add: vpn_nw_def CIDR_IsIPv4_def VPNNetworkMask_def mask_size_def simple_mask_length_mask_bytes net_eval)
  moreover have "getHAInfo default_server = (False, 0)" by (simp add: getHAInfo_def default_server_def)
  ultimately show ?thesis by (simp add: BuildValues_def default_server_def Let_def)
qed

lemma default_server_config: "GetVPNServerConfig d (Inr default_server) = Inr default_server"
  by (simp add: GetVPNServerConfig_def default_server_def vpn_nw_ok)

lemma default_server_routed: "routed_set default_ranges default_server = {net8 243, net8 244}"
proof -
  have "do_netmap default_server" by (simp add: do_netmap_def getHAInfo_def default_server_def)
  then show ?thesis
    by (auto simp: routed_set_def default_server_def default_ranges_def ParseIPNetIgnoreError_def default_parse CIDR_IsIPv4_def
        default_services_def default_pods_def)
qed

lemma machine_files_run: "runs (WriteFile machine_os f c m)" "runs (make_dir machine_os)"
  by (simp_all add: runs_def machine_os_def make_dir_def)

lemma default_server_runs:
  "\<exists>m. vpn_server_run machine_os machine_ipt machine_netlink default_ranges sort_key sort_key (\<lambda>m. m) (\<lambda>m. m) 101 vpn_nw
      (Inr default_server) tunnel_machine = (None, m)"
proof -
  obtain v where v: "BuildValues default_ranges sort_key default_server = Inr v" using default_server_values by blast
  have "runs (with_result (server_mtu machine_netlink default_server)
      (\<lambda>tunMTU. WriteServerConfigFiles machine_os (v\<lparr>sv_TunMTU := tunMTU\<rparr>)))"
    unfolding WriteServerConfigFiles_def
    by (intro runs_intro machine_files_run) (simp_all add: server_mtu_def default_server_def)
  then have "runs (vpn_server_run machine_os machine_ipt machine_netlink default_ranges sort_key sort_key (\<lambda>m. m) (\<lambda>m. m) 101 vpn_nw
      (Inr default_server))"
    unfolding vpn_server_run_def default_server_config v sum.case
    by (intro runs_and_then default_rules_run_on machine_run)
  then show ?thesis by (rule runsD)
qed

lemma vpn_nw_parsed: "\<exists>s. ParseIPNet s = Inr vpn_nw"
proof
  have "replicate 8 (0 :: byte) = [0, 0, 0, 0, 0, 0, 0, 0]" by (simp add: eval_nat_numeral)
  then show "ParseIPNet ''fd8f:6d53:b97a:1::/96'' = Inr vpn_nw"
    by (simp add: ParseIPNet_def vpn_nw_def net_eval)
qed

text \<open>The file for a client, with a network of each family.\<close>

theorem iroute_lines_witness:
  "\<exists>v ls4 ls6. sv_ShootNetworksV4 v = [default_services] \<and> sv_ShootNetworksV6 v = [vpn_nw] \<and>
     split_on CHR 0x0A (generateConfigForClientFromServer v) = [''''] @ ls4 @ ls6 @ [''''] \<and> length ls4 = 1 \<and> length ls6 = 1"
proof -
  obtain v :: SeedServerValues where v: "sv_ShootNetworksV4 v = [default_services]" "sv_ShootNetworksV6 v = [vpn_nw]"
    by (metis SeedServerValues.select_convs(5,6))
  have v4: "\<forall>n \<in> set (sv_ShootNetworksV4 v). (\<exists>s. ParseIPNet s = Inr n) \<and> length (net_ip n) = 4"
    using default_parse(4) v by (auto simp: default_services_def)
  have v6: "\<forall>n \<in> set (sv_ShootNetworksV6 v). (\<exists>s. ParseIPNet s = Inr n) \<and> \<not> CIDR_IsIPv4 n"
    using v vpn_nw_parsed by (simp add: vpn_nw_def CIDR_IsIPv4_def net_eval)
  obtain ls4 ls6 where "split_on CHR 0x0A (generateConfigForClientFromServer v) = [''''] @ ls4 @ ls6 @ ['''']"
    "length ls4 = length (sv_ShootNetworksV4 v)" "length ls6 = length (sv_ShootNetworksV6 v)"
    using iroute_lines [OF v4 v6] by (auto dest!: list_all2_lengthD)
  with v show ?thesis by (intro exI [of _ v] exI [of _ ls4] exI [of _ ls6]) simp
qed

lemma machine_Cleanup_run: "runs (Cleanup machine_netlink show_addr dev)"
proof -
  have list: "AddrList machine_netlink l f m = (Inr (filter (in_family f) (host_addresses (mach_host m) (name_of l))), m)"
    and down: "runs (LinkSetDown machine_netlink l)" and del: "runs (AddrDel machine_netlink l a)" for l f m a
    by (simp_all add: machine_netlink_def host_netlink_def on_host_def runs_def Let_def)
  have each: "runs (and_then (wrapping f (LinkSetDown machine_netlink l)) (each (\<lambda>a. wrapping (g a) (AddrDel machine_netlink l a)) as))"
    for f g l as
    by (intro runs_intro down del)
  have link: "LinkByName machine_netlink dev m = (case host_link (mach_host m) dev of
      None \<Rightarrow> Inl (LinkNotFoundError (Foreign ''Link not found'')) | Some l \<Rightarrow> Inr l, m)" for m
    by (simp add: machine_netlink_def host_netlink_def on_host_def Let_def)
  show ?thesis
    unfolding runs_def
  proof
    fix m
    show "fst (Cleanup machine_netlink show_addr dev m) = None"
      using each by (cases "host_link (mach_host m) dev") (simp_all add: Cleanup_def link list runs_def)
  qed
qed

lemma default_client_runs:
  "\<exists>m. vpn_client_run machine_os machine_ipt machine_netlink (\<lambda>_. []) default_ranges sort_key (\<lambda>m. m) (\<lambda>m. m) 101 vpn_nw
      (Inr (default_client True True)) tunnel_machine = (None, m)"
proof -
  let ?cfg = "default_client True True"
  have mtu: "tunnel_mtu machine_netlink ?cfg m = (Inr 0, m)" for m by (simp add: tunnel_mtu_def default_client_def)
  have "runs (vpn_client_run machine_os machine_ipt machine_netlink (\<lambda>_. []) default_ranges sort_key (\<lambda>m. m) (\<lambda>m. m) 101 vpn_nw (Inr ?cfg))"
    unfolding vpn_client_run_def default_client_config sum.case Let_def WriteClientConfigFile_def
    by (intro runs_and_then runs_with_result default_rules_run_on machine_run machine_Cleanup_run machine_files_run) (simp add: mtu)
  then show ?thesis by (rule runsD)
qed

text \<open>The probes of a server that is not highly available, 17 seconds after the last update and later.\<close>

theorem probes_exit_witness:
  "fst (runReadiness machine_os vpn_nw (Inr default_server) status_machine) = Done \<and>
   fst (runLiveness machine_os (\<lambda>_. 63901739541 * Second) vpn_nw (Inr default_server) status_machine) = Done \<and>
   fst (runLiveness machine_os (\<lambda>_. 63901739541 * Second + 1) vpn_nw (Inr default_server) status_machine) = Exit 1"
proof -
  have "list_ex shoot_client (clients_of sample_entries)" "\<not> srv_IsHA default_server"
    by (simp_all add: sample_entries_def sample_client_def clients_of_def has_prefix_def SeedClientPrefix_def ShootClientPrefix_def default_server_def)
  moreover have "last (0 # updates_of sample_entries) = 63901739524 * Second" by (simp add: sample_simps)
  moreover have "ReadFile machine_os (srv_StatusPath default_server) status_machine = (Inr (unlines (map entry_line sample_entries)), status_machine)"
    using status_machine_file by (simp add: default_server_def NewDefaultConfig_def)
  note probes_exit [OF default_server_config sample_ok sample_readable this]
  ultimately show ?thesis by (simp add: Second_def)
qed

end
