(* ===== verification/Config_Proofs.thy ===== *)
theory Config_Proofs
  imports Config
begin

text \<open>
  What the validation of a configuration establishes: the well-formed configurations are its results,
  and validating one again changes nothing.
\<close>

section \<open>Well-formed configurations\<close>

definition wf_families :: "string list \<Rightarrow> bool" where
  "wf_families fams \<longleftrightarrow> fams = [IPv4Family] \<or> fams = [IPv6Family] \<or> fams = [IPv4Family, IPv6Family]"

definition wf_vpn_network :: "CIDR \<Rightarrow> CIDR \<Rightarrow> bool" where
  "wf_vpn_network defaultNet n \<longleftrightarrow> validateVPNNetworkCIDR n = None \<and> (CIDR_String n = '''' \<longrightarrow> n = defaultNet)"

definition wf_client :: "CIDR \<Rightarrow> VPNClient \<Rightarrow> bool" where
  "wf_client defaultNet cfg \<longleftrightarrow>
     wf_families (IPFamilies cfg) \<and> wf_vpn_network defaultNet (VPNNetwork cfg) \<and> 0 \<le> WaitTime cfg \<and>
     VPNClientIndex cfg = pod_index (PodName cfg) \<and>
     (IsHA cfg \<longrightarrow> BondingModeName cfg \<in> set BondingModes \<and> (HAVPNServers cfg = 0 \<longleftrightarrow> HAVPNClients cfg = 0) \<and>
        (IsShootClient cfg \<longrightarrow> PodName cfg \<noteq> ''''))"

definition wf_server :: "CIDR \<Rightarrow> VPNServer \<Rightarrow> bool" where
  "wf_server defaultNet cfg \<longleftrightarrow>
     wf_vpn_network defaultNet (srv_VPNNetwork cfg) \<and> srv_StatusPath cfg \<noteq> '''' \<and>
     (srv_IsHA cfg \<longrightarrow> srv_PodName cfg \<noteq> '''' \<and> 0 < srv_HAVPNClients cfg)"

section \<open>Parts of the validation\<close>

lemma vpn_network_iff: "vpn_network d nw = Inr n \<longleftrightarrow> n = (if CIDR_String nw = '''' then d else nw) \<and> validateVPNNetworkCIDR n = None"
  by (auto simp: vpn_network_def getVPNNetworkDefault_def split: option.splits)

lemma vpn_network_wf: "vpn_network d nw = Inr n \<Longrightarrow> wf_vpn_network d n"
  by (auto simp: vpn_network_iff wf_vpn_network_def split: if_splits)

lemma wf_vpn_network_again: "wf_vpn_network d n \<Longrightarrow> vpn_network d n = Inr n"
  by (auto simp: vpn_network_iff wf_vpn_network_def)

lemma families_less: "IPv4Family < IPv6Family" "IPv4Family \<noteq> IPv6Family"
  by (simp_all add: IPv4Family_def IPv6Family_def less_char_def)

lemma families_wf: "check_families fams = None \<Longrightarrow> wf_families (remdups_adj (sort fams))"
proof -
  assume ok: "check_families fams = None"
  let ?s = "remdups_adj (sort fams)"
  have d: "distinct ?s" "?s \<noteq> []" "set ?s \<subseteq> {IPv4Family, IPv6Family}" "sorted ?s"
    using remdups_adj_families [OF ok] by (auto intro: sorted_remdups_adj)
  obtain a r where a: "?s = a # r" using d(2) by (cases ?s) auto
  show ?thesis
  proof (cases r)
    case Nil
    then show ?thesis using d(3) a by (auto simp: wf_families_def)
  next
    case (Cons b t)
    have ab: "a \<noteq> b" "a \<le> b" using d a Cons by auto
    then have "a = IPv4Family" "b = IPv6Family" using d(3) a Cons families_less by auto
    moreover from this have "t = []" using d(1,3) a Cons by (cases t) auto
    ultimately show ?thesis using a Cons by (simp add: wf_families_def)
  qed
qed

lemma wf_families_again: "wf_families fams \<Longrightarrow> check_families fams = None \<and> remdups_adj (sort fams) = fams"
  using families_less by (auto simp: wf_families_def check_families_def less_imp_le)

lemma check_ha_iff: "check_ha cfg = None \<longleftrightarrow>
    (IsHA cfg \<longrightarrow> BondingModeName cfg \<in> set BondingModes \<and> (HAVPNServers cfg = 0 \<longleftrightarrow> HAVPNClients cfg = 0) \<and>
       (IsShootClient cfg \<longrightarrow> PodName cfg \<noteq> ''''))"
  by (auto simp: check_ha_def)

lemma check_ha_update [simp]: "check_ha (cfg\<lparr>VPNNetwork := n, VPNClientIndex := i\<rparr>) = check_ha cfg"
  by (simp add: check_ha_def)

lemma GetVPNClientConfig_result:
  assumes "GetVPNClientConfig defaultNet parsed = Inr cfg"
  shows "wf_client defaultNet cfg"
proof -
  from assms obtain cfg0 nw where p: "vpn_network defaultNet (VPNNetwork cfg0) = Inr nw" "check_ha cfg0 = None"
    "check_families (IPFamilies cfg0) = None" "0 \<le> WaitTime cfg0"
    and cfg: "cfg = cfg0\<lparr>VPNNetwork := nw, VPNClientIndex := pod_index (PodName cfg0),
      IPFamilies := remdups_adj (sort (IPFamilies cfg0))\<rparr>"
    by (auto simp: GetVPNClientConfig_def result_simps Let_def split: option.splits if_splits)
  show ?thesis
    using p families_wf [OF p(3)] vpn_network_wf [OF p(1)] by (simp add: wf_client_def cfg check_ha_iff)
qed

lemma GetVPNClientConfig_again:
  assumes "wf_client defaultNet cfg"
  shows "GetVPNClientConfig defaultNet (Inr cfg) = Inr cfg"
proof -
  have "check_ha cfg = None" using assms by (simp add: wf_client_def check_ha_iff)
  moreover have "vpn_network defaultNet (VPNNetwork cfg) = Inr (VPNNetwork cfg)"
    using assms wf_vpn_network_again by (simp add: wf_client_def)
  moreover have "check_families (IPFamilies cfg) = None" "remdups_adj (sort (IPFamilies cfg)) = IPFamilies cfg"
    using assms wf_families_again by (simp_all add: wf_client_def)
  ultimately show ?thesis
    using assms by (simp add: GetVPNClientConfig_def Let_def wf_client_def)
qed

lemma GetVPNServerConfig_result: "GetVPNServerConfig defaultNet parsed = Inr cfg \<Longrightarrow> wf_server defaultNet cfg"
  using vpn_network_wf by (auto simp: GetVPNServerConfig_def wf_server_def result_simps Let_def split: if_splits)

lemma GetVPNServerConfig_again: "wf_server defaultNet cfg \<Longrightarrow> GetVPNServerConfig defaultNet (Inr cfg) = Inr cfg"
  using wf_vpn_network_again by (auto simp: GetVPNServerConfig_def Let_def wf_server_def)

section \<open>Properties\<close>

text \<open>
  C31: the configurations that the validation of a client's environment can return are the
  well-formed ones: the IP families in one of three normal forms, a valid VPN network, the index
  read off the pod name, and consistent numbers of servers and clients; likewise for a server, with a
  status file and, if it is highly available, its pod name and its clients.
\<close>

theorem validated_configs:
  "{cfg. \<exists>parsed. GetVPNClientConfig defaultNet parsed = Inr cfg} = {cfg. wf_client defaultNet cfg} \<and>
   {cfg. \<exists>parsed. GetVPNServerConfig defaultNet parsed = Inr cfg} = {cfg. wf_server defaultNet cfg}"
  using GetVPNClientConfig_result GetVPNClientConfig_again GetVPNServerConfig_result GetVPNServerConfig_again by blast

end
