(* ===== verification/Pool_Wait.thy ===== *)
theory Pool_Wait
  imports Pool_Theorems
begin

text \<open>
  How long \<^verbatim>\<open>AcquireIP\<close> waits.  The clock is an abstraction \<open>elapsed\<close> of the world that only sleeping
  advances.
\<close>

section \<open>A pool with a clock\<close>




section \<open>Property\<close>



end
