(* ===== verification/Seed_Pods.thy ===== *)
theory Seed_Pods
  imports Firewall Commands Path_Controller CIDR_Text
begin

text \<open>
  The addresses of the seed's pods as the shoot sees them: what the rules of the server or of a seed
  client make of the source of a packet, what they make of the destination of an answer, and what the
  other components assume about it.
\<close>

section \<open>The pair of rules\<close>

lemma ParseIPNet_cidr: "ParseIPNet s = Inr n \<Longrightarrow> \<exists>a. parse_cidr s = Some (a, n)"
  by (auto simp: ParseIPNet_def split: option.splits)

text \<open>
  One rule for what leaves and one for what comes back, between the network \<open>n\<close> of the text \<open>seed\<close>
  and the network \<open>m\<close> of the text \<open>mapped\<close>, whose prefix is not longer.
\<close>

lemma pair_translates:
  assumes n: "ParseIPNet seed = Inr n" "mask_size (net_mask n) = (d, 32)"
    and m: "ParseIPNet mapped = Inr m" "mask_size (net_mask m) = (e, 32)" and "e \<le> d"
    and a: "length a = 4" "net_contains n a"
  obtains b where "netmapIP a m = Inr b" and "length b = 4" and "net_contains m b"
    and "translate ''-s'' [postrouting_spec dev seed mapped] a = b"
    and "translate ''-d'' [prerouting_spec dev mapped seed] b = a"
proof -
  have v: "v4net n" "v4net m" using n m v4netI by blast+
  then have "submask (net_mask m) (net_mask n)" using n(2) m(2) assms(5) by (intro v4net_submask) simp_all
  from netmapIP_roundtrip_bytes [OF v this to4_4 [OF a(1)] a(2)]
  obtain b where b: "netmapIP a m = Inr b" "length b = 4" "net_contains m b" "netmapIP b n = Inr a" by blast
  have "netmap_rule ''-s'' (postrouting_spec dev seed mapped) = Some (n, m)"
    "netmap_rule ''-d'' (prerouting_spec dev mapped seed) = Some (m, n)"
    using n(1) m(1) by (simp_all add: netmap_rule_def postrouting_spec_def prerouting_spec_def)
  then show thesis using that b a by simp
qed

text \<open>The path controller computes the same address from the text of the pod IP.\<close>

lemma NetmapIP_text:
  assumes "ParseIPNet mapped = Inr m" and "length a = 4" and "netmapIP a m = Inr b"
  shows "NetmapIP (ip_string a) mapped = Inr (ip_string b)"
proof -
  obtain a16 where a16: "to16 a = Some a16" "to4 a16 = Some a" using assms(2) by (auto simp: to16_def to4_def v4_in_v6_prefix_def)
  moreover have "netmapIP a16 m = Inr b" using a16(2) assms(2,3) by (auto simp: netmapIP_def split: option.splits if_splits)
  moreover obtain c where "parse_cidr mapped = Some (c, m)" using ParseIPNet_cidr [OF assms(1)] by blast
  ultimately show ?thesis using assms(2,3) by (simp add: NetmapIP_def parse_ip_printed)
qed

section \<open>Properties\<close>

text \<open>
  C21: with high availability and a seed pod network that overlaps the shoot, once a seed client has
  set its rules, a packet from a pod of the seed leaves it with an address of the reserved range, an
  answer to that address comes back to the pod, and the path controller beside the client reports
  just that address of its pod to the shoot.
\<close>

theorem seed_pod_translation:
  assumes "iptables_laws sys ipt tabs" and "GetVPNClientConfig defaultNet parsed = Inr cfg"
    and "\<not> IsShootClient cfg" and "client_overlap cfg" and "IPv4Family \<in> set (IPFamilies cfg)"
    and "client_SetIPTableRules sys ipt rng sorter visit order gid cfg w = (None, w')"
    and "tabs w (ProtocolIPv4, ''nat'', ''PREROUTING'') = []" and "tabs w (ProtocolIPv4, ''nat'', ''POSTROUTING'') = []"
    and "ParseIPNet s = Inr (SeedPodNetwork cfg)" and "mask_size (net_mask (SeedPodNetwork cfg)) = (d, 32)"
    and "ParseIPNet (SeedPodNetworkMapped rng) = Inr m" and "mask_size (net_mask m) = (e, 32)" and "e \<le> d"
    and "path_SeedPodNetwork pc = SeedPodNetwork cfg" and "path_ShootPodNetworks pc = ShootPodNetworks cfg"
    and "path_ShootServiceNetworks pc = ShootServiceNetworks cfg" and "path_ShootNodeNetworks pc = ShootNodeNetworks cfg"
    and "length a = 4" and "net_contains (SeedPodNetwork cfg) a"
  shows "\<exists>b. translate ''-s'' (tabs w' (ProtocolIPv4, ''nat'', ''POSTROUTING'')) a = b \<and> net_contains m b \<and>
    translate ''-d'' (tabs w' (ProtocolIPv4, ''nat'', ''PREROUTING'')) b = a \<and>
    path_pod_ip rng pc (ip_string a) = Inr (ip_string b)"
proof -
  let ?seed = "CIDR_String (SeedPodNetwork cfg)"
  have v4: "v4net (SeedPodNetwork cfg)" using assms(9,10) by (rule v4netI)
  note chain = iptables_laws.seed_client_chain [OF assms(1,6,3,4) GetVPNClientConfig_families [OF assms(2)] assms(5)]
  have "CIDR_IsIPv4 (SeedPodNetwork cfg)" using v4net_bytes(1) [OF v4] by (simp add: CIDR_IsIPv4_def)
  then have rules: "tabs w' (ProtocolIPv4, ''nat'', ''PREROUTING'') = [prerouting_spec (forwardDevice cfg) (SeedPodNetworkMapped rng) ?seed]"
    "tabs w' (ProtocolIPv4, ''nat'', ''POSTROUTING'') = [postrouting_spec (forwardDevice cfg) ?seed (SeedPodNetworkMapped rng)]"
    using assms(7,8) by (auto simp: seed_nat_specs_def Let_def add_unique_def intro: chain [of "''PREROUTING''"] chain [of "''POSTROUTING''"])
  obtain b where b: "netmapIP a m = Inr b" "length b = 4" "net_contains m b"
    "translate ''-s'' [postrouting_spec (forwardDevice cfg) ?seed (SeedPodNetworkMapped rng)] a = b"
    "translate ''-d'' [prerouting_spec (forwardDevice cfg) (SeedPodNetworkMapped rng) ?seed] b = a"
    by (rule pair_translates [OF v4net_parse [OF v4] assms(10-13,18,19)])
  have "path_pod_ip rng pc (ip_string a) = Inr (ip_string b)"
    using assms(4,14-18) NetmapIP_text [OF assms(11,18) b(1)]
    by (auto simp: path_pod_ip_def client_overlap_def Let_def parse_ip_printed to16_def to4_def)
  then show ?thesis using b rules by simp
qed

text \<open>
  C22: without high availability, once the firewall command has run for the tunnel with the pod
  network of the seed, a packet from a pod of the seed leaves the server with an address of the
  reserved range, an answer to that address comes back to the pod, and the shoot client has its
  OpenVPN route that range over the tunnel.
\<close>

theorem seed_pod_translation_up:
  assumes "firewall_host sys ipt tabs nl kern"
    and "runFirewallCommand sys ipt nl rng TunnelDevice ''up'' nws seed w = (None, w')"
    and "tabs w (ProtocolIPv4, ''nat'', ''PREROUTING'') = []" and "tabs w (ProtocolIPv4, ''nat'', ''POSTROUTING'') = []"
    and "ParseIPNet seed = Inr (SeedPodNetwork cfg)" and "mask_size (net_mask (SeedPodNetwork cfg)) = (d, 32)"
    and "ParseIPNet (SeedPodNetworkMapped rng) = Inr m" and "mask_size (net_mask m) = (e, 32)" and "e \<le> d"
    and "IsShootClient cfg" and "\<not> IsHA cfg"
    and "length a = 4" and "net_contains (SeedPodNetwork cfg) a"
  shows "\<exists>b. translate ''-s'' (tabs w' (ProtocolIPv4, ''nat'', ''POSTROUTING'')) a = b \<and> net_contains m b \<and>
    translate ''-d'' (tabs w' (ProtocolIPv4, ''nat'', ''PREROUTING'')) b = a \<and>
    (\<exists>before after. before @ SeedPodNetworkMapped rng @ after \<in> set (client_lines (vpnConfig rng cfg mtu)) \<and>
       before = ''up \"/bin/sh -c '' @ [CHR 0x27] @ ''/sbin/ip route replace '' \<and> after = '' dev $1'' @ [CHR 0x27] @ '' -- \"'')"
proof -
  have v4: "v4net (SeedPodNetwork cfg)" using assms(5,6) by (rule v4netI)
  then have is4: "CIDR_IsIPv4 (SeedPodNetwork cfg)" using v4net_bytes(1) by (simp add: CIDR_IsIPv4_def)
  obtain l where "\<And>c. tabs w' c = tabs w c @
      (if c \<in> {(ProtocolIPv4, ''filter'', ''INPUT''), (ProtocolIPv6, ''filter'', ''INPUT'')} then firewall_specs TunnelDevice
       else if nat_mapped TunnelDevice seed \<and> c \<in> {(ProtocolIPv4, ''nat'', ''PREROUTING''), (ProtocolIPv4, ''nat'', ''POSTROUTING'')}
       then [nat_rule rng TunnelDevice seed (snd (snd c))] else [])"
    by (rule firewall_host.firewall_up_ok [OF assms(1,2)]) blast
  moreover have "nat_mapped TunnelDevice seed" using assms(5) is4 by (simp add: nat_mapped_def)
  ultimately have rules: "tabs w' (ProtocolIPv4, ''nat'', ''PREROUTING'') = [prerouting_spec TunnelDevice (SeedPodNetworkMapped rng) seed]"
    "tabs w' (ProtocolIPv4, ''nat'', ''POSTROUTING'') = [postrouting_spec TunnelDevice seed (SeedPodNetworkMapped rng)]"
    using assms(3,4) by (simp_all add: nat_rule_def)
  obtain b where "net_contains m b" "translate ''-s'' [postrouting_spec TunnelDevice seed (SeedPodNetworkMapped rng)] a = b"
    "translate ''-d'' [prerouting_spec TunnelDevice (SeedPodNetworkMapped rng) seed] b = a"
    by (rule pair_translates [OF assms(5-9,12,13), of TunnelDevice]) blast
  moreover have "''up \"/bin/sh -c '' @ [CHR 0x27] @ ''/sbin/ip route replace '' @ SeedPodNetworkMapped rng @ '' dev $1'' @ [CHR 0x27] @ '' -- \"''
      \<in> set (client_lines (vpnConfig rng cfg mtu))"
    using assms(10,11) is4 by (simp add: client_lines_def vpnConfig_def Let_def)
  ultimately show ?thesis unfolding rules by (metis append_assoc)
qed

section \<open>Witnesses\<close>

lemma default_seed:
  "ParseIPNet ''100.96.0.0/11'' = Inr default_pods" "mask_size (net_mask default_pods) = (11, 32)"
  "ParseIPNet (SeedPodNetworkMapped default_ranges) = Inr (net8 241)" "mask_size (net_mask (net8 241)) = (8, 32)"
  "net_contains default_pods [100, 96, 0, 7]" "length ([100, 96, 0, 7] :: ip) = 4"
  by (simp_all add: ParseIPNet_def default_ranges_def default_pods_def net8_def net_contains_def network_number_and_mask_def
      mask_size_def net_eval)

definition default_path :: PathController where
  "default_path = \<lparr>path_IPFamilies = IPv4Family, path_VPNNetwork = vpn_nw, path_HAVPNClients = 2,
     path_ShootServiceNetworks = [default_services], path_ShootPodNetworks = [default_pods], path_ShootNodeNetworks = [],
     path_SeedPodNetwork = default_pods\<rparr>"

theorem seed_pod_translation_witness:
  "\<exists>w b. client_SetIPTableRules tables_os tables_ipt default_ranges sort_key (\<lambda>m. m) (\<lambda>m. m) 101 (default_client False True) (\<lambda>_. []) = (None, w) \<and>
     translate ''-s'' (w (ProtocolIPv4, ''nat'', ''POSTROUTING'')) [100, 96, 0, 7] = b \<and>
     path_pod_ip default_ranges default_path ''100.96.0.7'' = Inr (ip_string b)"
proof -
  obtain w where w: "client_SetIPTableRules tables_os tables_ipt default_ranges sort_key (\<lambda>m. m) (\<lambda>m. m) 101 (default_client False True) (\<lambda>_. []) = (None, w)"
    using runsD [OF default_rules_run(2)] by blast
  have client: "SeedPodNetwork (default_client False True) = default_pods" "\<not> IsShootClient (default_client False True)"
    "IPv4Family \<in> set (IPFamilies (default_client False True))"
    by (simp_all add: default_client_def)
  have "ip_string [100, 96, 0, 7] = ''100.96.0.7''" by (simp add: net_eval)
  then show ?thesis
    using seed_pod_translation [OF tables.iptables_laws_axioms default_client_config client(2) default_overlap client(3) w _ _ _ _
        default_seed(3,4) _ _ _ _ _ default_seed(6), of "''100.96.0.0/11''" 11 default_path] w default_seed client(1)
    by (auto simp: default_client_def default_path_def)
qed

theorem seed_pod_translation_up_witness:
  "\<exists>m b. runFirewallCommand machine_os machine_ipt machine_netlink default_ranges TunnelDevice ''up'' [''100.64.0.0/13''] ''100.96.0.0/11''
       tunnel_machine = (None, m) \<and>
     translate ''-s'' (mach_chains m (ProtocolIPv4, ''nat'', ''POSTROUTING'')) [100, 96, 0, 7] = b \<and> net_contains (net8 241) b"
proof -
  obtain m where m: "runFirewallCommand machine_os machine_ipt machine_netlink default_ranges TunnelDevice ''up'' [''100.64.0.0/13'']
      ''100.96.0.0/11'' tunnel_machine = (None, m)"
    using tunnel_up unfolding TunnelDevice_def by blast
  have "mach_chains tunnel_machine c = []" "SeedPodNetwork (default_client True False) = default_pods"
    "IsShootClient (default_client True False)" "\<not> IsHA (default_client True False)" for c
    by (simp_all add: tunnel_machine_def default_client_def)
  then show ?thesis
    using m seed_pod_translation_up [OF machine_rules.firewall_host_axioms m _ _ _ _ default_seed(3,4) _ _ _ default_seed(6),
        of "default_client True False" 11] default_seed by auto
qed

end
