(* ===== verification/Tunnel_Server.thy ===== *)
theory Tunnel_Server
  imports Tunnel_Proofs Commands_Proofs
begin

text \<open>
  The server of the tunnel controller with its watchdog: when no packets come in, the VPN clients
  beside it are told to restart, at the ports that their configurations give to OpenVPN.
\<close>

section \<open>Sockets\<close>

text \<open>The address and the text that the watchdog sends to the client of a number.\<close>

definition restart_signal :: "int \<Rightarrow> string \<times> string" where
  "restart_signal i = (''127.0.0.1:'' @ int_string (ManagementPort + i), ''signal SIGHUP'' @ newline)"

lemma restart_signal_nat:
  "restart_signal (int i) = (''127.0.0.1:'' @ dec_string (7505 + i), ''signal SIGHUP'' @ newline)"
  by (simp add: restart_signal_def ManagementPort_def int_string_def nat_add_distrib)

text \<open>
  What the package \<^verbatim>\<open>net\<close> promises: a connection goes to the address that was dialled, and what is
  written to it arrives there.
\<close>

locale socket_laws =
  fixes sk :: "'w sockets" and peer :: "'w \<Rightarrow> nat \<Rightarrow> string option" and sent :: "'w \<Rightarrow> (string \<times> string) list"
  assumes dial: "Dial sk net addr w = (Inr conn, w') \<Longrightarrow> peer w' conn = Some addr \<and> sent w' = sent w"
    and dial_failed: "Dial sk net addr w = (Inl e, w') \<Longrightarrow> sent w' = sent w"
    and writing: "Write sk conn text w = (None, w') \<Longrightarrow> peer w conn = Some a \<Longrightarrow> sent w' = sent w @ [(a, text)]"
    and write_failed: "Write sk conn text w = (Some e, w') \<Longrightarrow> sent w' = sent w"
    and closing: "sent (Close sk conn w) = sent w"
begin

lemma restart_clients_sent:
  "restart_clients sk is w = (r, w') \<Longrightarrow>
     \<exists>k \<le> length is. sent w' = sent w @ map restart_signal (take k is) \<and> (r = None \<longrightarrow> k = length is)"
proof (induction "is" arbitrary: w)
  case (Cons i rest)
  obtain x w1 where dialled: "Dial sk ''tcp'' (fst (restart_signal i)) w = (x, w1)" by fastforce
  show ?case
  proof (cases x)
    case (Inl e)
    then show ?thesis using Cons.prems dialled dial_failed by (auto simp: restart_signal_def)
  next
    case (Inr conn)
    obtain y w2 where wrote: "Write sk conn (snd (restart_signal i)) w1 = (y, w2)" by fastforce
    show ?thesis
    proof (cases y)
      case (Some e)
      then show ?thesis
        using Cons.prems dialled wrote Inr dial [of "''tcp''" _ w conn w1] write_failed closing by (auto simp: restart_signal_def)
    next
      case None
      then have "sent (Close sk conn w2) = sent w @ [restart_signal i]"
        using dialled wrote Inr dial writing closing by (simp add: restart_signal_def)
      moreover have "restart_clients sk rest (Close sk conn w2) = (r, w')"
        using Cons.prems dialled wrote Inr None by (simp add: restart_signal_def)
      ultimately obtain k where "k \<le> length rest" "sent w' = sent w @ restart_signal i # map restart_signal (take k rest)"
        "r = None \<longrightarrow> k = length rest"
        using Cons.IH by fastforce
      then show ?thesis by (intro exI [of _ "Suc k"]) auto
    qed
  qed
qed simp

end

section \<open>A host with wires\<close>

text \<open>A model of the contract: connections by their numbers, and what was sent over them.\<close>

record wires =
  conns :: "string list"
  wire_log :: "(string \<times> string) list"

definition wire_sockets :: "('h \<times> wires) sockets" where
  "wire_sockets = \<lparr>Dial = (\<lambda>net addr (h, x). (Inr (length (conns x)), (h, x\<lparr>conns := conns x @ [addr]\<rparr>))),
     Write = (\<lambda>conn text (h, x). (None, (h, if conn < length (conns x)
       then x\<lparr>wire_log := wire_log x @ [(conns x ! conn, text)]\<rparr> else x))),
     Close = (\<lambda>conn w. w), ListenUDP = (\<lambda>a port w. (Inr 0, w)), Pause = (\<lambda>d w. w)\<rparr>"

definition wire_peer :: "'h \<times> wires \<Rightarrow> nat \<Rightarrow> string option" where
  "wire_peer w conn = (if conn < length (conns (snd w)) then Some (conns (snd w) ! conn) else None)"

interpretation wire: socket_laws wire_sockets wire_peer "\<lambda>w. wire_log (snd w)"
  by unfold_locales (auto simp: wire_sockets_def wire_peer_def split: prod.splits if_splits)

definition on_fst :: "('h \<Rightarrow> 'r \<times> 'h) \<Rightarrow> 'h \<times> 'x \<Rightarrow> 'r \<times> ('h \<times> 'x)" where
  "on_fst f w = (let (r, h) = f (fst w) in (r, (h, snd w)))"

definition beside :: "'h netlink \<Rightarrow> ('h \<times> 'x) netlink" where
  "beside nl = \<lparr>LinkByName = (\<lambda>n. on_fst (LinkByName nl n)), LinkByIndex = (\<lambda>i. on_fst (LinkByIndex nl i)),
     LinkDel = (\<lambda>l. on_fst (LinkDel nl l)), LinkAdd = (\<lambda>l. on_fst (LinkAdd nl l)),
     LinkSetUp = (\<lambda>l. on_fst (LinkSetUp nl l)), LinkSetDown = (\<lambda>l. on_fst (LinkSetDown nl l)),
     LinkSetMTU = (\<lambda>l m. on_fst (LinkSetMTU nl l m)), LinkSetMaster = (\<lambda>l b. on_fst (LinkSetMaster nl l b)),
     AddrAdd = (\<lambda>l a. on_fst (AddrAdd nl l a)), AddrDel = (\<lambda>l a. on_fst (AddrDel nl l a)),
     AddrList = (\<lambda>l f. on_fst (AddrList nl l f)), RouteList = on_fst (RouteList nl),
     RouteReplace = (\<lambda>r. on_fst (RouteReplace nl r))\<rparr>"

section \<open>The loop of the server\<close>

fun serve_all ::
  "('w \<Rightarrow> int) \<Rightarrow> (go_error + ip \<times> string) list \<Rightarrow> 'w Server \<Rightarrow> 'w \<Rightarrow> ('w Server \<times> goroutine list \<times> 'w) option"
where
  "serve_all clk [] s w = Some (s, [], w)"
| "serve_all clk (p # ps) s w =
     (case serve clk p s w of
        None \<Rightarrow> None
      | Some (s1, gs1, w1) \<Rightarrow> map_option (\<lambda>(s2, gs2, w2). (s2, gs1 @ gs2, w2)) (serve_all clk ps s1 w1))"

lemma handle_packet_running:
  "handle_packet now l a pod c = (c', gs) \<Longrightarrow> running c' = running c"
  by (auto simp: handle_packet_def find_or_create_def Let_def split: option.splits if_splits prod.splits)

text \<open>For the watchdog a packet is a success and a failed read a failure.\<close>

lemma serve_event:
  assumes "isRunning (controller s)" and "record_event (isl p) (watchdog s) w = (e, wd, w')"
  shows "\<exists>s' gs. serve clk p s w = Some (s', gs, w') \<and> watchdog s' = wd \<and> isRunning (controller s') \<and>
    (isl p \<longrightarrow> gs = [] \<and> controller s' = controller s)"
  using assms
  by (cases p) (auto simp: serve_def Fail_def Succeed_def isRunning_def dest: handle_packet_running split: prod.splits)

lemma serve_all_feed:
  assumes "isRunning (controller s)" and "feed (map isl ps) (watchdog s, w) = (wd, w')"
  shows "\<exists>s' gs. serve_all clk ps s w = Some (s', gs, w') \<and> watchdog s' = wd \<and> isRunning (controller s')"
  using assms
proof (induction ps arbitrary: s w)
  case (Cons p ps)
  obtain e wd1 w1 where r: "record_event (isl p) (watchdog s) w = (e, wd1, w1)" by (metis prod_cases3)
  obtain s1 gs1 where s1: "serve clk p s w = Some (s1, gs1, w1)" "watchdog s1 = wd1" "isRunning (controller s1)"
    using serve_event [OF Cons.prems(1) r, of clk] by blast
  have "feed (map isl ps) (watchdog s1, w1) = (wd, w')"
    using Cons.prems(2) r s1(2) by (simp add: feed_event del: feed.simps)
  from Cons.IH [OF s1(3) this] s1(1) show ?case by auto
qed simp

lemma Run_start_ok:
  assumes "Run_start nl sk flagTypes c w = (Inr s, w')"
  shows "NewWatchdog (WatchdogWindowSize (config c)) (WatchdogThreshold (config c)) (WatchdogCooldown (config c))
      (watchdog_action sk (tun_HAVPNClients (config c))) = Inr (watchdog s)" and "isRunning (controller s)"
  using assms
  by (auto simp: Run_start_def isRunning_def setRunning_def split: prod.splits sum.splits list.splits if_splits)

lemma management_line:
  assumes "IsShootClient cfg" and "cv_ManagementPort (vpnConfig rng cfg mtu) = p"
  shows "''management 127.0.0.1 '' @ dec_string p \<in> set (client_lines (vpnConfig rng cfg mtu))"
proof -
  have "cv_IsShootClient (vpnConfig rng cfg mtu)" using assms(1) by (simp add: vpnConfig_def Let_def)
  then show ?thesis using assms(2) by (auto simp: client_lines_def)
qed

section \<open>Property\<close>

text \<open>
  C9: once the server has started, as long as fewer failures than the threshold are among the last
  reads of a window, it leaves the world alone; when a failed read makes them reach the threshold, it
  signals the VPN clients with the numbers from 0 in their order, all of them unless one cannot be
  reached, each at the port where the configuration written for that number makes OpenVPN listen.
\<close>

theorem server_restarts_clients:
  assumes "socket_laws sk peer sent" and "Run_start nl sk flagTypes c w0 = (Inr s, w1)"
    and "W = nat (WatchdogWindowSize (config c))" and "T = nat (WatchdogThreshold (config c))" and "n = nat (tun_HAVPNClients (config c))"
    and "\<forall>k \<le> length ps. failures_in_last W (map isl (take k ps)) < T" and "n \<le> 2 ^ 62"
  shows "\<exists>s1 gs s2 w' k. serve_all clk ps s w = Some (s1, gs, w) \<and> serve clk (Inl e) s1 w = Some (s2, [], w') \<and>
    (if T \<le> failures_in_last W (map isl ps @ [True])
     then sent w' = sent w @ map (\<lambda>i. (''127.0.0.1:'' @ dec_string (7505 + i), ''signal SIGHUP'' @ newline)) [0..<k] \<and> k \<le> n \<and>
       (fst (watchdog_action sk (tun_HAVPNClients (config c)) w) = None \<longrightarrow> k = n) \<and>
       (\<forall>i < n. \<forall>cfg mtu. VPNServerIndex cfg = dec_string i \<and> IsShootClient cfg \<longrightarrow>
          ''management 127.0.0.1 '' @ dec_string (7505 + i) \<in> set (client_lines (vpnConfig rng cfg mtu)))
     else w' = w)"
proof -
  let ?act = "watchdog_action sk (tun_HAVPNClients (config c))"
  note start = Run_start_ok [OF assms(2)]
  have quiet: "\<forall>k \<le> length (map isl ps). failures_in_last W (take k (map isl ps)) < T" using assms(6) by (simp add: take_map)
  obtain wd1 wd2 where first: "feed (map isl ps) (watchdog s, w) = (wd1, w)"
    "record_event True wd1 w = (if T \<le> failures_in_last W (map isl ps @ [True]) then (fst (?act w), wd2, snd (?act w)) else (None, wd2, w))"
    using watchdog_first_call [OF start(1) quiet [unfolded assms(3,4)], of w True] assms(3,4) by blast
  obtain s1 gs where s1: "serve_all clk ps s w = Some (s1, gs, w)" "watchdog s1 = wd1" "isRunning (controller s1)"
    using serve_all_feed [OF start(2) first(1), of clk] by blast
  let ?hit = "T \<le> failures_in_last W (map isl ps @ [True])"
  let ?w = "if ?hit then snd (?act w) else w"
  have rec: "record_event (isl (Inl e :: go_error + ip \<times> string)) (watchdog s1) w =
      (if ?hit then fst (?act w) else None, wd2, ?w)"
    using first(2) s1(2) by simp
  obtain s2 where s2: "serve clk (Inl e) s1 w = Some (s2, [], ?w)"
    using serve_event [OF s1(3) rec, of clk] by auto
  obtain k where k: "k \<le> n" "sent (snd (?act w)) = sent w @ map restart_signal (take k (map int [0..<n]))" "fst (?act w) = None \<longrightarrow> k = n"
    using socket_laws.restart_clients_sent [OF assms(1), of "map int [0..<n]" w "fst (?act w)" "snd (?act w)"]
    by (auto simp: watchdog_action_def assms(5))
  have "map restart_signal (take k (map int [0..<n])) = map (\<lambda>i. (''127.0.0.1:'' @ dec_string (7505 + i), ''signal SIGHUP'' @ newline)) [0..<k]"
    using k(1) by (simp add: take_map restart_signal_nat)
  with k(2) have sent: "sent (snd (?act w)) = sent w @ map (\<lambda>i. (''127.0.0.1:'' @ dec_string (7505 + i), ''signal SIGHUP'' @ newline)) [0..<k]"
    by simp
  have "''management 127.0.0.1 '' @ dec_string (7505 + i) \<in> set (client_lines (vpnConfig rng cfg mtu))"
    if "i < n" "VPNServerIndex cfg = dec_string i" "IsShootClient cfg" for i cfg mtu
    using that assms(7) vpnConfig_tap(2) [OF that(2), of rng mtu] by (intro management_line) auto
  with sent k show ?thesis
    by (intro exI [of _ s1] exI [of _ gs] exI [of _ s2] exI [of _ ?w] exI [of _ k]) (simp add: s1(1) s2)
qed

section \<open>Witness\<close>

text \<open>A host whose bonding device has an address, and no connections.\<close>

definition bonded_host :: host where
  "bonded_host = example_host\<lparr>devices := [Device \<lparr>Index = 1, LinkName = BondDevice, MTU = 1500\<rparr>],
     host_addresses := (\<lambda>n. if n = BondDevice
       then [\<lparr>AddrNet = \<lparr>net_ip = replicate 15 0 @ [1], net_mask = mask_bytes 16 64\<rparr>, Flags = 0, Scope = ScopeUniverse\<rparr>] else [])\<rparr>"

definition no_wires :: wires where "no_wires = \<lparr>conns = [], wire_log = []\<rparr>"

lemma bonded_start:
  "\<exists>s w. Run_start (beside host_netlink) wire_sockets [] (NewController DefaultTunnelControllerConfig 0) (bonded_host, no_wires) = (Inr s, w)"
proof -
  have "GetLinkIPAddressesByName (beside host_netlink) BondDevice ScopeUniverse (bonded_host, no_wires) =
      (Inr [replicate 15 0 @ [1]], (bonded_host, no_wires))"
    by (simp add: GetLinkIPAddressesByName_def getLinkIPAddresses_def beside_def on_fst_def host_netlink_def host_link_def
        name_of_def in_family_def familyAll_def bonded_host_def example_host_def)
  then show ?thesis
    by (simp add: Run_start_def NewController_def DefaultTunnelControllerConfig_def NewWatchdog_def retriesToListen_def
        wire_sockets_def numeral_eq_Suc)
qed

text \<open>Ten failed reads, with the default threshold, restart both clients.\<close>

theorem server_restarts_clients_witness:
  "\<exists>s s1 gs s2 w'. serve_all (\<lambda>_. 0) (replicate 9 (Inl (Foreign ''timeout''))) s (bonded_host, no_wires) = Some (s1, gs, (bonded_host, no_wires)) \<and>
     serve (\<lambda>_. 0) (Inl (Foreign ''timeout'')) s1 (bonded_host, no_wires) = Some (s2, [], w') \<and>
     wire_log (snd w') = [(''127.0.0.1:7505'', ''signal SIGHUP'' @ newline), (''127.0.0.1:7506'', ''signal SIGHUP'' @ newline)]"
proof -
  let ?ps = "replicate 9 (Inl (Foreign ''timeout'')) :: (go_error + ip \<times> string) list"
  let ?w = "(bonded_host, no_wires)"
  obtain s w1 where start: "Run_start (beside host_netlink) wire_sockets [] (NewController DefaultTunnelControllerConfig 0) ?w = (Inr s, w1)"
    using bonded_start by blast
  have few: "\<forall>k \<le> length ?ps. failures_in_last 20 (map isl (take k ?ps)) < 10"
    by (simp add: failures_in_last_def map_replicate)
  have many: "10 \<le> failures_in_last 20 (map isl ?ps @ [True])"
    by (simp add: failures_in_last_def map_replicate)
  have all: "fst (watchdog_action wire_sockets 2 ?w) = None"
    by (simp add: watchdog_action_def wire_sockets_def numeral_eq_Suc split: prod.splits)
  have cfg: "nat (WatchdogWindowSize (config (NewController DefaultTunnelControllerConfig 0))) = 20"
    "nat (WatchdogThreshold (config (NewController DefaultTunnelControllerConfig 0))) = 10"
    "tun_HAVPNClients (config (NewController DefaultTunnelControllerConfig 0)) = 2"
    by (simp_all add: NewController_def DefaultTunnelControllerConfig_def)
  obtain s1 gs s2 w' k where run: "serve_all (\<lambda>_. 0) ?ps s ?w = Some (s1, gs, ?w)"
    "serve (\<lambda>_. 0) (Inl (Foreign ''timeout'')) s1 ?w = Some (s2, [], w')"
    and log: "wire_log (snd w') = wire_log (snd ?w) @ map (\<lambda>i. (''127.0.0.1:'' @ dec_string (7505 + i), ''signal SIGHUP'' @ newline)) [0..<k]"
    and k: "k = 2"
    using server_restarts_clients [OF wire.socket_laws_axioms start cfg(1,2) [symmetric] refl, of ?ps "\<lambda>_. 0" ?w "Foreign ''timeout''" default_ranges]
      few many all unfolding cfg by fastforce
  have "map (\<lambda>i. (''127.0.0.1:'' @ dec_string (7505 + i), ''signal SIGHUP'' @ newline)) [0..<2] =
      [(''127.0.0.1:7505'', ''signal SIGHUP'' @ newline), (''127.0.0.1:7506'', ''signal SIGHUP'' @ newline)]"
    by (simp add: upt_rec net_eval)
  then show ?thesis
    using run log k by (intro exI [of _ s] exI [of _ s1] exI [of _ gs] exI [of _ s2] exI [of _ w']) (simp add: no_wires_def)
qed

end
