(* ===== verification/Client_Start.thy ===== *)
theory Client_Start
  imports Commands_Proofs Client_Setup_Proofs
begin

text \<open>
  The init container of a client: what its \<^verbatim>\<open>setup\<close> command leaves behind.
\<close>

section \<open>Property\<close>

text \<open>
  Once the \<^verbatim>\<open>setup\<close> command of a client has succeeded, its configuration was valid and the kernel
  was set so that no packet is dropped by reverse path filtering, that a shoot client forwards IPv4 and
  IPv6, and that a seed client has IPv6; a highly available client then has its bonding device with
  all tap devices of the servers in it, and its address: that of its index for a shoot client, one from
  the pool for a seed client.
\<close>

theorem client_setup_ready:
  assumes "netlink_laws nl kern" and "sysctl_laws ctl settings"
    and "vpn_client_setup rt nl ctl k defaultNet parsed w = (None, w')"
  shows "\<exists>cfg u. GetVPNClientConfig defaultNet parsed = Inr cfg \<and>
    settings u ''net.ipv4.conf.all.rp_filter'' = Some ''0'' \<and> settings u ''net.ipv4.conf.default.rp_filter'' = Some ''0'' \<and>
    (IsShootClient cfg \<longrightarrow> settings u ''net.ipv4.ip_forward'' = Some ''1'' \<and> settings u ''net.ipv6.conf.all.forwarding'' = Some ''1'') \<and>
    (\<not> IsShootClient cfg \<longrightarrow> (\<exists>s v. settings u ''net.ipv6.conf.all.disable_ipv6'' = Some s \<and> Atoi s = Some v \<and> v \<noteq> 1)) \<and>
    (if IsHA cfg
     then \<exists>addr mtu. bonded cfg addr mtu (kern w') \<and> (AutoMTU cfg \<longrightarrow> 1280 \<le> mtu) \<and> (\<not> AutoMTU cfg \<longrightarrow> mtu = 0) \<and>
       (IsShootClient cfg \<longrightarrow> BondingShootClientAddress (VPNNetwork cfg) (VPNClientIndex cfg) = Inr addr) \<and>
       (\<not> IsShootClient cfg \<longrightarrow> (\<exists>v m broker b v1 v2 s a.
          NewPodIPPoolManager k (Namespace cfg) (PodLabelSelector cfg) v = (Inr m, v1) \<and> NewIPAddressBroker m cfg = Inr broker \<and>
          AcquireIP rt broker v1 = (Inr s, b, v2) \<and> parse_ip s = Some a \<and> addr = BondingAddressForClient a))
     else w' = u)"
proof -
  from assms(3) obtain cfg u where cfg: "GetVPNClientConfig defaultNet parsed = Inr cfg" and kernel: "KernelSettings ctl cfg w = (None, u)"
    and bond: "if IsHA cfg then ConfigureBonding rt nl k cfg u = (None, w') else w' = u"
    by (auto simp: vpn_client_setup_def effect_ok skip_ok split: sum.splits if_splits)
  note settings = KernelSettings_ok [OF assms(2) kernel]
  show ?thesis
  proof (cases "IsHA cfg")
    case True
    then show ?thesis using cfg settings bond ConfigureBonding_bonds [OF assms(1), of rt k cfg u w'] by auto
  next
    case False
    then show ?thesis using cfg settings bond by auto
  qed
qed

section \<open>Witness\<close>

definition machine_runtime :: "machine Runtime" where
  "machine_runtime = \<lparr>rand_N = (\<lambda>n m. (0, m)), Sleep = (\<lambda>_ m. m)\<rparr>"

lemma set_all_host: "set_all machine_sysctl kvs m = (None, m') \<Longrightarrow> mach_host m' = mach_host m"
  unfolding set_all_def by (rule each_keeps [rotated]) (auto simp: machine_sysctl_def)

lemma shoot_kernel:
  "\<exists>m'. KernelSettings machine_sysctl (default_client True True) m = (None, m') \<and> mach_host m' = mach_host m"
proof -
  have "runs (KernelSettings machine_sysctl (default_client True True))"
    unfolding KernelSettings_def DisableMartianLogging_def DisableRpFilter_def BufferSettings_def ConntrackSettings_def EnableIPForwarding_def
    by (simp add: default_client_def) (intro runs_intro set_all_runs)
  from runsD [OF this] obtain m' where "KernelSettings machine_sysctl (default_client True True) m = (None, m')" by blast
  moreover from this have "mach_host m' = mach_host m"
    by (auto simp: KernelSettings_def DisableMartianLogging_def DisableRpFilter_def BufferSettings_def ConntrackSettings_def
        EnableIPForwarding_def default_client_def effect_ok dest!: set_all_host)
  ultimately show ?thesis by blast
qed

lemma shoot_bonding:
  assumes "mach_host m = mach_host bare_machine"
  shows "\<exists>m'. ConfigureBonding machine_runtime machine_netlink no_cluster (default_client True True) m = (None, m')"
proof -
  let ?c = "default_client True True"
  obtain addr where a: "bonding_address machine_runtime no_cluster ?c m = (Inr addr, m)"
    by (simp add: bonding_address_def default_client_def BondingShootClientAddress_def BondingShootClientIP_def result_simps
        vpn_nw_def to16_def CIDR_ToIPNet_def)
  have c: "tunnel_mtu machine_netlink ?c m = (Inr 0, m)" "HAVPNServers ?c = Suc (Suc 0)" "IsShootClient ?c"
    "BondingModeName ?c = BondingModeActiveBackup"
    by (simp_all add: tunnel_mtu_def default_client_def)
  show ?thesis
    unfolding ConfigureBonding_def with_result_def c(1) a prod.case sum.case
    using assms
    by (simp add: c(2-4) with_result_def bond_options_def configure_bond_def create_tap_def enslave_def DeleteLinkByName_def
        and_then_def wrapping_def skip_def Let_def machine_netlink_def on_host_def host_netlink_def host_link_def bare_machine_def name_of_def NewLinkAttrs_def
        tap_name_def TapDevice_def BondDevice_def dec_string_less digit_char_def)
qed

lemma default_setup_runs:
  "\<exists>m. vpn_client_setup machine_runtime machine_netlink machine_sysctl no_cluster vpn_nw
      (Inr (default_client True True)) bare_machine = (None, m)"
proof -
  let ?c = "default_client True True"
  obtain u where u: "KernelSettings machine_sysctl ?c bare_machine = (None, u)" "mach_host u = mach_host bare_machine"
    using shoot_kernel by blast
  obtain m where m: "ConfigureBonding machine_runtime machine_netlink no_cluster ?c u = (None, m)"
    using shoot_bonding [OF u(2)] by blast
  have "IsHA ?c" by (simp add: default_client_def)
  with u(1) m show ?thesis by (simp add: vpn_client_setup_def default_client_config and_then_def)
qed

end
