(* ===== verification/Cobra.thy ===== *)
theory Cobra
  imports Net_Types
begin

text \<open>
  The library \<^verbatim>\<open>cobra\<close> as the programs use it: commands with their flags and subcommands, as the code
  declares them, and what the documentation of the library promises of the arguments of a process.
  How the library reads the arguments is a parameter, \<open>dispatch\<close>.
\<close>

section \<open>Commands\<close>

text \<open>The kinds of flags, with a value: its default, and later the value that was given.\<close>

datatype flag_value =
    String (string_value: string)
  | Strings (strings_value: "string list")
  | Bool (bool_value: bool)

record flag =
  flag_name :: string
  flag_default :: flag_value
  flag_usage :: string

datatype args = NoArgs | ArbitraryArgs

text \<open>
  A command whose \<^verbatim>\<open>RunE\<close> reads the values of the flags by their names; \<^verbatim>\<open>MarkFlagsRequiredTogether\<close> adds a
  group of flags of which all or none must be given.
\<close>

datatype 'r command =
  Command (Use: string) (Short: string) (Args: args) (LocalFlags: "flag list") (PersistentFlags: "flag list")
    (RequiredTogether: "string list list") (RunE: "(string \<Rightarrow> flag_value) \<Rightarrow> 'r") (Subcommands: "'r command list")

text \<open>The flags that a subcommand of a command has.\<close>

definition known_flags :: "'r command \<Rightarrow> 'r command \<Rightarrow> flag list" where
  "known_flags root c = LocalFlags c @ PersistentFlags c @ PersistentFlags root"

section \<open>Arguments\<close>

text \<open>
  Arguments that give values to flags, each in two words or in one, and the values; a flag of type
  boolean is set by its name.
\<close>

inductive flag_words :: "flag list \<Rightarrow> string list \<Rightarrow> (string \<times> string) list \<Rightarrow> bool" for fs where
  no_words: "flag_words fs [] []"
| two_words: "f \<in> set fs \<Longrightarrow> \<not> is_Bool (flag_default f) \<Longrightarrow> flag_words fs ws given \<Longrightarrow>
    flag_words fs ((''--'' @ flag_name f) # v # ws) ((flag_name f, v) # given)"
| one_word: "f \<in> set fs \<Longrightarrow> \<not> is_Bool (flag_default f) \<Longrightarrow> flag_words fs ws given \<Longrightarrow>
    flag_words fs ((''--'' @ flag_name f @ ''='' @ v) # ws) ((flag_name f, v) # given)"
| bool_word: "f \<in> set fs \<Longrightarrow> is_Bool (flag_default f) \<Longrightarrow> flag_words fs ws given \<Longrightarrow>
    flag_words fs ((''--'' @ flag_name f) # ws) ((flag_name f, ''true'') # given)"

text \<open>Arguments that are no flags.\<close>

definition positional :: "string \<Rightarrow> bool" where
  "positional a \<longleftrightarrow> \<not> has_prefix a ''-''"

text \<open>What a value is read as, for a flag with a default of its kind: a list is given by its elements with commas.\<close>

fun flag_read :: "flag_value \<Rightarrow> string \<Rightarrow> flag_value" where
  "flag_read (String _) v = String v"
| "flag_read (Strings _) v = Strings (if v = [] then [] else split_on (CHR '','') v)"
| "flag_read (Bool _) v = Bool (v = ''true'')"

definition flag_values :: "flag list \<Rightarrow> (string \<times> string) list \<Rightarrow> string \<Rightarrow> flag_value" where
  "flag_values fs given name =
     (case find (\<lambda>f. flag_name f = name) fs of
        None \<Rightarrow> String []
      | Some f \<Rightarrow>
          (case map_of given name of
             None \<Rightarrow> flag_default f
           | Some v \<Rightarrow> flag_read (flag_default f) v))"

text \<open>Values that are read as they are: without quotation marks and ends of lines.\<close>

definition unquoted :: "string \<Rightarrow> bool" where
  "unquoted v \<longleftrightarrow> CHR 0x22 \<notin> set v \<and> CHR 0x0A \<notin> set v \<and> CHR 0x0D \<notin> set v"

definition all_or_none :: "string list \<Rightarrow> string list \<Rightarrow> bool" where
  "all_or_none names g \<longleftrightarrow> list_all (\<lambda>f. f \<in> set names) g \<or> list_all (\<lambda>f. f \<notin> set names) g"

text \<open>Arguments for flags that the library accepts: no flag twice, and from each group all or none.\<close>

definition accepted :: "'r command \<Rightarrow> flag list \<Rightarrow> string list \<Rightarrow> (string \<times> string) list \<Rightarrow> bool" where
  "accepted c fs ws given \<longleftrightarrow> flag_words fs ws given \<and> distinct (map fst given) \<and> (\<forall>(_, v) \<in> set given. unquoted v) \<and>
     list_all (all_or_none (map fst given)) (RequiredTogether c)"

text \<open>Commands and flags that can be told apart by their names.\<close>

definition flags_apart :: "flag list \<Rightarrow> bool" where
  "flags_apart fs \<longleftrightarrow> distinct (map flag_name fs) \<and> (\<forall>f \<in> set fs. CHR ''='' \<notin> set (flag_name f))"

definition commands_apart :: "'r command \<Rightarrow> bool" where
  "commands_apart c \<longleftrightarrow> distinct (map Use (Subcommands c)) \<and> list_all positional (map Use (Subcommands c))"

section \<open>The contract\<close>

text \<open>
  Arguments for its flags run the command itself with the values given; the name of a subcommand, and
  arguments for its flags, run that one.  Other arguments may follow if the command takes them, and
  arguments that give some flags of a group and not all are refused.
\<close>

locale cobra =
  fixes dispatch :: "'r command \<Rightarrow> string list \<Rightarrow> go_error + 'r"
  assumes root_command: "commands_apart c \<Longrightarrow> flags_apart (LocalFlags c @ PersistentFlags c) \<Longrightarrow>
      accepted c (LocalFlags c @ PersistentFlags c) ws given \<Longrightarrow>
      dispatch c ws = Inr (RunE c (flag_values (LocalFlags c @ PersistentFlags c) given))"
    and subcommand: "sub \<in> set (Subcommands c) \<Longrightarrow> Subcommands sub = [] \<Longrightarrow> commands_apart c \<Longrightarrow>
      flags_apart (known_flags c sub) \<Longrightarrow> accepted sub (known_flags c sub) ws given \<Longrightarrow>
      list_all positional rest \<Longrightarrow> rest = [] \<or> Args sub = ArbitraryArgs \<Longrightarrow>
      dispatch c (Use sub # ws @ rest) = Inr (RunE sub (flag_values (known_flags c sub) given))"
    and no_more_arguments: "sub \<in> set (Subcommands c) \<Longrightarrow> Subcommands sub = [] \<Longrightarrow> commands_apart c \<Longrightarrow>
      flags_apart (known_flags c sub) \<Longrightarrow> flag_words (known_flags c sub) ws given \<Longrightarrow>
      list_all positional rest \<Longrightarrow> rest \<noteq> [] \<Longrightarrow> Args sub = NoArgs \<Longrightarrow> \<exists>e. dispatch c (Use sub # ws @ rest) = Inl e"
    and incomplete_group: "sub \<in> set (Subcommands c) \<Longrightarrow> Subcommands sub = [] \<Longrightarrow> commands_apart c \<Longrightarrow>
      flags_apart (known_flags c sub) \<Longrightarrow> flag_words (known_flags c sub) ws given \<Longrightarrow> list_all positional rest \<Longrightarrow>
      \<not> list_all (all_or_none (map fst given)) (RequiredTogether sub) \<Longrightarrow>
      \<exists>e. dispatch c (Use sub # ws @ rest) = Inl e"

section \<open>A reader of arguments\<close>

text \<open>A reader that fulfils the contract: the words one after the other.\<close>

fun read_words :: "flag list \<Rightarrow> string list \<Rightarrow> ((string \<times> string) list \<times> string list) option" where
  "read_words fs [] = Some ([], [])"
| "read_words fs (w # ws) =
     (case find (\<lambda>f. \<not> is_Bool (flag_default f) \<and> has_prefix w (''--'' @ flag_name f @ ''='')) fs of
        Some f \<Rightarrow> map_option (apfst ((#) (flag_name f, drop (Suc (Suc (length (flag_name f) + 1))) w))) (read_words fs ws)
      | None \<Rightarrow>
          (case find (\<lambda>f. w = ''--'' @ flag_name f) fs of
             Some f \<Rightarrow>
               if is_Bool (flag_default f) then map_option (apfst ((#) (flag_name f, ''true''))) (read_words fs ws)
               else (case ws of
                       [] \<Rightarrow> None
                     | v # ws' \<Rightarrow> map_option (apfst ((#) (flag_name f, v))) (read_words fs ws'))
           | None \<Rightarrow> if positional w then map_option (apsnd ((#) w)) (read_words fs ws) else None))"

definition run_with :: "'r command \<Rightarrow> flag list \<Rightarrow> string list \<Rightarrow> go_error + 'r" where
  "run_with c fs ws =
     (case read_words fs ws of
        None \<Rightarrow> Inl (Foreign ''unknown flag'')
      | Some (given, rest) \<Rightarrow>
          if Args c = NoArgs \<and> rest \<noteq> [] then Inl (Foreign ''unknown command'')
          else if list_all (all_or_none (map fst given)) (RequiredTogether c)
          then Inr (RunE c (flag_values fs given)) else Inl (Foreign ''missing flags''))"

definition word_dispatch :: "'r command \<Rightarrow> string list \<Rightarrow> go_error + 'r" where
  "word_dispatch c ws =
     (case ws of
        [] \<Rightarrow> run_with c (LocalFlags c @ PersistentFlags c) []
      | w # ws' \<Rightarrow>
          (case find (\<lambda>sub. Use sub = w) (Subcommands c) of
             None \<Rightarrow> run_with c (LocalFlags c @ PersistentFlags c) ws
           | Some sub \<Rightarrow> run_with sub (known_flags c sub) ws'))"

lemma find_unique:
  assumes "x \<in> set xs" and "P x" and "\<And>y. y \<in> set xs \<Longrightarrow> P y \<Longrightarrow> y = x"
  shows "find P xs = Some x"
proof (cases "find P xs")
  case None
  then show ?thesis using assms(1,2) by (simp add: find_None_iff)
next
  case (Some y)
  then have "y \<in> set xs" "P y" by (auto simp: find_Some_iff)
  with Some assms(3) show ?thesis by simp
qed

lemma find_none: "(\<And>y. y \<in> set xs \<Longrightarrow> \<not> P y) \<Longrightarrow> find P xs = None"
  by (induction xs) auto

lemma find_distinct: "x \<in> set xs \<Longrightarrow> distinct (map f xs) \<Longrightarrow> find (\<lambda>y. f y = f x) xs = Some x"
  by (rule find_unique) (auto simp: distinct_map dest: inj_onD)

lemma name_before_equals:
  assumes "a @ CHR ''='' # s = b @ CHR ''='' # t" and "CHR ''='' \<notin> set a" and "CHR ''='' \<notin> set b"
  shows "a = b"
  using arg_cong [OF assms(1), of "\<lambda>s. hd (split_on CHR ''='' s)"] assms(2,3) by (simp add: split_on_append)

lemma has_prefix_iff: "has_prefix s p \<longleftrightarrow> (\<exists>t. s = p @ t)"
  by (auto simp: has_prefix_def) (metis append_take_drop_id)

lemma name_equals_none:
  assumes "flags_apart fs" and "CHR ''='' \<notin> set w"
  shows "find (\<lambda>g. \<not> is_Bool (flag_default g) \<and> has_prefix w (''--'' @ flag_name g @ ''='')) fs = None"
  using assms by (intro find_none) (auto simp: has_prefix_iff)

lemma find_flag:
  assumes "flags_apart fs" and "f \<in> set fs"
  shows "find (\<lambda>g. ''--'' @ flag_name f = ''--'' @ flag_name g) fs = Some f"
  using assms by (intro find_unique) (auto simp: flags_apart_def distinct_map dest: inj_onD)

lemma flag_name_apart: "flags_apart fs \<Longrightarrow> f \<in> set fs \<Longrightarrow> CHR ''='' \<notin> set (''--'' @ flag_name f)"
  by (simp add: flags_apart_def)

lemma read_positional:
  "list_all positional rest \<Longrightarrow> read_words fs rest = Some ([], rest)"
proof (induction rest)
  case (Cons w ws)
  have "\<not> has_prefix w (''-'' @ p)" for p
    using Cons.prems by (auto simp: positional_def has_prefix_iff)
  then have "find (\<lambda>f. \<not> is_Bool (flag_default f) \<and> has_prefix w (''--'' @ flag_name f @ ''='')) fs = None"
    "find (\<lambda>f. w = ''--'' @ flag_name f) fs = None"
    by (intro find_none; fastforce simp: has_prefix_iff)+
  then show ?case using Cons by simp
qed simp

lemma read_flag_words:
  assumes "flags_apart fs" and "list_all positional rest" and "flag_words fs ws given"
  shows "read_words fs (ws @ rest) = Some (given, rest)"
  using assms(3)
proof (induction rule: flag_words.induct)
  case no_words
  then show ?case using read_positional [OF assms(2)] by simp
next
  case (two_words f ws given v)
  then show ?case
    using name_equals_none [OF assms(1) flag_name_apart [OF assms(1) two_words(1)]] find_flag [OF assms(1) two_words(1)] by simp
next
  case (one_word f ws given v)
  have "flag_name g = flag_name f" if "g \<in> set fs" "has_prefix (''--'' @ flag_name f @ ''='' @ v) (''--'' @ flag_name g @ ''='')" for g
    using that assms(1) one_word(1) by (auto simp: has_prefix_iff flags_apart_def dest: name_before_equals)
  then have "find (\<lambda>g. \<not> is_Bool (flag_default g) \<and> has_prefix (''--'' @ flag_name f @ ''='' @ v) (''--'' @ flag_name g @ ''='')) fs = Some f"
    using one_word(1,2) assms(1) by (intro find_unique) (auto simp: has_prefix_iff flags_apart_def distinct_map dest: inj_onD)
  then show ?case using one_word.IH by simp
next
  case (bool_word f ws given)
  then show ?case
    using name_equals_none [OF assms(1) flag_name_apart [OF assms(1) bool_word(1)]] find_flag [OF assms(1) bool_word(1)] by simp
qed

inductive_cases flag_words_ConsE: "flag_words fs (w # ws) given"

lemma dispatch_subcommand:
  assumes "sub \<in> set (Subcommands c)" and "commands_apart c"
  shows "word_dispatch c (Use sub # ws) = run_with sub (known_flags c sub) ws"
proof -
  have "find (\<lambda>s. Use s = Use sub) (Subcommands c) = Some sub"
    using assms by (intro find_unique) (auto simp: commands_apart_def distinct_map dest: inj_onD)
  then show ?thesis by (simp add: word_dispatch_def)
qed

lemma dispatch_root:
  assumes "commands_apart c" and "flag_words fs ws given"
  shows "word_dispatch c ws = run_with c (LocalFlags c @ PersistentFlags c) ws"
proof (cases ws)
  case (Cons w ws')
  then have "\<not> positional w"
    using assms(2) unfolding Cons by (elim flag_words_ConsE) (auto simp: positional_def has_prefix_iff)
  then have "find (\<lambda>s. Use s = w) (Subcommands c) = None"
    using assms(1) by (intro find_none) (auto simp: commands_apart_def list_all_iff)
  then show ?thesis by (simp add: word_dispatch_def Cons)
qed (simp add: word_dispatch_def)

lemma run_accepted:
  assumes "flags_apart fs" and "accepted c fs ws given" and "list_all positional rest" and "rest = [] \<or> Args c = ArbitraryArgs"
  shows "run_with c fs (ws @ rest) = Inr (RunE c (flag_values fs given))"
  using read_flag_words [OF assms(1,3)] assms(2,4) by (auto simp: run_with_def accepted_def)

interpretation words: cobra word_dispatch
proof
  fix c :: "'r command" and ws given
  assume "commands_apart c" "flags_apart (LocalFlags c @ PersistentFlags c)" "accepted c (LocalFlags c @ PersistentFlags c) ws given"
  then show "word_dispatch c ws = Inr (RunE c (flag_values (LocalFlags c @ PersistentFlags c) given))"
    using run_accepted [of "LocalFlags c @ PersistentFlags c" c ws given "[]"] by (auto simp: accepted_def dispatch_root)
next
  fix sub c :: "'r command" and ws given rest
  assume "sub \<in> set (Subcommands c)" "commands_apart c" "flags_apart (known_flags c sub)"
    "accepted sub (known_flags c sub) ws given" "list_all positional rest" "rest = [] \<or> Args sub = ArbitraryArgs"
  then show "word_dispatch c (Use sub # ws @ rest) = Inr (RunE sub (flag_values (known_flags c sub) given))"
    by (simp add: dispatch_subcommand run_accepted)
next
  fix sub c :: "'r command" and ws given rest
  assume "sub \<in> set (Subcommands c)" "commands_apart c" "flags_apart (known_flags c sub)"
    "flag_words (known_flags c sub) ws given" "list_all positional rest" "rest \<noteq> []" "Args sub = NoArgs"
  then show "\<exists>e. word_dispatch c (Use sub # ws @ rest) = Inl e"
    by (simp add: dispatch_subcommand run_with_def read_flag_words)
next
  fix sub c :: "'r command" and ws given rest
  assume "sub \<in> set (Subcommands c)" "commands_apart c" "flags_apart (known_flags c sub)"
    "flag_words (known_flags c sub) ws given" "list_all positional rest"
    "\<not> list_all (all_or_none (map fst given)) (RequiredTogether sub)"
  then show "\<exists>e. word_dispatch c (Use sub # ws @ rest) = Inl e"
    by (simp add: dispatch_subcommand run_with_def read_flag_words)
qed

end
