(* ===== verification/Command_Line.thy ===== *)
theory Command_Line
  imports Cobra Commands Exporter Path_Controller
begin

text \<open>
  The two programs: \<^verbatim>\<open>main\<close> and the commands they declare (\<^verbatim>\<open>cmd/vpn_server\<close>, \<^verbatim>\<open>cmd/vpn_client\<close>), the
  initialisation of a run (\<^verbatim>\<open>pkg/utils/initrun.go\<close>), and the profiling server (\<^verbatim>\<open>pkg/pprof\<close>).
\<close>

section \<open>Start of a run\<close>

text \<open>
  The libraries: the version flag and what it does (the process ends with a status when the version was
  asked for), the loggers, the two fields of the command that keep \<^verbatim>\<open>cobra\<close> from printing, the HTTP server
  of the profiling and readiness endpoints, the start of a goroutine, waiting for the end of the context, and printing.
\<close>

record 'w startup =
  VersionFlags :: "flag list"
  PrintAndExitIfRequested :: "'w \<Rightarrow> nat option \<times> 'w"
  NewZapLogger :: "string \<Rightarrow> string \<Rightarrow> 'w \<Rightarrow> (go_error + nat) \<times> 'w"
  SetLogger :: "nat \<Rightarrow> 'w \<Rightarrow> 'w"
  SetKlogLogger :: "nat \<Rightarrow> 'w \<Rightarrow> 'w"
  LogInfo :: "nat \<Rightarrow> string \<Rightarrow> 'w \<Rightarrow> 'w"
  LogError :: "nat \<Rightarrow> go_error \<Rightarrow> string \<Rightarrow> 'w \<Rightarrow> 'w"
  SilenceUsage :: "'w \<Rightarrow> 'w"
  SilenceErrors :: "'w \<Rightarrow> 'w"
  ListenHTTP :: "string \<Rightarrow> 'w \<Rightarrow> go_error \<times> 'w"
  ShutdownHTTP :: "string \<Rightarrow> 'w \<Rightarrow> go_error option \<times> 'w"
  IsServerClosed :: "go_error \<Rightarrow> bool"
  Go :: "('w \<Rightarrow> 'w) \<Rightarrow> 'w \<Rightarrow> 'w"
  AwaitDone :: "'w \<Rightarrow> 'w"
  Println :: "go_error \<Rightarrow> 'w \<Rightarrow> 'w"

definition InitRun :: "'w startup \<Rightarrow> string \<Rightarrow> 'w \<Rightarrow> (exit + nat) \<times> 'w" where
  "InitRun st name w =
     (case PrintAndExitIfRequested st w of
        (Some code, w1) \<Rightarrow> (Inl (Exit code), w1)
      | (None, w1) \<Rightarrow>
          (case NewZapLogger st ''info'' ''text'' w1 of
             (Inl e, w2) \<Rightarrow> (Inl (Failed (Wrapf ''error instantiating zap logger: %w'' [] e)), w2)
           | (Inr log, w2) \<Rightarrow>
               (let w3 = SetKlogLogger st log (SetLogger st log w2);
                    w4 = LogInfo st log (''Starting '' @ name) w3
                in (Inr log, SilenceErrors st (SilenceUsage st w4)))))"

text \<open>The body of every \<^verbatim>\<open>RunE\<close>: the initialisation and then the run.\<close>

definition started :: "'w startup \<Rightarrow> string \<Rightarrow> (nat \<Rightarrow> 'w \<Rightarrow> exit option \<times> 'w) \<Rightarrow> 'w \<Rightarrow> exit option \<times> 'w" where
  "started st name body w =
     (case InitRun st name w of
        (Inl x, w1) \<Rightarrow> (Some x, w1)
      | (Inr log, w1) \<Rightarrow> body log w1)"

text \<open>
  How a run ends: with or without an error, or with \<^verbatim>\<open>os.Exit\<close>; \<^term>\<open>None\<close> stands for a run that has
  entered its endless loop.
\<close>

definition ends :: "(go_error, 'w) effect \<Rightarrow> 'w \<Rightarrow> exit option \<times> 'w" where
  "ends f w = (case f w of (None, w1) \<Rightarrow> (Some Done, w1) | (Some e, w1) \<Rightarrow> (Some (Failed e), w1))"

definition exits :: "('w \<Rightarrow> exit \<times> 'w) \<Rightarrow> 'w \<Rightarrow> exit option \<times> 'w" where
  "exits f w = (let (x, w1) = f w in (Some x, w1))"

definition loops :: "('w \<Rightarrow> (go_error + 's) \<times> 'w) \<Rightarrow> 'w \<Rightarrow> exit option \<times> 'w" where
  "loops f w = (case f w of (Inl e, w1) \<Rightarrow> (Some (Failed e), w1) | (Inr _, w1) \<Rightarrow> (None, w1))"

text \<open>
  The profiling server: a goroutine that listens, and its own, which waits until the process is asked to
  stop.
\<close>

definition pprof_address :: string where "pprof_address = '':6060''"

definition pprof_listen :: "'w startup \<Rightarrow> nat \<Rightarrow> 'w \<Rightarrow> 'w" where
  "pprof_listen st log w =
     (let (e, w1) = ListenHTTP st pprof_address (LogInfo st log ''serving on :6060'' w)
      in if \<not> IsServerClosed st e then LogError st log e ''HTTP server error'' w1 else w1)"

definition pprof_Serve :: "'w startup \<Rightarrow> nat \<Rightarrow> 'w \<Rightarrow> 'w" where
  "pprof_Serve st log w =
     (case ShutdownHTTP st pprof_address (AwaitDone st (Go st (pprof_listen st log) w)) of
        (Some e, w1) \<Rightarrow> LogError st log e ''HTTP shutdown error: %v'' w1
      | (None, w1) \<Rightarrow> w1)"

definition enable_pprof :: flag where
  "enable_pprof = \<lparr>flag_name = ''enable-pprof'', flag_default = Bool False, flag_usage = ''enable pprof for profiling''\<rparr>"

text \<open>The goroutine of the profiling server is started before the run.\<close>

definition with_pprof ::
  "'w startup \<Rightarrow> (string \<Rightarrow> flag_value) \<Rightarrow> ('w \<Rightarrow> exit option \<times> 'w) \<Rightarrow> nat \<Rightarrow> 'w \<Rightarrow> exit option \<times> 'w"
where
  "with_pprof st vals body log w =
     body (if bool_value (vals (flag_name enable_pprof)) then Go st (pprof_Serve st log) w else w)"

section \<open>The server\<close>

text \<open>The libraries and the environment that the commands of both programs use.\<close>

record 'w libs =
  lib_startup :: "'w startup"
  lib_os :: "'w os"
  lib_iptables :: "'w iptables"
  lib_netlink :: "'w netlink"
  lib_sysctl :: "'w sysctl"
  lib_ranges :: mapped_ranges
  lib_sort :: "(srcInfo \<Rightarrow> int) \<Rightarrow> srcInfo list \<Rightarrow> srcInfo list"
  lib_visit :: "(string \<times> string) list \<Rightarrow> (string \<times> string) list"
  lib_order :: "(CIDR \<times> CIDR) list \<Rightarrow> (CIDR \<times> CIDR) list"
  lib_gid :: int
  lib_network :: CIDR

record ('c, 'w) server_libs = "'w libs" +
  lib_csort :: "(CIDR \<Rightarrow> string) \<Rightarrow> CIDR list \<Rightarrow> CIDR list"
  lib_Now :: "'w \<Rightarrow> int"
  lib_metrics :: "('c, 'w) metrics_lib"
  server_environment :: "go_error + VPNServer"

type_synonym 'w runner = "'w \<Rightarrow> exit option \<times> 'w"

definition server_Name :: string where "server_Name = ''vpn-server''"

definition firewallCommand :: "('c, 'w) server_libs \<Rightarrow> 'w runner command" where
  "firewallCommand L =
     Command ''firewall'' ''firewall'' ArbitraryArgs
       [\<lparr>flag_name = ''device'', flag_default = String '''', flag_usage = ''device to configure''\<rparr>,
        \<lparr>flag_name = ''mode'', flag_default = String '''', flag_usage = ''mode of firewall (up or down)''\<rparr>,
        \<lparr>flag_name = ''shoot-network'', flag_default = Strings [], flag_usage = ''shoot networks to add routes for''\<rparr>,
        \<lparr>flag_name = ''seed-pod-network'', flag_default = String '''',
         flag_usage = ''seed pod network to add double-nat mapping rules for (IPv4 only)''\<rparr>]
       [] [[''device'', ''mode'']]
       (\<lambda>vals. started (lib_startup L) (server_Name @ ''-firewall'') (\<lambda>log.
          ends (runFirewallCommand (lib_os L) (lib_iptables L) (lib_netlink L) (lib_ranges L)
            (string_value (vals ''device'')) (string_value (vals ''mode'')) (strings_value (vals ''shoot-network''))
            (string_value (vals ''seed-pod-network''))))) []"

definition exporterCommand :: "('c, 'w) server_libs \<Rightarrow> 'w runner command" where
  "exporterCommand L =
     Command ''exporter'' ''exporter'' ArbitraryArgs [] [] []
       (\<lambda>vals. started (lib_startup L) (server_Name @ ''-exporter'')
          (\<lambda>log. ends (runExporter (lib_metrics L) (lib_network L) (server_environment L)))) []"

definition readinessCommand :: "('c, 'w) server_libs \<Rightarrow> 'w runner command" where
  "readinessCommand L =
     Command ''readiness'' ''readiness'' ArbitraryArgs [] [] []
       (\<lambda>vals. started (lib_startup L) (server_Name @ ''-readiness'')
          (\<lambda>log. exits (runReadiness (lib_os L) (lib_network L) (server_environment L)))) []"

definition livenessCommand :: "('c, 'w) server_libs \<Rightarrow> 'w runner command" where
  "livenessCommand L =
     Command ''liveness'' ''liveness'' ArbitraryArgs [] [] []
       (\<lambda>vals. started (lib_startup L) (server_Name @ ''-liveness'')
          (\<lambda>log. exits (runLiveness (lib_os L) (lib_Now L) (lib_network L) (server_environment L)))) []"

definition setup_Name :: string where "setup_Name = ''setup''"

definition server_setup_command :: "('c, 'w) server_libs \<Rightarrow> 'w runner command" where
  "server_setup_command L =
     Command setup_Name setup_Name NoArgs [] [] []
       (\<lambda>vals. started (lib_startup L) setup_Name (\<lambda>log. ends (vpn_server_setup (lib_sysctl L)))) []"

definition server_command :: "('c, 'w) server_libs \<Rightarrow> 'w runner command" where
  "server_command L =
     Command server_Name (''Launch the '' @ server_Name) NoArgs (VersionFlags (lib_startup L)) [enable_pprof] []
       (\<lambda>vals. started (lib_startup L) server_Name (with_pprof (lib_startup L) vals
          (ends (vpn_server_run (lib_os L) (lib_iptables L) (lib_netlink L) (lib_ranges L) (lib_csort L) (lib_sort L)
            (lib_visit L) (lib_order L) (lib_gid L) (lib_network L) (server_environment L)))))
       [firewallCommand L, exporterCommand L, readinessCommand L, livenessCommand L, server_setup_command L]"

section \<open>The client\<close>

record 'w client_libs = "'w libs" +
  lib_show_addr :: "Addr \<Rightarrow> string"
  lib_runtime :: "'w Runtime"
  lib_kubernetes :: "'w kubernetes"
  lib_sockets :: "'w sockets"
  lib_flag_types :: "(int \<times> string) list"
  lib_clock :: "'w \<Rightarrow> int"
  client_environment :: "go_error + VPNClient"
  path_environment :: "go_error + PathController"
  pod_ip_environment :: string
  tunnel_environment :: "TunnelControllerConfig \<Rightarrow> go_error + TunnelControllerConfig"

definition client_Name :: string where "client_Name = ''vpn-client''"
definition path_controller_Name :: string where "path_controller_Name = ''path-controller''"
definition tunnel_controller_Name :: string where "tunnel_controller_Name = ''tunnel-controller''"

definition path_controller_command :: "'w client_libs \<Rightarrow> 'w runner command" where
  "path_controller_command L =
     Command path_controller_Name path_controller_Name NoArgs [] [] []
       (\<lambda>vals. started (lib_startup L) path_controller_Name
          (\<lambda>log. loops (\<lambda>w. (path_run (lib_ranges L) (lib_network L) (path_environment L) (pod_ip_environment L), w)))) []"

text \<open>The goroutine of the readiness endpoint (\<^verbatim>\<open>runReadinessServer\<close>).\<close>

definition runReadinessServer :: "'w startup \<Rightarrow> nat \<Rightarrow> 'w \<Rightarrow> 'w" where
  "runReadinessServer st log = Go st (\<lambda>w.
     let (e, w1) = ListenHTTP st ('':'' @ int_string ReadinessPort) (LogInfo st log ''Starting readiness server'' w)
     in if \<not> IsServerClosed st e then LogError st log e ''readiness server stopped with error'' w1 else w1)"

definition tunnel_controller_command :: "'w client_libs \<Rightarrow> 'w runner command" where
  "tunnel_controller_command L =
     Command tunnel_controller_Name tunnel_controller_Name NoArgs [] [] []
       (\<lambda>vals. started (lib_startup L) tunnel_controller_Name
          (\<lambda>log. loops (tunnelcontroller_run (lib_netlink L) (lib_sockets L) (lib_flag_types L) (lib_clock L)
            (runReadinessServer (lib_startup L) log) (tunnel_environment L)))) []"

definition client_setup_command :: "'w client_libs \<Rightarrow> 'w runner command" where
  "client_setup_command L =
     Command setup_Name setup_Name NoArgs [] [] []
       (\<lambda>vals. started (lib_startup L) setup_Name
          (\<lambda>log. ends (vpn_client_setup (lib_runtime L) (lib_netlink L) (lib_sysctl L) (lib_kubernetes L) (lib_network L)
            (client_environment L)))) []"

definition client_command :: "'w client_libs \<Rightarrow> 'w runner command" where
  "client_command L =
     Command client_Name (''Launch the '' @ client_Name) NoArgs (VersionFlags (lib_startup L)) [enable_pprof] []
       (\<lambda>vals. started (lib_startup L) client_Name (with_pprof (lib_startup L) vals
          (ends (vpn_client_run (lib_os L) (lib_iptables L) (lib_netlink L) (lib_show_addr L) (lib_ranges L) (lib_sort L)
            (lib_visit L) (lib_order L) (lib_gid L) (lib_network L) (client_environment L)))))
       [path_controller_command L, tunnel_controller_command L, client_setup_command L]"

section \<open>The processes\<close>

text \<open>
  \<^verbatim>\<open>main\<close>: the status of the process, \<^term>\<open>None\<close> for one that goes on running.  An error is printed and
  gives the status 1.
\<close>

type_synonym 'w dispatcher = "'w runner command \<Rightarrow> string list \<Rightarrow> go_error + 'w runner"

definition main :: "'w dispatcher \<Rightarrow> 'w startup \<Rightarrow> 'w runner command \<Rightarrow> string list \<Rightarrow> 'w \<Rightarrow> nat option \<times> 'w" where
  "main dispatch st root argv w =
     (case dispatch root argv of
        Inl e \<Rightarrow> (Some 1, Println st e w)
      | Inr run \<Rightarrow>
          (case run w of
             (None, w1) \<Rightarrow> (None, w1)
           | (Some Done, w1) \<Rightarrow> (Some 0, w1)
           | (Some (Failed e), w1) \<Rightarrow> (Some 1, Println st e w1)
           | (Some (Exit code), w1) \<Rightarrow> (Some code, w1)))"

definition server_main :: "'w dispatcher \<Rightarrow> ('c, 'w) server_libs \<Rightarrow> string list \<Rightarrow> 'w \<Rightarrow> nat option \<times> 'w" where
  "server_main dispatch L = main dispatch (lib_startup L) (server_command L)"

definition client_main :: "'w dispatcher \<Rightarrow> 'w client_libs \<Rightarrow> string list \<Rightarrow> 'w \<Rightarrow> nat option \<times> 'w" where
  "client_main dispatch L = main dispatch (lib_startup L) (client_command L)"

end
