(* ===== verification/Processes.thy ===== *)
theory Processes
  imports Command_Line Commands_Proofs Client_Start
begin

text \<open>
  What the processes of the two programs do, from their arguments to their exit status.
\<close>

section \<open>The start of a process\<close>

text \<open>
  What the code relies on in the libraries that it starts with, for a process that was not asked for its
  version: there is a logger for the level and the format, they leave the part \<open>view\<close> of the world alone that a property is about, and the version flag
  can be told apart from the other one.
\<close>

locale startup_laws =
  fixes st :: "'w startup" and view :: "'w \<Rightarrow> 'v"
  assumes version_flags: "flags_apart (VersionFlags st @ [enable_pprof])"
    and no_version: "fst (PrintAndExitIfRequested st w) = None"
    and logger_works: "\<exists>log. fst (NewZapLogger st ''info'' ''text'' w) = Inr log"
    and version_view: "PrintAndExitIfRequested st w = (r, w') \<Longrightarrow> view w' = view w"
    and logger_view: "NewZapLogger st level format w = (x, w') \<Longrightarrow> view w' = view w"
    and set_view: "view (SetLogger st log w) = view w" "view (SetKlogLogger st log w) = view w"
    and log_view: "view (LogInfo st log msg w) = view w"
    and silence_view: "view (SilenceUsage st w) = view w" "view (SilenceErrors st w) = view w"
begin

lemma InitRun_view: "InitRun st name w = (r, w') \<Longrightarrow> view w' = view w"
  by (auto simp: InitRun_def Let_def set_view log_view silence_view split: prod.splits option.splits sum.splits
      dest!: version_view logger_view)

lemma InitRun_ready:
  obtains log w1 where "InitRun st name w = (Inr log, w1)" and "view w1 = view w"
proof -
  obtain w1 where "PrintAndExitIfRequested st w = (None, w1)" using no_version [of w] by (cases "PrintAndExitIfRequested st w") auto
  moreover obtain log w2 where "NewZapLogger st ''info'' ''text'' w1 = (Inr log, w2)"
    using logger_works [of w1] by (cases "NewZapLogger st ''info'' ''text'' w1") auto
  ultimately obtain w3 where "InitRun st name w = (Inr log, w3)" by (simp add: InitRun_def Let_def)
  with InitRun_view that show thesis by blast
qed

text \<open>A process that ends with the status 0 has run to its end.\<close>

lemma main_ends:
  assumes "dispatch root argv = Inr (started st name (\<lambda>log. ends f))" and "main dispatch st root argv w = (Some 0, w')"
  shows "\<exists>w1. view w1 = view w \<and> f w1 = (None, w')"
proof -
  obtain log w1 where "InitRun st name w = (Inr log, w1)" "view w1 = view w" by (rule InitRun_ready)
  then show ?thesis
    using assms by (cases "f w1") (auto simp: main_def started_def ends_def split: option.splits)
qed

text \<open>A probe ends with the status 0 or 1.\<close>

lemma main_exits:
  assumes "dispatch root argv = Inr (started st name (\<lambda>log. exits f))" and "main dispatch st root argv w = (r, w')"
    and "\<And>u. view u = view w \<Longrightarrow> fst (f u) = (if ok (snd (f u)) then Done else Exit 1)"
  shows "r = Some (if ok w' then 0 else 1)"
proof -
  obtain log w1 where i: "InitRun st name w = (Inr log, w1)" "view w1 = view w" by (rule InitRun_ready)
  obtain x u where "f w1 = (x, u)" by fastforce
  with assms(3) [OF i(2)] assms(1,2) i(1) show ?thesis by (auto simp: main_def started_def exits_def split: if_splits)
qed

end

section \<open>The commands\<close>

lemma enable_pprof_default:
  assumes "flags_apart (fs @ [enable_pprof])"
  shows "flag_values (fs @ [enable_pprof]) [] ''enable-pprof'' = Bool False"
proof -
  have "find (\<lambda>f. flag_name f = ''enable-pprof'') (fs @ [enable_pprof]) = Some enable_pprof"
    using assms by (intro find_unique) (force simp: flags_apart_def enable_pprof_def)+
  then show ?thesis by (simp add: flag_values_def) (simp add: enable_pprof_def)
qed

lemma no_arguments: "RequiredTogether c = [] \<Longrightarrow> accepted c fs [] []"
  by (simp add: accepted_def flag_words.no_words)

lemma server_commands_apart: "commands_apart (server_command L)" "commands_apart (client_command L')"
  by (simp_all add: commands_apart_def server_command_def client_command_def firewallCommand_def exporterCommand_def
      readinessCommand_def livenessCommand_def server_setup_command_def setup_Name_def path_controller_command_def
      tunnel_controller_command_def client_setup_command_def path_controller_Name_def tunnel_controller_Name_def
      positional_def has_prefix_def)

lemma dispatch_command:
  assumes "cobra dispatch" and "flags_apart (LocalFlags c @ PersistentFlags c)" and "commands_apart c" and "RequiredTogether c = []"
  shows "dispatch c [] = Inr (RunE c (flag_values (LocalFlags c @ PersistentFlags c) []))"
  using cobra.root_command [OF assms(1,3,2) no_arguments [OF assms(4)]] .

text \<open>A subcommand without flags of its own.\<close>

lemma dispatch_plain:
  assumes "cobra dispatch" and "sub \<in> set (Subcommands c)" and "commands_apart c" and "PersistentFlags c = [enable_pprof]"
    and "LocalFlags sub = []" "PersistentFlags sub = []" "RequiredTogether sub = []" "Subcommands sub = []"
  shows "dispatch c [Use sub] = Inr (RunE sub (flag_values [enable_pprof] []))"
proof -
  have "known_flags c sub = [enable_pprof]" using assms(4-6) by (simp add: known_flags_def)
  moreover have "flags_apart [enable_pprof]" by (simp add: flags_apart_def enable_pprof_def)
  ultimately show ?thesis
    using cobra.subcommand [OF assms(1,2,8,3), of "[]" "[]" "[]"] no_arguments [OF assms(7)] by simp
qed

lemma dispatch_server:
  assumes "cobra dispatch" and "flags_apart (VersionFlags (lib_startup L) @ [enable_pprof])"
  shows "dispatch (server_command L) [] = Inr (started (lib_startup L) server_Name (\<lambda>log. ends
    (vpn_server_run (lib_os L) (lib_iptables L) (lib_netlink L) (lib_ranges L) (lib_csort L) (lib_sort L)
      (lib_visit L) (lib_order L) (lib_gid L) (lib_network L) (server_environment L))))"
  using dispatch_command [OF assms(1), of "server_command L"] assms(2) server_commands_apart(1) [of L] enable_pprof_default [OF assms(2)]
  by (simp add: server_command_def with_pprof_def [abs_def]) (simp add: enable_pprof_def)

lemma dispatch_client:
  assumes "cobra dispatch" and "flags_apart (VersionFlags (lib_startup L) @ [enable_pprof])"
  shows "dispatch (client_command L) [] = Inr (started (lib_startup L) client_Name (\<lambda>log. ends
    (vpn_client_run (lib_os L) (lib_iptables L) (lib_netlink L) (lib_show_addr L) (lib_ranges L) (lib_sort L)
      (lib_visit L) (lib_order L) (lib_gid L) (lib_network L) (client_environment L))))"
  using dispatch_command [OF assms(1), of "client_command L"] assms(2) server_commands_apart(2) [of L] enable_pprof_default [OF assms(2)]
  by (simp add: client_command_def with_pprof_def [abs_def]) (simp add: enable_pprof_def)

lemma dispatch_readiness:
  assumes "cobra dispatch"
  shows "dispatch (server_command L) [''readiness''] = Inr (started (lib_startup L) (server_Name @ ''-readiness'')
    (\<lambda>log. exits (runReadiness (lib_os L) (lib_network L) (server_environment L))))"
  using dispatch_plain [OF assms, of "readinessCommand L" "server_command L"] server_commands_apart(1) [of L]
  by (simp add: server_command_def readinessCommand_def)

lemma dispatch_liveness:
  assumes "cobra dispatch"
  shows "dispatch (server_command L) [''liveness''] = Inr (started (lib_startup L) (server_Name @ ''-liveness'')
    (\<lambda>log. exits (runLiveness (lib_os L) (lib_Now L) (lib_network L) (server_environment L))))"
  using dispatch_plain [OF assms, of "livenessCommand L" "server_command L"] server_commands_apart(1) [of L]
  by (simp add: server_command_def livenessCommand_def)


section \<open>Properties\<close>

text \<open>
  C32: when the server process without arguments ends with the status 0, it has written its configuration,
  built from the environment with a tunnel MTU that IPv6 can work with, the file with the routes of the
  shoot client, and, if it is highly available, an empty file for each of the clients of the shoot.
\<close>

theorem server_process_writes:
  assumes "cobra dispatch" and "startup_laws (lib_startup L) view" and "file_laws (lib_os L) files"
    and "server_main dispatch L [] w = (Some 0, w')"
  shows "\<exists>cfg v mtu. GetVPNServerConfig (lib_network L) (server_environment L) = Inr cfg \<and>
    BuildValues (lib_ranges L) (lib_csort L) cfg = Inr v \<and>
    (if srv_AutoMTU cfg then MinimumMTU \<le> mtu else mtu = 0) \<and>
    files w' ''/openvpn-server.config'' = Some (generateSeedServerConfig (v\<lparr>sv_TunMTU := mtu\<rparr>)) \<and>
    files w' ''/client-config-dir/vpn-shoot-client'' = Some (generateConfigForClientFromServer v) \<and>
    (srv_IsHA cfg \<longrightarrow> (\<forall>i. int i < srv_HAVPNClients cfg \<longrightarrow>
       files w' (''/client-config-dir/vpn-shoot-client-'' @ int_string (int i)) = Some ''''))"
  using startup_laws.main_ends [OF assms(2) dispatch_server [OF assms(1)] assms(4) [unfolded server_main_def]]
    startup_laws.version_flags [OF assms(2)] server_run_writes [OF assms(3)]
  by blast

text \<open>
  C35: when the client process without arguments ends with the status 0, it has written its configuration,
  with a tunnel MTU that IPv6 can work with.  If it belongs to the \<open>i\<close>-th server of a highly available
  set, its device is the \<open>i\<close>-th tap device and its management port the \<open>i\<close>-th one from the default; if it
  is the only client of a shoot, OpenVPN routes the pod network of the seed over the VPN when the tunnel
  is up, in its mapped form for IPv4.
\<close>

theorem client_process_writes:
  assumes "cobra dispatch" and "startup_laws (lib_startup L) view" and "file_laws (lib_os L) files"
    and "client_main dispatch L [] w = (Some 0, w')"
  shows "\<exists>cfg v. GetVPNClientConfig (lib_network L) (client_environment L) = Inr cfg \<and>
    files w' ''/openvpn-client.config'' = Some (generateClientConfig v) \<and>
    (if AutoMTU cfg then MinimumMTU \<le> cv_TunMTU v else cv_TunMTU v = 0) \<and>
    (\<forall>i < 2 ^ 62. VPNServerIndex cfg = dec_string i \<longrightarrow> ''dev '' @ tap_name i \<in> set (client_lines v) \<and>
       (IsShootClient cfg \<longrightarrow> ''management 127.0.0.1 '' @ dec_string (7505 + i) \<in> set (client_lines v))) \<and>
    (\<not> IsHA cfg \<and> IsShootClient cfg \<longrightarrow> last (client_lines v) =
       ''up \"/bin/sh -c '' @ [CHR 0x27] @ ''/sbin/ip route replace '' @
       (if CIDR_IsIPv4 (SeedPodNetwork cfg) then SeedPodNetworkMapped (lib_ranges L) else CIDR_String (SeedPodNetwork cfg)) @
       '' dev $1'' @ [CHR 0x27] @ '' -- \"'')"
proof -
  obtain w1 where run: "vpn_client_run (lib_os L) (lib_iptables L) (lib_netlink L) (lib_show_addr L) (lib_ranges L) (lib_sort L)
      (lib_visit L) (lib_order L) (lib_gid L) (lib_network L) (client_environment L) w1 = (None, w')"
    using startup_laws.main_ends [OF assms(2) dispatch_client [OF assms(1) startup_laws.version_flags [OF assms(2)]]
        assms(4) [unfolded client_main_def]] by blast
  show ?thesis by (rule client_run_writes [OF assms(3) run])
qed


text \<open>
  C37: the exit status of the two probes of a server whose OpenVPN has written its status file: readiness
  ends with 0 if a client of each side is connected for a highly available server, and if no client or
  one of the shoot is for another one; liveness ends with 0 if the file is at most 17 seconds old when
  it is read.  Otherwise the status is 1.
\<close>

theorem probe_processes:
  assumes "cobra dispatch" and "startup_laws (lib_startup L) view"
    and "GetVPNServerConfig (lib_network L) (server_environment L) = Inr cfg"
    and "list_all entry_ok es" and "list_all (\<lambda>e. readable (entry_line e)) es"
    and "\<And>u. view u = view w \<Longrightarrow> fst (ReadFile (lib_os L) (srv_StatusPath cfg) u) = Inr (unlines (map entry_line es))"
    and "server_main dispatch L [''readiness''] w = (r, w1)" and "server_main dispatch L [''liveness''] w = (l, w2)"
  shows "r = Some (if (if srv_IsHA cfg then list_ex seed_client (clients_of es) \<and> list_ex shoot_client (clients_of es)
           else clients_of es = [] \<or> list_ex shoot_client (clients_of es)) then 0 else 1) \<and>
    l = Some (if lib_Now L w2 - last (0 # updates_of es) \<le> 17 * Second then 0 else 1)"
proof -
  note exits = startup_laws.main_exits [OF assms(2)]
  have read: "ReadFile (lib_os L) (srv_StatusPath cfg) u = (Inr (unlines (map entry_line es)), snd (ReadFile (lib_os L) (srv_StatusPath cfg) u))"
    if "view u = view w" for u
    using assms(6) [OF that] by (metis prod.collapse)
  note probes = probes_exit [OF assms(3-5) read]
  show ?thesis
  proof (intro conjI exits [OF dispatch_readiness [OF assms(1)] assms(7) [unfolded server_main_def]]
      exits [OF dispatch_liveness [OF assms(1)] assms(8) [unfolded server_main_def]])
    show "fst (runReadiness (lib_os L) (lib_network L) (server_environment L) u) = (if (if srv_IsHA cfg
          then list_ex seed_client (clients_of es) \<and> list_ex shoot_client (clients_of es)
          else clients_of es = [] \<or> list_ex shoot_client (clients_of es)) then Done else Exit 1)" if "view u = view w" for u
      using probes [OF that] by simp
    show "fst (runLiveness (lib_os L) (lib_Now L) (lib_network L) (server_environment L) u) =
        (if lib_Now L (snd (runLiveness (lib_os L) (lib_Now L) (lib_network L) (server_environment L) u)) - last (0 # updates_of es) \<le> 17 * Second
         then Done else Exit 1)" if "view u = view w" for u
      using probes [OF that, of "lib_Now L"] by simp
  qed
qed

section \<open>Witnesses\<close>

text \<open>Libraries that change nothing but what the machine models, and programs on that machine.\<close>

definition quiet_startup :: "'w startup" where
  "quiet_startup = \<lparr>VersionFlags = [\<lparr>flag_name = ''version'', flag_default = Bool False, flag_usage = ''print version''\<rparr>],
     PrintAndExitIfRequested = (\<lambda>w. (None, w)), NewZapLogger = (\<lambda>_ _ w. (Inr 0, w)), SetLogger = (\<lambda>_ w. w),
     SetKlogLogger = (\<lambda>_ w. w), LogInfo = (\<lambda>_ _ w. w), LogError = (\<lambda>_ _ _ w. w), SilenceUsage = (\<lambda>w. w),
     SilenceErrors = (\<lambda>w. w), ListenHTTP = (\<lambda>_ w. (Foreign ''closed'', w)), ShutdownHTTP = (\<lambda>_ w. (None, w)),
     IsServerClosed = (\<lambda>_. True), Go = (\<lambda>f w. f w), AwaitDone = (\<lambda>w. w), Println = (\<lambda>_ w. w)\<rparr>"

interpretation quiet: startup_laws quiet_startup view for view :: "'w \<Rightarrow> 'v"
  by unfold_locales (simp_all add: quiet_startup_def flags_apart_def enable_pprof_def)

lemma quiet_ends:
  assumes "word_dispatch root argv = Inr (started quiet_startup name (\<lambda>log. ends f))" and "f w = (None, w')"
  shows "main word_dispatch quiet_startup root argv w = (Some 0, w')"
  using assms by (simp add: main_def started_def InitRun_def Let_def ends_def quiet_startup_def)

definition machine_server :: "int \<Rightarrow> VPNServer \<Rightarrow> (unit, machine) server_libs" where
  "machine_server now cfg = \<lparr>lib_startup = quiet_startup, lib_os = machine_os, lib_iptables = machine_ipt,
     lib_netlink = machine_netlink, lib_sysctl = machine_sysctl, lib_ranges = default_ranges, lib_sort = sort_key,
     lib_visit = (\<lambda>m. m), lib_order = (\<lambda>m. m), lib_gid = 101, lib_network = vpn_nw, lib_csort = sort_key,
     lib_Now = (\<lambda>_. now), lib_metrics = \<lparr>NewOpenVPNExporter = (\<lambda>_ _ w. (Inr (), w)), NetStatCollector = (),
       Register = (\<lambda>_ w. (None, w)), ListenAndServe = (\<lambda>_ _ w. (Some (Foreign ''closed''), w))\<rparr>,
     server_environment = Inr cfg\<rparr>"

definition machine_client :: "VPNClient \<Rightarrow> machine client_libs" where
  "machine_client cfg = \<lparr>lib_startup = quiet_startup, lib_os = machine_os, lib_iptables = machine_ipt,
     lib_netlink = machine_netlink, lib_sysctl = machine_sysctl, lib_ranges = default_ranges, lib_sort = sort_key,
     lib_visit = (\<lambda>m. m), lib_order = (\<lambda>m. m), lib_gid = 101, lib_network = vpn_nw, lib_show_addr = (\<lambda>_. []),
     lib_runtime = machine_runtime, lib_kubernetes = no_cluster,
     lib_sockets = \<lparr>Dial = (\<lambda>_ _ w. (Inl (Foreign ''no network''), w)), Write = (\<lambda>_ _ w. (None, w)), Close = (\<lambda>_ w. w),
       ListenUDP = (\<lambda>_ _ w. (Inl (Foreign ''no network''), w)), Pause = (\<lambda>_ w. w)\<rparr>,
     lib_flag_types = [], lib_clock = (\<lambda>_. 0), client_environment = Inr cfg, path_environment = Inl (Foreign ''not set''),
     pod_ip_environment = [], tunnel_environment = Inr\<rparr>"

lemma machine_libs [simp]:
  "lib_startup (machine_server now cfg) = quiet_startup" "lib_os (machine_server now cfg) = machine_os"
  "lib_iptables (machine_server now cfg) = machine_ipt" "lib_netlink (machine_server now cfg) = machine_netlink"
  "lib_ranges (machine_server now cfg) = default_ranges" "lib_sort (machine_server now cfg) = sort_key"
  "lib_visit (machine_server now cfg) = (\<lambda>m. m)" "lib_order (machine_server now cfg) = (\<lambda>m. m)"
  "lib_gid (machine_server now cfg) = 101" "lib_network (machine_server now cfg) = vpn_nw"
  "lib_csort (machine_server now cfg) = sort_key" "lib_Now (machine_server now cfg) = (\<lambda>_. now)"
  "server_environment (machine_server now cfg) = Inr cfg"
  "lib_startup (machine_client c) = quiet_startup" "lib_os (machine_client c) = machine_os"
  "lib_iptables (machine_client c) = machine_ipt" "lib_netlink (machine_client c) = machine_netlink"
  "lib_sysctl (machine_client c) = machine_sysctl" "lib_ranges (machine_client c) = default_ranges"
  "lib_sort (machine_client c) = sort_key" "lib_visit (machine_client c) = (\<lambda>m. m)" "lib_order (machine_client c) = (\<lambda>m. m)"
  "lib_gid (machine_client c) = 101" "lib_network (machine_client c) = vpn_nw" "lib_show_addr (machine_client c) = (\<lambda>_. [])"
  "lib_runtime (machine_client c) = machine_runtime" "lib_kubernetes (machine_client c) = no_cluster"
  "client_environment (machine_client c) = Inr c"
  by (simp_all add: machine_server_def machine_client_def)

lemma quiet_flags: "flags_apart (VersionFlags quiet_startup @ [enable_pprof])"
  by (rule quiet.version_flags)

theorem server_process_writes_witness:
  "\<exists>m c. server_main word_dispatch (machine_server 0 default_server) [] tunnel_machine = (Some 0, m) \<and>
     mach_files m ''/openvpn-server.config'' = Some c"
proof -
  let ?L = "machine_server 0 default_server"
  obtain m where run: "vpn_server_run machine_os machine_ipt machine_netlink default_ranges sort_key sort_key (\<lambda>m. m) (\<lambda>m. m) 101 vpn_nw
      (Inr default_server) tunnel_machine = (None, m)"
    using default_server_runs by blast
  have m: "server_main word_dispatch ?L [] tunnel_machine = (Some 0, m)"
    unfolding server_main_def machine_libs
    by (rule quiet_ends [OF dispatch_server [OF words.cobra_axioms, of ?L, simplified, OF quiet_flags]]) (simp add: run)
  show ?thesis
    using server_process_writes [OF words.cobra_axioms _ _ m] quiet.startup_laws_axioms machine_fs.file_laws_axioms m
    unfolding machine_libs by blast
qed

theorem client_process_writes_witness:
  "\<exists>m v. client_main word_dispatch (machine_client (default_client True True)) [] tunnel_machine = (Some 0, m) \<and>
     mach_files m ''/openvpn-client.config'' = Some (generateClientConfig v) \<and> ''dev '' @ tap_name 0 \<in> set (client_lines v)"
proof -
  let ?cfg = "default_client True True"
  let ?L = "machine_client ?cfg"
  obtain m where run: "vpn_client_run machine_os machine_ipt machine_netlink (\<lambda>_. []) default_ranges sort_key (\<lambda>m. m) (\<lambda>m. m) 101 vpn_nw
      (Inr ?cfg) tunnel_machine = (None, m)"
    using default_client_runs by blast
  have m: "client_main word_dispatch ?L [] tunnel_machine = (Some 0, m)"
    unfolding client_main_def machine_libs
    by (rule quiet_ends [OF dispatch_client [OF words.cobra_axioms, of ?L, simplified, OF quiet_flags]]) (simp add: run)
  have start: "startup_laws (lib_startup ?L) (\<lambda>_. ())" and fs: "file_laws (lib_os ?L) mach_files"
    unfolding machine_libs by (rule quiet.startup_laws_axioms, rule machine_fs.file_laws_axioms)
  have cfg: "GetVPNClientConfig (lib_network ?L) (client_environment ?L) = Inr ?cfg"
    unfolding machine_libs by (rule default_client_config)
  obtain v where "mach_files m ''/openvpn-client.config'' = Some (generateClientConfig v)"
    "\<forall>i < 2 ^ 62. VPNServerIndex ?cfg = dec_string i \<longrightarrow> ''dev '' @ tap_name i \<in> set (client_lines v)"
    using client_process_writes [OF words.cobra_axioms start fs m] unfolding cfg sum.inject by blast
  moreover have "VPNServerIndex ?cfg = dec_string 0" by (simp add: default_client_def)
  moreover have "(0 :: nat) < 2 ^ 62" by simp
  ultimately show ?thesis using m by blast
qed


text \<open>The probes of a server that is not highly available, 17 seconds after the last update and later.\<close>

theorem probe_processes_witness:
  "fst (server_main word_dispatch (machine_server (63901739541 * Second) default_server) [''readiness''] status_machine) = Some 0 \<and>
   fst (server_main word_dispatch (machine_server (63901739541 * Second) default_server) [''liveness''] status_machine) = Some 0 \<and>
   fst (server_main word_dispatch (machine_server (63901739541 * Second + 1) default_server) [''liveness''] status_machine) = Some 1"
proof -
  have content: "fst (ReadFile machine_os (srv_StatusPath default_server) u) = Inr (unlines (map entry_line sample_entries))"
    if "mach_files u = mach_files status_machine" for u
    using that status_machine_file by (auto simp: default_server_def NewDefaultConfig_def machine_os_def split: option.splits)
  have probes: "fst (server_main word_dispatch (machine_server now default_server) [''readiness''] status_machine) = Some 0"
    "fst (server_main word_dispatch (machine_server now default_server) [''liveness''] status_machine) =
       Some (if now - 63901739524 * Second \<le> 17 * Second then 0 else 1)" for now
  proof -
    let ?L = "machine_server now default_server"
    have start: "startup_laws (lib_startup ?L) mach_files" unfolding machine_libs by (rule quiet.startup_laws_axioms)
    have cfg: "GetVPNServerConfig (lib_network ?L) (server_environment ?L) = Inr default_server"
      unfolding machine_libs by (rule default_server_config)
    have "list_ex shoot_client (clients_of sample_entries)" "\<not> srv_IsHA default_server"
      by (simp_all add: sample_entries_def sample_client_def clients_of_def has_prefix_def SeedClientPrefix_def ShootClientPrefix_def default_server_def)
    moreover have "last (0 # updates_of sample_entries) = 63901739524 * Second" by (simp add: sample_simps)
    ultimately show "fst (server_main word_dispatch ?L [''readiness''] status_machine) = Some 0"
      "fst (server_main word_dispatch ?L [''liveness''] status_machine) = Some (if now - 63901739524 * Second \<le> 17 * Second then 0 else 1)"
      using probe_processes [OF words.cobra_axioms start cfg sample_ok sample_readable _ prod.collapse [symmetric] prod.collapse [symmetric], of status_machine]
        content unfolding machine_libs by simp_all
  qed
  show ?thesis unfolding probes by (simp add: Second_def)
qed

end
