(* ===== verification/Scripts.thy ===== *)
theory Scripts
  imports Processes
begin

text \<open>
  OpenVPN and the server binary: what happens when OpenVPN runs the commands of the \<^verbatim>\<open>up\<close> and \<^verbatim>\<open>down\<close>
  lines of the configuration that the server wrote (\<^verbatim>\<open>assets/server-config.template\<close>,
  \<^verbatim>\<open>vpn_server/app/firewall.go\<close>).
\<close>

section \<open>Running a line\<close>

text \<open>
  OpenVPN takes the words between the quotes of a line as a command, the first one being the program, and
  appends arguments of its own: the device, its MTU, the addresses and the reason.
\<close>

definition quoted :: "string \<Rightarrow> string" where
  "quoted line = split_on (CHR 0x22) line ! 1"

definition run_script_line ::
  "'w dispatcher \<Rightarrow> ('c, 'w) server_libs \<Rightarrow> string \<Rightarrow> string list \<Rightarrow> 'w \<Rightarrow> nat option \<times> 'w"
where
  "run_script_line dispatch L line appended = server_main dispatch L (tl (split_on (CHR '' '') (quoted line)) @ appended)"

section \<open>The arguments of the firewall command\<close>

text \<open>The firewall command takes further arguments, and reads the flags that are given.\<close>

lemma firewall_known: "known_flags (server_command L) (firewallCommand L) = LocalFlags (firewallCommand L) @ [enable_pprof]"
  by (simp add: known_flags_def server_command_def firewallCommand_def)

lemma firewall_flag:
  "\<exists>f \<in> set (known_flags (server_command L) (firewallCommand L)). flag_name f = n \<and> \<not> is_Bool (flag_default f)"
  if "n \<in> {''device'', ''mode'', ''shoot-network'', ''seed-pod-network''}"
  unfolding firewall_known using that by (auto simp: firewallCommand_def)

lemma firewall_two_words:
  assumes "n \<in> {''device'', ''mode'', ''shoot-network'', ''seed-pod-network''}"
    and "flag_words (known_flags (server_command L) (firewallCommand L)) ws gs"
  shows "flag_words (known_flags (server_command L) (firewallCommand L)) ((''--'' @ n) # v # ws) ((n, v) # gs)"
proof -
  obtain f where f: "f \<in> set (known_flags (server_command L) (firewallCommand L))" "flag_name f = n" "\<not> is_Bool (flag_default f)"
    using firewall_flag [OF assms(1)] by blast
  from flag_words.two_words [OF f(1,3) assms(2), of v] f(2) show ?thesis by simp
qed

lemma firewall_one_word:
  assumes "n \<in> {''device'', ''mode'', ''shoot-network'', ''seed-pod-network''}"
    and "flag_words (known_flags (server_command L) (firewallCommand L)) ws gs"
  shows "flag_words (known_flags (server_command L) (firewallCommand L)) ((''--'' @ n @ ''='' @ v) # ws) ((n, v) # gs)"
proof -
  obtain f where f: "f \<in> set (known_flags (server_command L) (firewallCommand L))" "flag_name f = n" "\<not> is_Bool (flag_default f)"
    using firewall_flag [OF assms(1)] by blast
  from flag_words.one_word [OF f(1,3) assms(2), of v] f(2) show ?thesis by simp
qed

lemma firewall_apart: "flags_apart (known_flags (server_command L) (firewallCommand L))"
  unfolding flags_apart_def firewall_known by (simp add: firewallCommand_def enable_pprof_def)

lemma dispatch_firewall:
  assumes "cobra dispatch" and "accepted (firewallCommand L) (known_flags (server_command L) (firewallCommand L)) ws gs"
    and "list_all positional appended"
  shows "dispatch (server_command L) (''firewall'' # ws @ appended) =
    Inr (started (lib_startup L) (server_Name @ ''-firewall'') (\<lambda>log.
      ends (runFirewallCommand (lib_os L) (lib_iptables L) (lib_netlink L) (lib_ranges L)
        (case map_of gs ''device'' of None \<Rightarrow> [] | Some v \<Rightarrow> v) (case map_of gs ''mode'' of None \<Rightarrow> [] | Some v \<Rightarrow> v)
        (case map_of gs ''shoot-network'' of None \<Rightarrow> [] | Some v \<Rightarrow> if v = [] then [] else split_on (CHR '','') v)
        (case map_of gs ''seed-pod-network'' of None \<Rightarrow> [] | Some v \<Rightarrow> v))))"
proof -
  have sub: "firewallCommand L \<in> set (Subcommands (server_command L))" "Subcommands (firewallCommand L) = []"
    "Args (firewallCommand L) = ArbitraryArgs" "Use (firewallCommand L) = ''firewall''"
    by (simp_all add: server_command_def firewallCommand_def)
  have vals: "string_value (flag_values (known_flags (server_command L) (firewallCommand L)) gs n) =
      (case map_of gs n of None \<Rightarrow> [] | Some v \<Rightarrow> v)" if "n \<in> {''device'', ''mode'', ''seed-pod-network''}" for n
    unfolding flag_values_def firewall_known using that by (auto simp: firewallCommand_def split: option.split)
  have nets: "strings_value (flag_values (known_flags (server_command L) (firewallCommand L)) gs ''shoot-network'') =
      (case map_of gs ''shoot-network'' of None \<Rightarrow> [] | Some v \<Rightarrow> if v = [] then [] else split_on (CHR '','') v)"
    unfolding flag_values_def firewall_known by (auto simp: firewallCommand_def split: option.split)
  have "RunE (firewallCommand L) vals = started (lib_startup L) (server_Name @ ''-firewall'') (\<lambda>log.
      ends (runFirewallCommand (lib_os L) (lib_iptables L) (lib_netlink L) (lib_ranges L)
        (string_value (vals ''device'')) (string_value (vals ''mode'')) (strings_value (vals ''shoot-network''))
        (string_value (vals ''seed-pod-network''))))" for vals
    by (simp add: firewallCommand_def)
  with cobra.subcommand [OF assms(1) sub(1,2) server_commands_apart(1) firewall_apart assms(2,3)] sub(3,4) show ?thesis
    by (simp add: vals nets)
qed

lemma parse_cidr_empty: "parse_cidr [] = None"
  by (simp add: parse_cidr_def)

definition up_words :: "SeedServerValues \<Rightarrow> string list" where
  "up_words v = [''/bin/vpn-server'', ''firewall'', ''--mode'', ''up'', ''--device'', sv_Device v,
     ''--shoot-network='' @ networksToString (sv_ShootNetworks v), ''--seed-pod-network='' @ CIDR_String (sv_SeedPodNetwork v)]"

lemma networks_chars: "c \<notin> set (networksToString nws)" if "c \<in> {CHR 0x0A, CHR '' '', CHR 0x22, CHR 0x0D}"
  unfolding networksToString_def using that plain_no [OF plain_CIDR] by (intro join_chars) auto

lemma up_line_words:
  assumes "sv_Device v \<in> {TapDevice, TunnelDevice}"
  shows "split_on (CHR '' '') (quoted (up_line v)) = up_words v"
proof -
  have line: "up_line v = ''up '' @ CHR 0x22 # join_with '' '' (up_words v) @ CHR 0x22 # []"
    by (simp add: up_line_def up_words_def)
  have dev: "list_all plain (sv_Device v)" using assms by (auto simp: TapDevice_def TunnelDevice_def plain_def)
  have words: "\<forall>w \<in> set (up_words v). CHR '' '' \<notin> set w" "\<forall>w \<in> set (up_words v). CHR 0x22 \<notin> set w"
    using plain_no [OF plain_CIDR, of "sv_SeedPodNetwork v"] plain_no [OF dev]
      networks_chars [of "CHR '' ''" "sv_ShootNetworks v"] networks_chars [of "CHR 0x22" "sv_ShootNetworks v"]
    by (simp_all add: up_words_def)
  then have "CHR 0x22 \<notin> set (join_with '' '' (up_words v))" by (intro join_chars) simp_all
  then have "quoted (up_line v) = join_with '' '' (up_words v)"
    unfolding line quoted_def by (simp add: split_on_append)
  moreover have "split_on (CHR '' '') (join_with '' '' (up_words v)) = up_words v"
    by (rule split_on_join [OF _ words(1)]) (simp add: up_words_def)
  ultimately show ?thesis by simp
qed

definition up_given :: "SeedServerValues \<Rightarrow> (string \<times> string) list" where
  "up_given v = [(''mode'', ''up''), (''device'', sv_Device v), (''shoot-network'', networksToString (sv_ShootNetworks v)),
     (''seed-pod-network'', CIDR_String (sv_SeedPodNetwork v))]"

lemma up_accepted:
  assumes "sv_Device v \<in> {TapDevice, TunnelDevice}"
  shows "accepted (firewallCommand L) (known_flags (server_command L) (firewallCommand L)) (drop 2 (up_words v)) (up_given v)"
proof -
  have "flag_words (known_flags (server_command L) (firewallCommand L)) (drop 2 (up_words v)) (up_given v)"
    unfolding up_words_def up_given_def
    using firewall_two_words [of "''mode''", OF _ firewall_two_words [of "''device''", OF _ firewall_one_word [of "''shoot-network''",
        OF _ firewall_one_word [of "''seed-pod-network''", OF _ flag_words.no_words]]]]
    by simp
  moreover have "unquoted (CIDR_String (sv_SeedPodNetwork v))"
    using plain_no [OF plain_CIDR, of "sv_SeedPodNetwork v"] by (simp add: unquoted_def)
  moreover have "unquoted (networksToString (sv_ShootNetworks v))"
    using networks_chars by (simp add: unquoted_def)
  moreover have "unquoted (sv_Device v)" "unquoted ''up''"
    using assms by (auto simp: unquoted_def TapDevice_def TunnelDevice_def)
  moreover have "list_all (all_or_none (map fst (up_given v))) (RequiredTogether (firewallCommand L))"
    by (simp add: firewallCommand_def up_given_def all_or_none_def)
  ultimately show ?thesis by (simp add: accepted_def) (simp add: up_given_def)
qed

lemma up_dispatch:
  assumes "cobra dispatch" and "sv_Device v \<in> {TapDevice, TunnelDevice}" and "list_all positional appended"
    and "\<forall>n \<in> set (sv_ShootNetworks v). CIDR_String n \<noteq> []"
  shows "dispatch (server_command L) (tl (up_words v) @ appended) =
    Inr (started (lib_startup L) (server_Name @ ''-firewall'') (\<lambda>log.
      ends (runFirewallCommand (lib_os L) (lib_iptables L) (lib_netlink L) (lib_ranges L)
        (sv_Device v) ''up'' (map CIDR_String (sv_ShootNetworks v)) (CIDR_String (sv_SeedPodNetwork v)))))"
proof -
  have nets: "(if networksToString (sv_ShootNetworks v) = [] then [] else split_on (CHR '','') (networksToString (sv_ShootNetworks v))) =
      map CIDR_String (sv_ShootNetworks v)"
  proof (cases "sv_ShootNetworks v")
    case (Cons n ns)
    then have "networksToString (sv_ShootNetworks v) \<noteq> []"
      using assms(4) by (cases ns) (auto simp: networksToString_def)
    moreover have "split_on (CHR '','') (networksToString (sv_ShootNetworks v)) = map CIDR_String (sv_ShootNetworks v)"
      unfolding networksToString_def
      by (rule split_on_join) (use Cons plain_no [OF plain_CIDR] in auto)
    ultimately show ?thesis by simp
  qed (simp add: networksToString_def)
  have "tl (up_words v) @ appended = ''firewall'' # drop 2 (up_words v) @ appended" by (simp add: up_words_def)
  then show ?thesis
    using dispatch_firewall [OF assms(1) up_accepted [OF assms(2)] assms(3), of L] by (simp add: up_given_def nets)
qed

lemma down_dispatch:
  assumes "cobra dispatch" and "sv_Device v \<in> {TapDevice, TunnelDevice}" and "list_all positional appended"
  shows "dispatch (server_command L) (tl (split_on (CHR '' '') (quoted (down_line v))) @ appended) =
    Inr (started (lib_startup L) (server_Name @ ''-firewall'') (\<lambda>log.
      ends (runFirewallCommand (lib_os L) (lib_iptables L) (lib_netlink L) (lib_ranges L) (sv_Device v) ''down'' [] '''')))"
proof -
  let ?ws = "[''--mode'', ''down'', ''--device'', sv_Device v]" and ?gs = "[(''mode'', ''down''), (''device'', sv_Device v)]"
  have "flag_words (known_flags (server_command L) (firewallCommand L)) ?ws ?gs"
    using firewall_two_words [of "''mode''", OF _ firewall_two_words [of "''device''", OF _ flag_words.no_words]] by simp
  moreover have "unquoted (sv_Device v)" "unquoted ''down''"
    using assms(2) by (auto simp: unquoted_def TapDevice_def TunnelDevice_def)
  moreover have "list_all (all_or_none (map fst ?gs)) (RequiredTogether (firewallCommand L))"
    by (simp add: firewallCommand_def all_or_none_def)
  ultimately have "accepted (firewallCommand L) (known_flags (server_command L) (firewallCommand L)) ?ws ?gs"
    by (simp add: accepted_def)
  from dispatch_firewall [OF assms(1) this assms(3)]
  have "dispatch (server_command L) (''firewall'' # ?ws @ appended) =
    Inr (started (lib_startup L) (server_Name @ ''-firewall'') (\<lambda>log.
      ends (runFirewallCommand (lib_os L) (lib_iptables L) (lib_netlink L) (lib_ranges L) (sv_Device v) ''down'' [] '''')))"
    by simp
  moreover have "tl (split_on (CHR '' '') (quoted (down_line v))) = ''firewall'' # ?ws"
    using assms(2) by (elim insertE emptyE) (simp_all add: down_line_def quoted_def TapDevice_def TunnelDevice_def)
  ultimately show ?thesis by simp
qed

text \<open>The networks of the shoot that a server prints are read back.\<close>

definition printable :: "CIDR \<Rightarrow> bool" where
  "printable n \<longleftrightarrow> (\<exists>s. ParseIPNet s = Inr n) \<and> \<not> (length (net_ip n) = 16 \<and> CIDR_IsIPv4 n)"

lemma printable_string: "printable n \<Longrightarrow> \<exists>a. parse_cidr (CIDR_String n) = Some (a, n)"
  using parse_cidr_String by (auto simp: printable_def)

lemma printable_parse: "printable n \<Longrightarrow> ParseIPNet (CIDR_String n) = Inr n"
  using printable_string by (fastforce simp: ParseIPNet_def)

lemma server_device: "BuildValues rng sorter cfg = Inr v \<Longrightarrow> sv_Device v = (if srv_IsHA cfg then TapDevice else TunnelDevice)"
  by (rule BuildValues_ok(8))

lemma server_networks_set:
  assumes "go_sort csorter" and "BuildValues rng csorter cfg = Inr v" and "\<forall>n \<in> routed_set rng cfg. printable n"
  shows "set (sv_ShootNetworks v) = routed_set rng cfg"
  by (rule BuildValues_compacted(1) [OF assms(1) _ assms(2)]) (use assms(3) in \<open>auto simp: printable_def\<close>)

text \<open>Which run of the command a line of the server that succeeds stands for.\<close>

lemma up_line_runs:
  assumes "cobra dispatch" and "startup_laws (lib_startup L) view" and "list_all positional appended"
    and "go_sort (lib_csort L)" and "BuildValues (lib_ranges L) (lib_csort L) cfg = Inr v"
    and "\<forall>n \<in> routed_set (lib_ranges L) cfg. printable n"
    and "run_script_line dispatch L (up_line v) appended w = (Some 0, w')"
  obtains w1 where "view w1 = view w" and "runFirewallCommand (lib_os L) (lib_iptables L) (lib_netlink L) (lib_ranges L)
      (sv_Device v) ''up'' (map CIDR_String (sv_ShootNetworks v)) (CIDR_String (srv_SeedPodNetwork cfg)) w1 = (None, w')"
proof -
  have dev: "sv_Device v \<in> {TapDevice, TunnelDevice}" by (simp add: server_device [OF assms(5)])
  have "\<forall>n \<in> set (sv_ShootNetworks v). CIDR_String n \<noteq> []"
    using assms(6) printable_string parse_cidr_empty unfolding server_networks_set [OF assms(4-6)] by force
  note d = up_dispatch [OF assms(1) dev assms(3) this, of L]
  show thesis
    using that startup_laws.main_ends [OF assms(2), of dispatch "server_command L", OF d] assms(7) BuildValues_ok(5) [OF assms(5)]
    by (auto simp: run_script_line_def server_main_def up_line_words [OF dev])
qed

lemma down_line_runs:
  assumes "cobra dispatch" and "startup_laws (lib_startup L) view" and "list_all positional appended"
    and "BuildValues (lib_ranges L) (lib_csort L) cfg = Inr v" and "run_script_line dispatch L (down_line v) appended w = (Some 0, w')"
  obtains w1 where "view w1 = view w"
    and "runFirewallCommand (lib_os L) (lib_iptables L) (lib_netlink L) (lib_ranges L) (sv_Device v) ''down'' [] '''' w1 = (None, w')"
proof -
  have "sv_Device v \<in> {TapDevice, TunnelDevice}" by (simp add: server_device [OF assms(4)])
  note d = down_dispatch [OF assms(1) this assms(3), of L]
  show thesis
    using that startup_laws.main_ends [OF assms(2), of dispatch "server_command L", OF d] assms(5) by (auto simp: run_script_line_def server_main_def)
qed

section \<open>Properties\<close>

text \<open>
  C33: when OpenVPN runs the command of the \<^verbatim>\<open>up\<close> line that the server wrote into its configuration,
  with the arguments that it appends, and the process ends with the status 0, every network of the
  shoot, in its mapped form where that is needed, is routed to the VPN device of the server.
\<close>

theorem openvpn_up_routes:
  assumes "cobra dispatch" and "startup_laws (lib_startup L) kern" and "list_all positional appended"
    and "firewall_host (lib_os L) (lib_iptables L) tabs (lib_netlink L) kern"
    and "go_sort (lib_csort L)" and "BuildValues (lib_ranges L) (lib_csort L) cfg = Inr v"
    and "\<forall>n \<in> routed_set (lib_ranges L) cfg. printable n"
    and "run_script_line dispatch L (up_line v) appended w = (Some 0, w')"
  shows "up_line v \<in> set (server_lines v) \<and>
    (\<exists>l. links (kern w) (if srv_IsHA cfg then TapDevice else TunnelDevice) = Some l \<and>
      (\<forall>n \<in> routed_set (lib_ranges L) cfg. routes (kern w') n = Some (Index (Attrs l))))"
proof -
  obtain w1 where kern: "kern w1 = kern w" and run: "runFirewallCommand (lib_os L) (lib_iptables L) (lib_netlink L) (lib_ranges L)
      (sv_Device v) ''up'' (map CIDR_String (sv_ShootNetworks v)) (CIDR_String (srv_SeedPodNetwork cfg)) w1 = (None, w')"
    by (rule up_line_runs [OF assms(1-3,5-8)])
  obtain l where l: "links (kern w1) (sv_Device v) = Some l"
    "\<forall>nw \<in> set (map CIDR_String (sv_ShootNetworks v)). \<exists>a n. parse_cidr nw = Some (a, n) \<and> routes (kern w') n = Some (Index (Attrs l))"
    by (rule firewall_host.firewall_up_ok [OF assms(4) run]) blast
  have "routes (kern w') n = Some (Index (Attrs l))" if "n \<in> routed_set (lib_ranges L) cfg" for n
    using l(2) printable_string [of n] that assms(7) server_networks_set [OF assms(5-7)] by fastforce
  moreover have "up_line v \<in> set (server_lines v)" unfolding server_lines_def set_append list.set by blast
  ultimately show ?thesis using l(1) server_device [OF assms(6)] kern by auto
qed

text \<open>
  C23: after OpenVPN has run the command of the \<^verbatim>\<open>up\<close> line, of what comes in from the VPN device of the
  server the INPUT chains of both protocols, empty before, accept exactly the packets of established
  connections and drop the rest, and about other devices they decide nothing: the shoot cannot open a
  connection to the server's pod.
\<close>

theorem openvpn_up_isolates:
  assumes "cobra dispatch" and "startup_laws (lib_startup L) tabs" and "list_all positional appended"
    and "firewall_host (lib_os L) (lib_iptables L) tabs (lib_netlink L) kern"
    and "go_sort (lib_csort L)" and "BuildValues (lib_ranges L) (lib_csort L) cfg = Inr v"
    and "\<forall>n \<in> routed_set (lib_ranges L) cfg. printable n"
    and "run_script_line dispatch L (up_line v) appended w = (Some 0, w')"
    and "tabs w (p, ''filter'', ''INPUT'') = []"
  shows "verdict (tabs w' (p, ''filter'', ''INPUT'')) pkt =
    (if in_dev pkt = (if srv_IsHA cfg then TapDevice else TunnelDevice)
     then Some (if established pkt then ''ACCEPT'' else ''DROP'') else None)"
proof -
  obtain u where u: "tabs u = tabs w" and up: "runFirewallCommand (lib_os L) (lib_iptables L) (lib_netlink L) (lib_ranges L)
      (sv_Device v) ''up'' (map CIDR_String (sv_ShootNetworks v)) (CIDR_String (srv_SeedPodNetwork cfg)) u = (None, w')"
    by (rule up_line_runs [OF assms(1-3,5-8)])
  have "last (sv_Device v) \<noteq> CHR ''+''" by (simp add: server_device [OF assms(6)] TapDevice_def TunnelDevice_def)
  with firewall_up_isolates [OF assms(4) up, of p pkt] assms(9) u show ?thesis by (simp add: server_device [OF assms(6)])
qed

text \<open>
  C24: when OpenVPN runs the command of the \<^verbatim>\<open>up\<close> line and, later, the one of the \<^verbatim>\<open>down\<close> line, and both
  processes end with the status 0, the INPUT chains hold the rules they had before, but the NETMAP rules
  for the pod network of the seed, which a server without high availability has for an IPv4 network, stay
  in the nat table: the down line does not name that network.
\<close>

theorem openvpn_down_leaves_netmap:
  assumes "cobra dispatch" and "startup_laws (lib_startup L) tabs" and "list_all positional appended"
    and "firewall_host (lib_os L) (lib_iptables L) tabs (lib_netlink L) kern"
    and "go_sort (lib_csort L)" and "BuildValues (lib_ranges L) (lib_csort L) cfg = Inr v"
    and "\<forall>n \<in> routed_set (lib_ranges L) cfg. printable n" and "printable (srv_SeedPodNetwork cfg)"
    and "run_script_line dispatch L (up_line v) appended w = (Some 0, w1)"
    and "run_script_line dispatch L (down_line v) appended w1 = (Some 0, w2)"
  shows "mset (tabs w2 (p, ''filter'', ''INPUT'')) = mset (tabs w (p, ''filter'', ''INPUT'')) \<and>
    (\<forall>chain \<in> {''PREROUTING'', ''POSTROUTING''}. tabs w2 (ProtocolIPv4, ''nat'', chain) =
       tabs w (ProtocolIPv4, ''nat'', chain) @
         (if \<not> srv_IsHA cfg \<and> CIDR_IsIPv4 (srv_SeedPodNetwork cfg)
          then [nat_rule (lib_ranges L) TunnelDevice (CIDR_String (srv_SeedPodNetwork cfg)) chain] else []))"
proof -
  note dev = server_device [OF assms(6)]
  obtain u where u: "tabs u = tabs w" and up: "runFirewallCommand (lib_os L) (lib_iptables L) (lib_netlink L) (lib_ranges L)
      (sv_Device v) ''up'' (map CIDR_String (sv_ShootNetworks v)) (CIDR_String (srv_SeedPodNetwork cfg)) u = (None, w1)"
    by (rule up_line_runs [OF assms(1-3,5-7,9)])
  obtain u1 where u1: "tabs u1 = tabs w1"
    and down: "runFirewallCommand (lib_os L) (lib_iptables L) (lib_netlink L) (lib_ranges L) (sv_Device v) ''down'' [] '''' u1 = (None, w2)"
    by (rule down_line_runs [OF assms(1-3,6,10)])
  have "nat_mapped (sv_Device v) (CIDR_String (srv_SeedPodNetwork cfg)) \<longleftrightarrow>
      \<not> srv_IsHA cfg \<and> CIDR_IsIPv4 (srv_SeedPodNetwork cfg)"
    using printable_parse [OF assms(8)] by (simp add: nat_mapped_def dev TapDevice_def TunnelDevice_def)
  then show ?thesis using firewall_down_leaves_netmap [OF assms(4) up u1 down, of p] dev u by simp
qed

section \<open>Witnesses\<close>

text \<open>The arguments that OpenVPN appends for a server with a tunnel device.\<close>

definition tunnel_arguments :: "string list" where
  "tunnel_arguments = [''tun0'', ''1500'', ''0'', ''192.168.123.1'', ''255.255.255.0'', ''init'']"

lemma tunnel_arguments_positional: "list_all positional tunnel_arguments"
  by (simp add: tunnel_arguments_def positional_def has_prefix_def)

abbreviation script_server :: "(unit, machine) server_libs" where
  "script_server \<equiv> machine_server 0 default_server"

lemma script_laws:
  "startup_laws (lib_startup script_server) view" "go_sort (lib_csort script_server)"
  "firewall_host (lib_os script_server) (lib_iptables script_server) mach_chains (lib_netlink script_server) machine_kernel"
  unfolding machine_libs
  by (rule quiet.startup_laws_axioms, rule insertion_sort.go_sort_axioms, rule machine_rules.firewall_host_axioms)

lemma default_server_printable: "\<forall>n \<in> routed_set (lib_ranges script_server) default_server. printable n"
  unfolding machine_libs using default_parse(1,2) by (auto simp: default_server_routed printable_def net8_def)

lemma default_server_device:
  "BuildValues default_ranges sort_key default_server = Inr v \<Longrightarrow> sv_Device v = ''tun0'' \<and> sv_Device v \<in> {TapDevice, TunnelDevice}"
  using server_device [of default_ranges sort_key default_server v] by (simp add: default_server_def TunnelDevice_def)

lemma default_server_up:
  assumes "BuildValues default_ranges sort_key default_server = Inr v"
  shows "\<exists>m. run_script_line word_dispatch script_server (up_line v) tunnel_arguments tunnel_machine = (Some 0, m)"
proof -
  have built: "BuildValues (lib_ranges script_server) (lib_csort script_server) default_server = Inr v" using assms by simp
  note nws = server_networks_set [OF script_laws(2) built default_server_printable]
  have "list_all (\<lambda>nw. parse_cidr nw \<noteq> None) (map CIDR_String (sv_ShootNetworks v))"
    using default_server_printable printable_string by (fastforce simp: list_all_iff nws)
  from tunnel_up_all [OF this] obtain m where run: "runFirewallCommand machine_os machine_ipt machine_netlink default_ranges ''tun0'' ''up''
      (map CIDR_String (sv_ShootNetworks v)) (CIDR_String (sv_SeedPodNetwork v)) tunnel_machine = (None, m)"
    by blast
  have "\<forall>n \<in> set (sv_ShootNetworks v). CIDR_String n \<noteq> []"
    using default_server_printable printable_string parse_cidr_empty unfolding nws by force
  note d = up_dispatch [OF words.cobra_axioms _ tunnel_arguments_positional this, of script_server, unfolded machine_libs]
  note dev = default_server_device [OF assms]
  show ?thesis
    unfolding run_script_line_def server_main_def machine_libs up_line_words [OF conjunct2 [OF dev]]
    using quiet_ends [OF d [OF conjunct2 [OF dev]]] run dev by fastforce
qed

lemma default_server_down:
  assumes "BuildValues default_ranges sort_key default_server = Inr v"
  shows "\<exists>m'. run_script_line word_dispatch script_server (down_line v) tunnel_arguments m = (Some 0, m')"
proof -
  note dev = default_server_device [OF assms]
  note d = down_dispatch [OF words.cobra_axioms conjunct2 [OF dev] tunnel_arguments_positional, of script_server, unfolded machine_libs]
  obtain m' where "runFirewallCommand machine_os machine_ipt machine_netlink default_ranges ''tun0'' ''down'' [] '''' m = (None, m')"
    using tunnel_down by blast
  then show ?thesis
    unfolding run_script_line_def server_main_def machine_libs using quiet_ends [OF d] dev by fastforce
qed

theorem openvpn_up_routes_witness:
  "\<exists>v m. BuildValues default_ranges sort_key default_server = Inr v \<and>
     run_script_line word_dispatch script_server (up_line v) tunnel_arguments tunnel_machine = (Some 0, m) \<and>
     routes (machine_kernel m) (net8 243) = Some 3 \<and> routes (machine_kernel m) (net8 244) = Some 3"
proof -
  obtain v where v: "BuildValues default_ranges sort_key default_server = Inr v" using default_server_values by blast
  then have built: "BuildValues (lib_ranges script_server) (lib_csort script_server) default_server = Inr v" by simp
  obtain m where run: "run_script_line word_dispatch script_server (up_line v) tunnel_arguments tunnel_machine = (Some 0, m)"
    using default_server_up [OF v] by blast
  obtain l where l: "links (machine_kernel tunnel_machine) TunnelDevice = Some l"
    "\<forall>n \<in> routed_set default_ranges default_server. routes (machine_kernel m) n = Some (Index (Attrs l))"
    using openvpn_up_routes [OF words.cobra_axioms script_laws(1) tunnel_arguments_positional script_laws(3,2) built default_server_printable run]
    by (auto simp: default_server_def)
  have "Index (Attrs l) = 3" using l(1)
    by (auto simp: tunnel_machine_def host_kernel_def host_link_def name_of_def TunnelDevice_def)
  then show ?thesis using v run l(2) by (auto simp: default_server_routed)
qed

theorem openvpn_up_isolates_witness:
  "\<exists>v m. BuildValues default_ranges sort_key default_server = Inr v \<and>
     run_script_line word_dispatch script_server (up_line v) tunnel_arguments tunnel_machine = (Some 0, m) \<and>
     verdict (mach_chains m (ProtocolIPv4, ''filter'', ''INPUT''))
       \<lparr>in_dev = ''tun0'', established = False, ip_proto = ''tcp''\<rparr> = Some ''DROP'' \<and>
     verdict (mach_chains m (ProtocolIPv6, ''filter'', ''INPUT''))
       \<lparr>in_dev = ''tun0'', established = True, ip_proto = ''tcp''\<rparr> = Some ''ACCEPT''"
proof -
  obtain v where v: "BuildValues default_ranges sort_key default_server = Inr v" using default_server_values by blast
  then have built: "BuildValues (lib_ranges script_server) (lib_csort script_server) default_server = Inr v" by simp
  obtain m where m: "run_script_line word_dispatch script_server (up_line v) tunnel_arguments tunnel_machine = (Some 0, m)"
    using default_server_up [OF v] by blast
  have "mach_chains tunnel_machine c = []" for c by (simp add: tunnel_machine_def)
  note isolates = openvpn_up_isolates [OF words.cobra_axioms script_laws(1) tunnel_arguments_positional script_laws(3,2) built
      default_server_printable m this]
  have "\<not> srv_IsHA default_server" by (simp add: default_server_def)
  then show ?thesis
    using v m isolates [of ProtocolIPv4 "\<lparr>in_dev = ''tun0'', established = False, ip_proto = ''tcp''\<rparr>"]
      isolates [of ProtocolIPv6 "\<lparr>in_dev = ''tun0'', established = True, ip_proto = ''tcp''\<rparr>"] by (simp add: TunnelDevice_def)
qed

theorem openvpn_down_leaves_netmap_witness:
  "\<exists>v m1 m2. BuildValues default_ranges sort_key default_server = Inr v \<and>
     run_script_line word_dispatch script_server (up_line v) tunnel_arguments tunnel_machine = (Some 0, m1) \<and>
     run_script_line word_dispatch script_server (down_line v) tunnel_arguments m1 = (Some 0, m2) \<and>
     mach_chains m2 (ProtocolIPv4, ''filter'', ''INPUT'') = [] \<and> mach_chains m2 (ProtocolIPv4, ''nat'', ''PREROUTING'') \<noteq> []"
proof -
  obtain v where v: "BuildValues default_ranges sort_key default_server = Inr v" using default_server_values by blast
  then have built: "BuildValues (lib_ranges script_server) (lib_csort script_server) default_server = Inr v" by simp
  obtain m1 where m1: "run_script_line word_dispatch script_server (up_line v) tunnel_arguments tunnel_machine = (Some 0, m1)"
    using default_server_up [OF v] by blast
  obtain m2 where m2: "run_script_line word_dispatch script_server (down_line v) tunnel_arguments m1 = (Some 0, m2)"
    using default_server_down [OF v] by blast
  have seed: "printable (srv_SeedPodNetwork default_server)" "CIDR_IsIPv4 (srv_SeedPodNetwork default_server)" "\<not> srv_IsHA default_server"
    using default_parse(5) by (auto simp: printable_def default_server_def default_pods_def CIDR_IsIPv4_def)
  then show ?thesis
    using v m1 m2 openvpn_down_leaves_netmap [OF words.cobra_axioms script_laws(1) tunnel_arguments_positional script_laws(3,2) built
        default_server_printable seed(1) m1 m2, of ProtocolIPv4]
    by (simp add: tunnel_machine_def)
qed

end
