(* ===== verification/Announcements.thy ===== *)
theory Announcements
  imports Path_Proofs Tunnel_Server "HOL-Library.Sublist"
begin

text \<open>
  From the path controller to the tunnel controllers: the pod IP that the one announces to every shoot
  client, and the route that the others make of it.
\<close>

section \<open>What a round sends\<close>

text \<open>The datagram that \<^verbatim>\<open>Send\<close> gives to a shoot client.\<close>

definition announcement :: "string \<Rightarrow> ip \<Rightarrow> string \<times> string" where
  "announcement pod client = (''['' @ ip_string client @ '']:5400'', pod)"

text \<open>The clients to which a list of jobs sends.\<close>

fun receivers :: "ping_job list \<Rightarrow> ip list" where
  "receivers [] = []"
| "receivers (PingClient c # js) = receivers js"
| "receivers (SendIP c # js) = c # receivers js"

lemma receivers_filter: "receivers js = map (\<lambda>j. case j of SendIP c \<Rightarrow> c | PingClient c \<Rightarrow> c) (filter (\<lambda>j. \<exists>c. j = SendIP c) js)"
  by (induction js rule: receivers.induct) auto

lemma receivers_jobs: "receivers (ping_jobs clients) = clients"
proof (induction clients)
  case (Cons c cs)
  have "receivers (PingClient c # SendIP c # js) = c # receivers js" for js by simp
  with Cons show ?case by (simp add: ping_jobs_def)
qed (simp add: ping_jobs_def)

lemma receivers_perm: "mset js = mset (ping_jobs clients) \<Longrightarrow> mset (receivers js) = mset clients"
  by (metis receivers_jobs receivers_filter mset_filter mset_map)

lemma subseq_mset: "subseq xs ys \<Longrightarrow> mset xs \<subseteq># mset ys"
  by (induction rule: list_emb.induct) (auto intro: subset_mset.order_trans)

context socket_laws
begin

lemma Send_sent:
  assumes "Send sk client pod w = (r, w')"
  shows "sent w' = sent w @ (if r = None then [announcement pod client] else [])"
proof -
  have addr: "''['' @ ip_string client @ '']:'' @ int_string tunnelControllerPort = fst (announcement pod client)"
    by (simp add: announcement_def tunnelControllerPort_def int_string_def dec_string_less digit_char_def net_eval)
  obtain x w1 where d: "Dial sk ''udp6'' (fst (announcement pod client)) w = (x, w1)" by fastforce
  show ?thesis
  proof (cases x)
    case (Inl e)
    then show ?thesis using assms d dial_failed [OF d [unfolded Inl]] unfolding Send_def Let_def addr by auto
  next
    case (Inr conn)
    obtain y w2 where y: "Write sk conn pod w1 = (y, w2)" by fastforce
    note dialled = dial [OF d [unfolded Inr]]
    show ?thesis
      using assms d Inr y dialled closing write_failed writing [of conn pod w1 w2]
      unfolding Send_def Let_def addr by (cases y) (auto simp: announcement_def)
  qed
qed

lemma jobs_sent:
  assumes "\<forall>c u. sent (snd (pinger c u)) = sent u"
    and "fold (run_job pinger (Send sk)) js (r, w) = (r', w')"
  shows "\<exists>reached. sent w' = sent w @ map (announcement (kubeAPIServerPodIP r)) reached \<and> subseq reached (receivers js) \<and>
    (\<forall>c \<in> set (receivers js). (\<forall>t u. fst (Send sk c t u) = None) \<longrightarrow> c \<in> set reached)"
  using assms(2)
proof (induction js arbitrary: r w)
  case (Cons j js)
  obtain r1 w1 where one: "run_job pinger (Send sk) j (r, w) = (r1, w1)" by fastforce
  then obtain reached where more: "sent w' = sent w1 @ map (announcement (kubeAPIServerPodIP r1)) reached" "subseq reached (receivers js)"
    "\<forall>c \<in> set (receivers js). (\<forall>t u. fst (Send sk c t u) = None) \<longrightarrow> c \<in> set reached"
    using Cons.IH [of r1 w1] Cons.prems one by auto
  show ?case
  proof (cases j)
    case (PingClient c)
    moreover have "sent (snd (pinger c w)) = sent w" using assms(1) by blast
    ultimately have "sent w1 = sent w" "kubeAPIServerPodIP r1 = kubeAPIServerPodIP r"
      using one by (auto simp: record_ping_def split: prod.splits if_splits)
    with more PingClient show ?thesis by auto
  next
    case (SendIP c)
    obtain e where send: "Send sk c (kubeAPIServerPodIP r) w = (e, w1)" and r1: "r1 = r"
      using one SendIP by (auto split: prod.splits)
    note sent1 = Send_sent [OF send]
    show ?thesis
    proof (cases e)
      case None
      with sent1 more r1 SendIP show ?thesis by (intro exI [of _ "c # reached"]) auto
    next
      case (Some x)
      have "\<not> (\<forall>t u. fst (Send sk c t u) = None)" using send Some by (metis fst_conv option.distinct(1))
      with Some sent1 more r1 SendIP show ?thesis by (intro exI [of _ reached]) auto
    qed
  qed
qed simp

end

section \<open>Property\<close>

text \<open>
  C10: a round of the path controller sends its pod IP, translated if the networks overlap, to shoot
  clients only, to each at most once, and to each that can be reached.  When such a datagram makes the
  tunnel controller of a shoot client start an update, and that update, whenever it runs among other
  packets, updates and clean-ups, ends in success, the kernel there has a device from the bonding
  address of the shoot client to the sender, which is up, and the route to the pod IP goes over it.
\<close>

theorem announcement_installs_route:
  assumes "socket_laws sk peer sent" and "\<forall>c v. sent (snd (pinger c v)) = sent v"
    and "\<forall>js. mset (sched js) = mset js"
    and "path_run rng d parsed env = Inr (pg, nets, router, clients)"
    and "pingAllShootClients pinger (Send sk) sched clients (router, v) = (router', v')"
    and "sent v' = sent v @ new" and "(addr, pod) \<in> set new" and "length pod \<le> 1024"
    and "netlink_laws nl kern"
    and "(tunnel_step nl clk visit l)\<^sup>*\<^sup>* (NewController cfg now, [], w0) (c, gs, w)"
    and "handle_packet (clk w) l a (take 1024 pod) c = (c1, gs1)" and "Update p pod \<in> set gs1"
    and "(tunnel_step nl clk visit l)\<^sup>*\<^sup>* (c1, gs @ gs1, w) (c2, gs2, u)"
    and "run_goroutine nl clk visit (Update p pod) (c2, u) = (c3, u')" and "data_ready (objects c3 ! p)"
  shows "mset new \<subseteq># image_mset (\<lambda>client. (''['' @ ip_string client @ '']:5400'', pod)) (mset clients) \<and>
    (\<forall>client \<in> set clients. (\<forall>t s. fst (Send sk client t s) = None) \<longrightarrow> (''['' @ ip_string client @ '']:5400'', pod) \<in> set new) \<and>
    (\<exists>pc. GetPathControllerConfig d parsed = Inr pc \<and> path_pod_ip rng pc env = Inr pod) \<and>
    (\<exists>name i r x. name = linkName (objects c3 ! p) \<and> r = remoteAddr (objects c3 ! p) \<and> ip_string r = ip_string a \<and>
      links (kern u') name = Some (Ip6tnl (NewLinkAttrs name\<lparr>Index := i\<rparr>) l r 0 True) \<and> name \<in> up (kern u') \<and>
      parse_ip pod = Some x \<and> routes (kern u') (host_net (norm_ip x)) = Some i)"
proof -
  let ?js = "sched (ping_jobs clients)" and ?pod = "kubeAPIServerPodIP router"
  obtain reached where sent: "sent v' = sent v @ map (announcement ?pod) reached" and sub: "subseq reached (receivers ?js)"
    and all: "\<forall>c \<in> set (receivers ?js). (\<forall>t u. fst (Send sk c t u) = None) \<longrightarrow> c \<in> set reached"
    using socket_laws.jobs_sent [OF assms(1,2), of ?js router v router' v'] assms(5) by (auto simp: pingAllShootClients_def)
  have new: "new = map (announcement ?pod) reached" using sent assms(6) by simp
  then have pod: "?pod = pod" using assms(7) by (auto simp: announcement_def)
  have js: "mset (receivers ?js) = mset clients" using assms(3) by (intro receivers_perm) blast
  then have set: "set (receivers ?js) = set clients" by (metis set_mset_mset)
  obtain pc where pc: "GetPathControllerConfig d parsed = Inr pc" "path_pod_ip rng pc env = Inr ?pod"
    by (rule path_run_ok [OF assms(4)])
  have "mset reached \<subseteq># mset clients" using subseq_mset [OF sub] js by simp
  then have "mset new \<subseteq># image_mset (announcement pod) (mset clients)"
    unfolding new pod mset_map by (rule image_mset_subseteq_mono)
  moreover have "announcement pod client \<in> set new" if "client \<in> set clients" "\<forall>t s. fst (Send sk client t s) = None" for client
    using all that unfolding new pod set by simp
  moreover note packet_installs_route [OF assms(9,10) assms(11) [unfolded take_all [OF assms(8)]] assms(12-15)]
  ultimately show ?thesis using pc unfolding announcement_def pod by blast
qed

section \<open>Witness\<close>

text \<open>
  Two shoot clients that can be reached, and the tunnel controller of the first one, which gets the
  announcement from the seed client \<open>sender_ip\<close>.
\<close>

definition sender_ip :: ip where
  "sender_ip = [0xfd, 0x8f, 0x6d, 0x53, 0xb9, 0x7a, 0, 1, 0, 0, 0, 0, 0, 0xa, 0, 5]"

lemma example_round:
  "\<exists>v. pingAllShootClients (\<lambda>_ v. (None, v)) (Send wire_sockets) (\<lambda>js. js) [client_ip 0, client_ip 1] (r, ((), no_wires)) = (v, ((),
     \<lparr>conns = map (fst \<circ> announcement (kubeAPIServerPodIP r)) [client_ip 0, client_ip 1],
      wire_log = map (announcement (kubeAPIServerPodIP r)) [client_ip 0, client_ip 1]\<rparr>))"
  by (simp add: pingAllShootClients_def ping_jobs_def Send_def wire_sockets_def no_wires_def record_ping_def announcement_def
      tunnelControllerPort_def int_string_def dec_string_less digit_char_def net_eval)

theorem announcement_installs_route_witness:
  "\<exists>router v c1 c3 u i. wire_log (snd v) = map (announcement ''241.0.0.7'') [client_ip 0, client_ip 1] \<and>
     snd (pingAllShootClients (\<lambda>_ v. (None, v)) (Send wire_sockets) (\<lambda>js. js) [client_ip 0, client_ip 1] (router, ((), no_wires))) = v \<and>
     run_goroutine host_netlink (\<lambda>_. 0) rev (Update 0 ''241.0.0.7'') (c1, example_host) = (c3, u) \<and>
     routes (host_kernel u) (host_net [241, 0, 0, 7]) = Some i"
proof -
  obtain p nets r where path: "path_run reserved_ranges vpn_nw (Inr example_path) ''10.0.0.7'' = Inr (p, nets, r, [client_ip 0, client_ip 1])"
    using example_path_run by blast
  have pod: "kubeAPIServerPodIP r = ''241.0.0.7''"
    by (rule path_run_ok [OF path]) (use example_pod_ip in \<open>auto simp: GetPathControllerConfig_def example_path_def vpn_nw_ok split: if_splits\<close>)
  obtain r' v where round: "pingAllShootClients (\<lambda>_ v. (None, v)) (Send wire_sockets) (\<lambda>js. js) [client_ip 0, client_ip 1] (r, ((), no_wires)) = (r', v)"
    and log: "wire_log (snd v) = map (announcement ''241.0.0.7'') [client_ip 0, client_ip 1]"
    using example_round [of r] by (auto simp: pod)
  let ?new = "map (announcement ''241.0.0.7'') [client_ip 0, client_ip 1]"
  have new: "wire_log (snd v) = wire_log (snd ((), no_wires)) @ ?new" using log by (simp add: no_wires_def)
  have datagram: "(fst (announcement ''241.0.0.7'' (client_ip 0)), ''241.0.0.7'') \<in> set ?new" by (simp add: announcement_def)
  let ?c = "NewController DefaultTunnelControllerConfig 0"
  let ?d = "\<lparr>podIP = ''241.0.0.7'', localAddr = client_ip 0, remoteAddr = sender_ip, lastSeen = 0, creationComplete = False,
     lastCreationFailed = None, creationFailedCount = 0, lastError = None\<rparr>"
  obtain c1 gs where h: "handle_packet ((\<lambda>_ :: host. 0) example_host) (client_ip 0) sender_ip (take 1024 ''241.0.0.7'') ?c = (c1, gs)" by fastforce
  then have c1: "objects c1 = [?d]" and up: "Update 0 ''241.0.0.7'' \<in> set gs"
    by (auto simp: handle_packet_def find_or_create_def NewController_def needsUpdate_def setLastSeen_def cleanUpPeriod_def
        second_def Let_def)
  obtain c3 u where run: "run_goroutine host_netlink (\<lambda>_. 0) rev (Update 0 ''241.0.0.7'') (c1, example_host) = (c3, u)"
    by fastforce
  have "data_ready (fst (update host_netlink (\<lambda>_. 0) ''241.0.0.7'' ?d example_host))"
    by (simp add: update_eval example_host_def net_eval)
  moreover have "objects c3 ! 0 = fst (update host_netlink (\<lambda>_. 0) ''241.0.0.7'' ?d example_host)"
    using run c1 by (auto split: prod.splits)
  ultimately have ready: "data_ready (objects c3 ! 0)" by simp
  obtain i x where "parse_ip ''241.0.0.7'' = Some x" "routes (host_kernel u) (host_net (norm_ip x)) = Some i"
    using announcement_installs_route [OF wire.socket_laws_axioms _ _ path round new datagram _ host.netlink_laws_axioms rtranclp.rtrancl_refl h up
        rtranclp.rtrancl_refl run ready] by auto
  moreover have "norm_ip x = [241, 0, 0, 7]" if "parse_ip ''241.0.0.7'' = Some x" for x
    using that by (auto simp: net_eval norm_ip_def)
  ultimately have "routes (host_kernel u) (host_net [241, 0, 0, 7]) = Some i" by simp
  then show ?thesis using round log run by (intro exI [of _ r] exI [of _ v] exI [of _ c1] exI [of _ c3] exI [of _ u] exI [of _ i]) simp
qed

end
