(* ===== verification/Spec2Isabelle.thy ===== *)
theory Spec2Isabelle
  imports Netmap_NAT Pool_Theorems Watchdog_Proofs Tunnel_Proofs Path_Proofs Double_NAT Firewall Server_Values_Proofs Client_Setup_Proofs Netstat_Proofs Health_Proofs Exporter Commands_Proofs Config_Proofs Pool_Wait Seed_Pods Tunnel_Server Client_Start Processes Scripts Announcements
begin

text \<open>
  This is a model of the Gardener VPN (\<^verbatim>\<open>vpn2\<close>) and the theorems about it.  The VPN connects the control
  plane of a Kubernetes cluster (a shoot), which runs in another cluster (the seed), with the nodes, pods
  and services of the shoot.

  PROGRAM.  \<^verbatim>\<open>cmd/vpn_server\<close> starts an OpenVPN server in the seed, \<^verbatim>\<open>cmd/vpn_client\<close> a client in the
  shoot; OpenVPN itself is a foreign program that is configured by the files they write.  Without high
  availability there is one server with one client.  With it there are several of each, every client has a
  tap device for each server and bonds them, and beside every kube-apiserver a seed client does the same;
  seed clients draw their addresses from a pool (\<^verbatim>\<open>pkg/ippool\<close>) that is kept in annotations of their pods.
  On the shoot side a tunnel controller (\<^verbatim>\<open>pkg/shoot_client/tunnel\<close>) makes a tunnel device back to each
  kube-apiserver that reports its pod IP; on the seed side a path controller
  (\<^verbatim>\<open>cmd/vpn_client/app/pathcontroller\<close>) pings the shoot clients, reports the pod IP, and routes the networks
  of the shoot over one that answers.  Where networks of seed and shoot may collide, addresses are
  translated on both sides with NETMAP rules into reserved ranges (\<^verbatim>\<open>pkg/network/netmap.go\<close>).

  THEORIES.  Every component has a theory with its definitions, in the order of the code, and a theory
  with its proofs.

  Shared ground: \<^verbatim>\<open>VPN_Prelude\<close> (results with an error side, strings, and the contract \<^verbatim>\<open>go_sort\<close> of a
  sorting function of Go's library); \<^verbatim>\<open>Go_Net\<close>, \<^verbatim>\<open>Go_Net_Facts\<close>, \<^verbatim>\<open>Go_Net_V6\<close> (addresses, masks, networks of
  Go's package \<^verbatim>\<open>net\<close>, with parsing and printing); \<^verbatim>\<open>Go_Text\<close> (lines, fields, numbers, dates, and the parts of
  regular expressions the program uses); \<^verbatim>\<open>Effects\<close> (operations on a world that return an error or none).

  \<^verbatim>\<open>Net_Types\<close>, \<^verbatim>\<open>CIDR_Text\<close>: \<^verbatim>\<open>pkg/network/types.go\<close>.
  \<^verbatim>\<open>Netmap\<close>, \<^verbatim>\<open>Netmap_Proofs\<close>, \<^verbatim>\<open>Netmap_NAT\<close>: \<^verbatim>\<open>pkg/network/netmap.go\<close>.
  \<^verbatim>\<open>Net_Addr\<close>: \<^verbatim>\<open>pkg/network/ip.go\<close>, \<^verbatim>\<open>pkg/config/vpnnetwork.go\<close>.
  \<^verbatim>\<open>Config\<close>, \<^verbatim>\<open>Config_Proofs\<close>: \<^verbatim>\<open>pkg/config\<close>.
  \<^verbatim>\<open>IP_Pool\<close>, \<^verbatim>\<open>IP_Pool_Laws\<close>, \<^verbatim>\<open>Pool_Protocol\<close>, \<^verbatim>\<open>Pool_Theorems\<close>, \<^verbatim>\<open>Pool_Wait\<close>: \<^verbatim>\<open>pkg/ippool\<close>.
  \<^verbatim>\<open>Watchdog\<close>, \<^verbatim>\<open>Watchdog_Proofs\<close>, \<^verbatim>\<open>Tunnel\<close>, \<^verbatim>\<open>Tunnel_Proofs\<close>, \<^verbatim>\<open>Tunnel_Server\<close>: \<^verbatim>\<open>pkg/shoot_client/tunnel\<close> and
  \<^verbatim>\<open>cmd/vpn_client/app/tunnelcontroller\<close>; the last one is the server with its watchdog and its sockets.
  \<^verbatim>\<open>Net_Link\<close>: \<^verbatim>\<open>pkg/network/link.go\<close>, \<^verbatim>\<open>route.go\<close>, \<^verbatim>\<open>mtu.go\<close>.
  \<^verbatim>\<open>Path_Controller\<close>, \<^verbatim>\<open>Path_Proofs\<close>: \<^verbatim>\<open>cmd/vpn_client/app/pathcontroller\<close>.
  \<^verbatim>\<open>Iptables\<close>, \<^verbatim>\<open>Double_NAT\<close>, \<^verbatim>\<open>Firewall\<close>: \<^verbatim>\<open>pkg/network/iptables.go\<close>, \<^verbatim>\<open>pkg/vpn_server/iptables.go\<close>,
  \<^verbatim>\<open>pkg/vpn_client/iptables.go\<close>, \<^verbatim>\<open>cmd/vpn_server/app/firewall.go\<close>.
  \<^verbatim>\<open>Client_Setup\<close>, \<^verbatim>\<open>Client_Setup_Proofs\<close>: \<^verbatim>\<open>pkg/vpn_client/sysctl.go\<close>, \<^verbatim>\<open>cleanup.go\<close>, \<^verbatim>\<open>bonding.go\<close>.
  \<^verbatim>\<open>Server_Values\<close>, \<^verbatim>\<open>Server_Values_Proofs\<close>: \<^verbatim>\<open>pkg/vpn_server/values.go\<close>.
  \<^verbatim>\<open>OpenVPN_Config\<close>: \<^verbatim>\<open>pkg/openvpn/config.go\<close>, \<^verbatim>\<open>config_client.go\<close>, \<^verbatim>\<open>config_server.go\<close> and the templates
  under \<^verbatim>\<open>assets\<close>.
  \<^verbatim>\<open>Health\<close>, \<^verbatim>\<open>Health_Proofs\<close>: \<^verbatim>\<open>pkg/openvpn/health\<close>.
  \<^verbatim>\<open>Netstat\<close>, \<^verbatim>\<open>Netstat_Proofs\<close>, \<^verbatim>\<open>Exporter\<close>: \<^verbatim>\<open>pkg/network/netstat.go\<close>, \<^verbatim>\<open>pkg/openvpn/exporter\<close>.
  \<^verbatim>\<open>Commands\<close>, \<^verbatim>\<open>Commands_Proofs\<close>, \<^verbatim>\<open>Client_Start\<close>: the \<^verbatim>\<open>run\<close> functions of all commands, which put the
  components together, and what they leave behind.
  \<^verbatim>\<open>Cobra\<close>: commands, flags, and the contract of the library that reads the arguments.
  \<^verbatim>\<open>Command_Line\<close>: \<^verbatim>\<open>main\<close>, the commands as the two programs declare them, \<^verbatim>\<open>pkg/utils/initrun.go\<close>, \<^verbatim>\<open>pkg/pprof\<close>.
  \<^verbatim>\<open>Processes\<close>: the processes from their arguments to their exit status.
  \<^verbatim>\<open>Scripts\<close>: what happens when OpenVPN runs the lines that the server wrote.
  \<^verbatim>\<open>Seed_Pods\<close>, \<^verbatim>\<open>Announcements\<close>: where the components must agree on addresses: the rules with the path
  controller, and the path controller with the tunnel controllers.

  STATE AND OPERATIONS.  Structs are records, tagged values datatypes, errors values of \<^verbatim>\<open>go_error\<close> on the
  left of a sum.  Code that only computes is a function.  Code that acts on the host (devices, routes, rules,
  files, kernel settings, the Kubernetes API, sockets, random numbers, the clock) takes the library it
  calls as a record of functions on a state \<^verbatim>\<open>'w\<close> of the world, and returns the new world.  What the
  proofs need of a library is a locale: \<^verbatim>\<open>ip_pool\<close> and \<^verbatim>\<open>pod_api\<close> (Kubernetes), \<^verbatim>\<open>netlink_laws\<close> and
  \<^verbatim>\<open>address_laws\<close> (the network stack), \<^verbatim>\<open>iptables_laws\<close>, \<^verbatim>\<open>sysctl_laws\<close>, \<^verbatim>\<open>file_laws\<close>, \<^verbatim>\<open>firewall_host\<close> (their
  combination), \<^verbatim>\<open>timed_pool\<close> (a clock), \<^verbatim>\<open>socket_laws\<close> (connections),
  \<^verbatim>\<open>cobra\<close> (arguments), \<^verbatim>\<open>startup_laws\<close> (loggers and the version flag), \<^verbatim>\<open>go_sort\<close>, \<^verbatim>\<open>go_range\<close> (the unspecified
  order of Go's loops over maps).
  Each is interpreted: \<^verbatim>\<open>Pool_Theorems\<close> has a store of pods, \<^verbatim>\<open>Machine\<close> a host with devices, routes, chains
  of rules, files and settings; the witnesses run the code on them.

  CONCURRENCY.  Operations that run under a lock are atomic.  \<^verbatim>\<open>broker_step\<close> cuts \<^verbatim>\<open>AcquireIP\<close> at its calls of
  the API, and \<^verbatim>\<open>pool_step\<close> interleaves the brokers of any number of pods with restarts; \<^verbatim>\<open>tunnel_step\<close>
  interleaves packets, the goroutines that update and clean up, and time; the pings of a round finish
  in any order.

  RESULTS.
  \<^item> Netmap: the recursive assignment equals sequential packing; it succeeds exactly when the sources fit,
    its networks are disjoint and inside the reserved range, and the mapping of addresses is invertible.
  \<^item> Addresses: the parts of the VPN network do not overlap; bonding addresses and tunnel networks of
    different clients and servers differ.
  \<^item> Pool: \<^verbatim>\<open>AcquireIP\<close> is a run of the protocol (refinement); no interleaving lets two pods use the
    same address; a pod keeps its address; the time it waits is bounded.
  \<^item> Tunnel and path controllers: the watchdog against the list of the last events, and the restarts it
    causes; to whom a pod IP is announced and what the announcement leads to in every interleaving; invariants of the
    reachable states; the choice of the primary client in every schedule; where failures leave the routes.
  \<^item> Rules: the two translations are inverse on every address of the shoot and on those of the pods of
    the seed, whose translated address is the one the path controller reports; what the INPUT rules let in;
    what \<^verbatim>\<open>firewall down\<close> takes back and what it leaves.
  \<^item> Processes: what is true when a process has ended with the status 0: the host that \<^verbatim>\<open>setup\<close> prepares,
    the files of server and client, built from a valid environment; the status of the probes.
  \<^item> Scripts: OpenVPN runs the \<^verbatim>\<open>up\<close> line that the server wrote, with arguments of its own, which routes
    exactly the networks of the shoot; the \<^verbatim>\<open>down\<close> line.
  \<^item> Status file, statistics: what is written in the format of OpenVPN or Linux is read back, and
    what the probes and metrics say of it.

  BOUNDS.  The number of iterations is part of the code everywhere: 30 attempts of \<^verbatim>\<open>AcquireIP\<close>
  (\<^verbatim>\<open>acquire_loop\<close> with 29 repetitions after the first), the draws of \<^verbatim>\<open>find_free\<close> (a constant of the code),
  \<^verbatim>\<open>retriesToListen\<close>, the retries of \<^verbatim>\<open>Ping\<close>.  Endless loops (\<^verbatim>\<open>Run\<close> of the tunnel controller, of the path
  controller) are modelled by one iteration and by lists of iterations.  Integers are unbounded where
  the values are; the subnet arithmetic is on words of 32 bits, durations and ports wrap at 64 bits.

  NOT MODELLED.  Reading the environment (the library \<^verbatim>\<open>env\<close>; the parsed values are arguments), what is
  logged where nothing depends on it, the HTTP servers behind their addresses, and \<^verbatim>\<open>hack/tools.go\<close>, which
  only imports the tools of the build.  Libraries are parameters.  Files are read as a whole, so that an
  error in the middle of a file is an error of opening it.  The reserved ranges and the default VPN network
  are constants of another repository and arguments here; so the \<^verbatim>\<open>init\<close> of \<^verbatim>\<open>pkg/constants\<close>, which parses
  one of them, is left out.  Real time enters only through the clock of the world.
\<close>

end
